(* ===== verification/Prelude.thy ===== *)
theory Prelude
  imports Main "HOL-Library.AList"
begin

text \<open>
  Shared vocabulary of the development: Go errors as values, instants and durations, association
  lists standing for Go maps, and the generic lemmas the component theories share.

  An operation that returns \<open>(T, error)\<close> in the source is modelled as \<open>goerr + 'a\<close> (\<open>Inl\<close> the
  error); an operation that returns only \<open>error\<close> is modelled as \<open>goerr option\<close> (\<open>None\<close> is \<open>nil\<close>).
\<close>

named_theorems go_simps \<open>unfolding rules for the Go vocabulary\<close>
named_theorems err_simps \<open>how the error tests act on the error constructors\<close>

section \<open>Instants and durations\<close>

text \<open>
  A \<open>time.Time\<close> is the number of nanoseconds since Go's zero time (1 January of year 1, UTC), so
  \<open>IsZero\<close> is equality with 0, \<open>UTC()\<close> is the identity and \<open>Before\<close>, \<open>After\<close> and \<open>Equal\<close> are the order
  of \<open>int\<close>. A \<open>time.Duration\<close> is a 64-bit count of nanoseconds: \<open>Sub\<close> saturates at its bounds, as the
  library documents, which is what the difference to a zero time does in practice.
\<close>

type_synonym gtime = int
type_synonym duration = int

definition max_duration :: duration where "max_duration = 2 ^ 63 - 1"
definition min_duration :: duration where "min_duration = - (2 ^ 63)"

definition is_zero :: "gtime \<Rightarrow> bool" where "is_zero t \<longleftrightarrow> t = 0"

definition time_sub :: "gtime \<Rightarrow> gtime \<Rightarrow> duration" where
  "time_sub a b = max min_duration (min max_duration (a - b))"

definition time_add :: "gtime \<Rightarrow> duration \<Rightarrow> gtime" where "time_add t d = t + d"

definition nanosecond :: duration where "nanosecond = 1"
definition millisecond :: duration where "millisecond = 1000000"
definition second :: duration where "second = 1000000000"
definition minute :: duration where "minute = 60 * second"
definition hour :: duration where "hour = 60 * minute"

text \<open>Integer division of Go truncates towards zero; \<open>Duration.Milliseconds\<close> is such a division.\<close>

definition trunc_div :: "int \<Rightarrow> int \<Rightarrow> int" where
  "trunc_div a b = sgn a * sgn b * (\<bar>a\<bar> div \<bar>b\<bar>)"

definition milliseconds :: "duration \<Rightarrow> int" where "milliseconds d = trunc_div d millisecond"

lemmas duration_defs [go_simps] = nanosecond_def millisecond_def second_def minute_def hour_def
  max_duration_def min_duration_def

text \<open>The value of an \<open>int64\<close> after an operation that overflows.\<close>

definition wrap64 :: "int \<Rightarrow> int" where "wrap64 x = (x + 2 ^ 63) mod 2 ^ 64 - 2 ^ 63"

lemma wrap64_id: "- (2 ^ 63) \<le> x \<Longrightarrow> x < 2 ^ 63 \<Longrightarrow> wrap64 x = x"
  by (simp add: wrap64_def)

lemma wrap64_range: "- (2 ^ 63) \<le> wrap64 x \<and> wrap64 x < 2 ^ 63"
proof -
  have "0 \<le> (x + 2 ^ 63) mod 2 ^ 64" by (rule pos_mod_sign) simp
  moreover have "(x + 2 ^ 63) mod 2 ^ 64 < 2 ^ 64" by (rule pos_mod_bound) simp
  ultimately show ?thesis by (simp add: wrap64_def)
qed

lemma time_sub_exact:
  "min_duration \<le> a - b \<Longrightarrow> a - b \<le> max_duration \<Longrightarrow> time_sub a b = a - b"
  by (simp add: time_sub_def)

lemma time_sub_less_iff:
  "d \<le> max_duration \<Longrightarrow> min_duration < d \<Longrightarrow> time_sub a b < d \<longleftrightarrow> a - b < d"
  by (auto simp: time_sub_def)

lemma time_sub_mono: "a \<le> a' \<Longrightarrow> b' \<le> b \<Longrightarrow> time_sub a b \<le> time_sub a' b'"
  by (auto simp: time_sub_def)

lemma trunc_div_nonneg: "0 \<le> a \<Longrightarrow> 0 < b \<Longrightarrow> trunc_div a b = a div b"
  by (cases "a = 0") (auto simp: trunc_div_def)

section \<open>Errors\<close>

text \<open>
  One datatype holds every error value of the program. \<open>Wrap\<close> is \<open>fmt.Errorf\<close> with one or more \<open>%w\<close>
  verbs (its string is the context the format adds), \<open>JoinE\<close> is \<open>errors.Join\<close>, \<open>Sentinel\<close> a
  package-level error compared by identity, \<open>CtxErr\<close> the two errors of a finished context, and the
  remaining constructors are the error types of the source: \<open>sink.permanentError\<close>,
  \<open>otlp.HTTPError\<close>, a gRPC status, \<open>ghclient.ErrRateLimited\<close>, \<open>ghclient.ErrHookAmbiguous\<close> and \<open>googleapi.Error\<close>
  with its status code.
\<close>

datatype ctx_err = Canceled | DeadlineExceeded

datatype grpc_code =
    OK | CanceledC | Unknown | InvalidArgument | DeadlineExceededC | NotFound | AlreadyExists
  | PermissionDenied | ResourceExhausted | FailedPrecondition | Aborted | OutOfRange
  | Unimplemented | Internal | Unavailable | DataLoss | Unauthenticated

datatype goerr =
    Msg string
  | Sentinel string
  | CtxErr ctx_err
  | Wrap string "goerr list"
  | JoinE "goerr list"
  | PermanentE goerr
  | HTTPError int string duration
  | GRPCStatus grpc_code string "duration option"
  | RateLimited duration goerr
  | HookAmbiguous "int list"
  | GoogleAPI int

text \<open>\<open>errors.Is\<close> and \<open>errors.As\<close> walk the tree of wrapped errors, an error before what it wraps.\<close>

fun err_any :: "(goerr \<Rightarrow> bool) \<Rightarrow> goerr \<Rightarrow> bool" where
  "err_any P (Wrap s es) = (P (Wrap s es) \<or> list_ex (err_any P) es)"
| "err_any P (JoinE es) = (P (JoinE es) \<or> list_ex (err_any P) es)"
| "err_any P (PermanentE e) = (P (PermanentE e) \<or> err_any P e)"
| "err_any P (RateLimited d e) = (P (RateLimited d e) \<or> err_any P e)"
| "err_any P e = P e"

fun first_some :: "'a option list \<Rightarrow> 'a option" where
  "first_some [] = None"
| "first_some (Some x # xs) = Some x"
| "first_some (None # xs) = first_some xs"

fun err_find :: "(goerr \<Rightarrow> 'a option) \<Rightarrow> goerr \<Rightarrow> 'a option" where
  "err_find f (Wrap s es) =
     (case f (Wrap s es) of Some x \<Rightarrow> Some x | None \<Rightarrow> first_some (map (err_find f) es))"
| "err_find f (JoinE es) =
     (case f (JoinE es) of Some x \<Rightarrow> Some x | None \<Rightarrow> first_some (map (err_find f) es))"
| "err_find f (PermanentE e) =
     (case f (PermanentE e) of Some x \<Rightarrow> Some x | None \<Rightarrow> err_find f e)"
| "err_find f (RateLimited d e) =
     (case f (RateLimited d e) of Some x \<Rightarrow> Some x | None \<Rightarrow> err_find f e)"
| "err_find f e = f e"

definition is_sentinel :: "string \<Rightarrow> goerr \<Rightarrow> bool" where
  "is_sentinel s = err_any (\<lambda>e. e = Sentinel s)"

definition is_ctx_err :: "ctx_err \<Rightarrow> goerr \<Rightarrow> bool" where
  "is_ctx_err c = err_any (\<lambda>e. e = CtxErr c)"

text \<open>The text of an error, as \<open>Error()\<close> renders it up to the wording of the context.\<close>

fun intercalate :: "string \<Rightarrow> string list \<Rightarrow> string" where
  "intercalate sep [] = []"
| "intercalate sep [s] = s"
| "intercalate sep (s # t # ss) = s @ sep @ intercalate sep (t # ss)"

fun err_text :: "goerr \<Rightarrow> string" where
  "err_text (Msg s) = s"
| "err_text (Sentinel s) = s"
| "err_text (CtxErr Canceled) = ''context canceled''"
| "err_text (CtxErr DeadlineExceeded) = ''context deadline exceeded''"
| "err_text (Wrap s es) = s @ '': '' @ intercalate '': '' (map err_text es)"
| "err_text (JoinE es) = intercalate ''; '' (map err_text es)"
| "err_text (PermanentE e) = ''permanent: '' @ err_text e"
| "err_text (HTTPError n m d) = ''http: '' @ m"
| "err_text (GRPCStatus c m r) = ''rpc error: '' @ m"
| "err_text (RateLimited d e) = ''ghclient: rate limited: '' @ err_text e"
| "err_text (HookAmbiguous ids) = ''ghclient: hooks match the webhook url; set hook_id''"
| "err_text (GoogleAPI n) = ''googleapi: Error''"

text \<open>\<open>errors.Join\<close> drops \<open>nil\<close> errors and is \<open>nil\<close> when nothing is left.\<close>

definition some_errs :: "goerr option list \<Rightarrow> goerr list" where
  "some_errs es = map the (filter (\<lambda>e. e \<noteq> None) es)"

definition join_errs :: "goerr list \<Rightarrow> goerr option" where
  "join_errs es = (if es = [] then None else Some (JoinE es))"

definition errors_join :: "goerr option list \<Rightarrow> goerr option" where
  "errors_join es = join_errs (some_errs es)"

lemma first_some_map: "first_some (map f xs) \<noteq> None \<longleftrightarrow> list_ex (\<lambda>x. f x \<noteq> None) xs"
proof (induction xs)
  case (Cons x xs)
  then show ?case by (cases "f x") auto
qed simp

lemma err_find_any: "err_any (\<lambda>e. f e \<noteq> None) e \<longleftrightarrow> err_find f e \<noteq> None"
proof (induction e)
  case (Wrap s es)
  then show ?case
    using first_some_map [of "err_find f" es] by (auto simp: list_ex_iff split: option.splits)
next
  case (JoinE es)
  then show ?case
    using first_some_map [of "err_find f" es] by (auto simp: list_ex_iff split: option.splits)
qed (auto split: option.splits)

lemma join_errs_None [simp]: "join_errs es = None \<longleftrightarrow> es = []"
  by (simp add: join_errs_def)

lemma some_errs_Nil [simp]: "some_errs es = [] \<longleftrightarrow> (\<forall>e \<in> set es. e = None)"
  by (auto simp: some_errs_def filter_empty_conv)

lemma errors_join_None [simp]: "errors_join es = None \<longleftrightarrow> (\<forall>e \<in> set es. e = None)"
  by (simp add: errors_join_def)

section \<open>Association lists as Go maps\<close>

text \<open>
  A Go map that is iterated or measured is an association list with distinct keys: \<open>AList.update\<close> is
  the assignment, \<open>AList.delete\<close> is \<open>delete\<close>, \<open>map_of\<close> the lookup and \<open>length\<close> is \<open>len\<close>. Iteration
  follows the list's order, one of the orders Go may choose.
\<close>

type_synonym ('k, 'v) amap = "('k \<times> 'v) list"

definition wf_amap :: "('k, 'v) amap \<Rightarrow> bool" where "wf_amap m \<longleftrightarrow> distinct (map fst m)"

lemma wf_amap_Nil [simp, intro]: "wf_amap []"
  by (simp add: wf_amap_def)

lemma wf_amap_update [simp, intro]: "wf_amap m \<Longrightarrow> wf_amap (AList.update k v m)"
  by (simp add: wf_amap_def distinct_update)

lemma wf_amap_delete [simp, intro]: "wf_amap m \<Longrightarrow> wf_amap (AList.delete k m)"
  by (simp add: wf_amap_def distinct_delete)

lemma wf_amap_filter [simp, intro]: "wf_amap m \<Longrightarrow> wf_amap (filter P m)"
  by (simp add: wf_amap_def distinct_map_filter)

lemma map_of_update [simp]: "map_of (AList.update k v m) = (map_of m)(k \<mapsto> v)"
  by (simp add: update_conv')

lemma map_of_delete [simp]: "map_of (AList.delete k m) = (map_of m)(k := None)"
  by (simp add: delete_conv')

lemma delete_update_same [simp]: "AList.delete k (AList.update k v m) = AList.delete k m"
  by (induction m) auto

lemma length_update_le: "length (AList.update k v m) \<le> Suc (length m)"
  by (induction m) auto

lemma length_update_mem: "map_of m k \<noteq> None \<Longrightarrow> length (AList.update k v m) = length m"
  by (induction m) auto

lemma length_update_new: "map_of m k = None \<Longrightarrow> length (AList.update k v m) = Suc (length m)"
  by (induction m) auto

lemma wf_amap_mem: "wf_amap m \<Longrightarrow> (k, v) \<in> set m \<longleftrightarrow> map_of m k = Some v"
  by (auto simp: wf_amap_def dest: map_of_SomeD)

lemma map_of_None_filter: "map_of m k = None \<Longrightarrow> map_of (filter P m) k = None"
  by (auto simp: map_of_eq_None_iff)

lemma map_of_filter:
  "wf_amap m \<Longrightarrow> map_of (filter (\<lambda>(k, v). P k v) m) k =
     (case map_of m k of None \<Rightarrow> None | Some v \<Rightarrow> if P k v then Some v else None)"
proof (induction m)
  case (Cons p m)
  then have wf: "wf_amap m" and new: "fst p \<notin> fst ` set m"
    by (auto simp: wf_amap_def)
  show ?case
  proof (cases "fst p = k")
    case True
    with new have "map_of m k = None" by (auto simp: map_of_eq_None_iff)
    with True show ?thesis by (cases p) (auto dest: map_of_None_filter)
  next
    case False
    with Cons.IH [OF wf] show ?thesis by (cases p) auto
  qed
qed simp

section \<open>Lists\<close>

lemma list_ex_map [simp]: "list_ex P (map f xs) = list_ex (P \<circ> f) xs"
  by (induction xs) auto

lemma find_Some_iff_first:
  "find P xs = Some x \<Longrightarrow> x \<in> set xs \<and> P x"
  by (induction xs) (auto split: if_splits)

section \<open>Transition systems\<close>

inductive reachable :: "('s \<Rightarrow> bool) \<Rightarrow> ('s \<Rightarrow> 's \<Rightarrow> bool) \<Rightarrow> 's \<Rightarrow> bool"
  for init :: "'s \<Rightarrow> bool" and step :: "'s \<Rightarrow> 's \<Rightarrow> bool"
where
  reachable_init: "init s \<Longrightarrow> reachable init step s"
| reachable_step: "reachable init step s \<Longrightarrow> step s s' \<Longrightarrow> reachable init step s'"

text \<open>A system and a predicate that holds at the start and that every step keeps.\<close>

locale invariant_system =
  fixes init :: "'s \<Rightarrow> bool" and step :: "'s \<Rightarrow> 's \<Rightarrow> bool" and inv :: "'s \<Rightarrow> bool"
  assumes init_inv: "init s \<Longrightarrow> inv s"
    and step_inv: "inv s \<Longrightarrow> step s s' \<Longrightarrow> inv s'"
begin

lemma reachable_inv: "reachable init step s \<Longrightarrow> inv s"
  by (induction rule: reachable.induct) (auto intro: init_inv step_inv)

lemma steps_inv: "step\<^sup>*\<^sup>* s s' \<Longrightarrow> inv s \<Longrightarrow> inv s'"
  by (induction rule: rtranclp_induct) (auto intro: step_inv)

lemma reachable_steps: "step\<^sup>*\<^sup>* s s' \<Longrightarrow> reachable init step s \<Longrightarrow> reachable init step s'"
  by (induction rule: rtranclp_induct) (auto intro: reachable_step)

end

end
