(* ===== verification/GoStd.thy ===== *)
theory GoStd
  imports Prelude
begin

text \<open>
  The parts of Go's standard library the program computes with: decimal numbers of \<open>strconv\<close> with
  their width checks, and the string functions of \<open>strings\<close>. A string is the list of its bytes.
\<close>

section \<open>Decimal numbers\<close>

definition digit_char :: "int \<Rightarrow> char" where "digit_char d = char_of (48 + nat d)"

definition digit_val :: "char \<Rightarrow> int" where "digit_val c = int (of_char c) - 48"

definition is_digit :: "char \<Rightarrow> bool" where
  "is_digit c \<longleftrightarrow> (48 :: nat) \<le> of_char c \<and> (of_char c :: nat) \<le> 57"

text \<open>The decimal digits of a number that is not negative.\<close>

function show_digits :: "int \<Rightarrow> string" where
  "show_digits n = (if n < 10 then [digit_char n] else show_digits (n div 10) @ [digit_char (n mod 10)])"
  by pat_completeness auto
termination
  by (relation "measure nat") auto

declare show_digits.simps [simp del]

definition read_digits :: "string \<Rightarrow> int" where
  "read_digits s = foldl (\<lambda>a c. 10 * a + digit_val c) 0 s"

text \<open>\<open>strconv.Itoa\<close> and \<open>strconv.FormatInt(_, 10)\<close>.\<close>

definition format_int :: "int \<Rightarrow> string" where
  "format_int i = (if i < 0 then CHR ''-'' # show_digits (- i) else show_digits i)"

text \<open>
  \<open>strconv.ParseInt(s, 10, 64)\<close> and \<open>strconv.Atoi\<close> on a 64-bit platform: an optional sign, at least
  one decimal digit and nothing else, in the range of \<open>int64\<close>. \<open>ParseUint\<close> takes no sign.
\<close>

definition int64_min :: int where "int64_min = - (2 ^ 63)"
definition int64_max :: int where "int64_max = 2 ^ 63 - 1"

definition in_int64 :: "int \<Rightarrow> bool" where "in_int64 i \<longleftrightarrow> int64_min \<le> i \<and> i \<le> int64_max"

definition parse_unsigned :: "string \<Rightarrow> int option" where
  "parse_unsigned s = (if s \<noteq> [] \<and> list_all is_digit s then Some (read_digits s) else None)"

definition parse_signed :: "string \<Rightarrow> int option" where
  "parse_signed s = (case s of
       [] \<Rightarrow> None
     | c # r \<Rightarrow> if c = CHR ''-'' then map_option uminus (parse_unsigned r)
               else if c = CHR ''+'' then parse_unsigned r
               else parse_unsigned s)"

definition parse_int64 :: "string \<Rightarrow> int option" where
  "parse_int64 s = (case parse_signed s of
       None \<Rightarrow> None | Some i \<Rightarrow> if in_int64 i then Some i else None)"

definition parse_uint64 :: "string \<Rightarrow> int option" where
  "parse_uint64 s = (case parse_unsigned s of
       None \<Rightarrow> None | Some n \<Rightarrow> if n < 2 ^ 64 then Some n else None)"

lemma digit_char_props [simp]:
  "0 \<le> d \<Longrightarrow> d < 10 \<Longrightarrow> is_digit (digit_char d)"
  "0 \<le> d \<Longrightarrow> d < 10 \<Longrightarrow> digit_val (digit_char d) = d"
  by (auto simp: is_digit_def digit_val_def digit_char_def)

lemma digit_not_sign: "is_digit c \<Longrightarrow> c \<noteq> CHR ''-'' \<and> c \<noteq> CHR ''+''"
  by (auto simp: is_digit_def)

lemma show_digits_nonempty [simp]: "show_digits n \<noteq> []"
  by (subst show_digits.simps) simp

lemma show_digits_digits: "0 \<le> n \<Longrightarrow> list_all is_digit (show_digits n)"
proof (induction n rule: show_digits.induct)
  case (1 n)
  then show ?case by (subst show_digits.simps) auto
qed

lemma read_show_digits [simp]: "0 \<le> n \<Longrightarrow> read_digits (show_digits n) = n"
proof (induction n rule: show_digits.induct)
  case (1 n)
  then show ?case by (subst show_digits.simps) (auto simp: read_digits_def)
qed

lemma parse_unsigned_show [simp]: "0 \<le> n \<Longrightarrow> parse_unsigned (show_digits n) = Some n"
  by (simp add: parse_unsigned_def show_digits_digits)

lemma show_digits_head: "0 \<le> n \<Longrightarrow> show_digits n = c # r \<Longrightarrow> is_digit c"
  using show_digits_digits [of n] by simp

lemma parse_signed_show: "0 \<le> n \<Longrightarrow> parse_signed (show_digits n) = Some n"
proof (cases "show_digits n")
  case (Cons c r)
  assume n: "0 \<le> n"
  with Cons have "c \<noteq> CHR ''-'' \<and> c \<noteq> CHR ''+''"
    using show_digits_head digit_not_sign by blast
  then show ?thesis
    using parse_unsigned_show [OF n] Cons by (simp add: parse_signed_def)
qed simp

lemma parse_signed_format [simp]: "parse_signed (format_int i) = Some i"
proof (cases "i < 0")
  case True
  then show ?thesis by (simp add: format_int_def parse_signed_def)
next
  case False
  then show ?thesis by (simp add: format_int_def parse_signed_show)
qed

lemma parse_format_int64: "in_int64 i \<Longrightarrow> parse_int64 (format_int i) = Some i"
  by (simp add: parse_int64_def)

lemma parse_uint_format: "0 \<le> n \<Longrightarrow> n < 2 ^ 64 \<Longrightarrow> parse_uint64 (format_int n) = Some n"
  by (simp add: parse_uint64_def format_int_def)

lemma parse_int64_range: "parse_int64 s = Some i \<Longrightarrow> in_int64 i"
  by (auto simp: parse_int64_def split: option.splits if_splits)

lemma format_int_nonempty [simp]: "format_int i \<noteq> []"
  by (simp add: format_int_def)

lemma format_int_inj: "format_int i = format_int j \<longleftrightarrow> i = j"
  by (metis option.inject parse_signed_format)

lemma format_int_chars: "c \<in> set (format_int i) \<Longrightarrow> is_digit c \<or> c = CHR ''-''"
  using show_digits_digits [of i] show_digits_digits [of "- i"]
  by (auto simp: format_int_def list_all_iff split: if_splits)

section \<open>Strings\<close>

definition is_space :: "char \<Rightarrow> bool" where
  "is_space c \<longleftrightarrow> (let n = of_char c :: nat in n = 32 \<or> (9 \<le> n \<and> n \<le> 13))"

text \<open>\<open>strings.TrimSpace\<close> and \<open>bytes.TrimSpace\<close> on ASCII white space.\<close>

definition trim_space :: "string \<Rightarrow> string" where
  "trim_space s = rev (dropWhile is_space (rev (dropWhile is_space s)))"

definition has_prefix :: "string \<Rightarrow> string \<Rightarrow> bool" where
  "has_prefix p s \<longleftrightarrow> take (length p) s = p"

definition has_suffix :: "string \<Rightarrow> string \<Rightarrow> bool" where
  "has_suffix p s \<longleftrightarrow> has_prefix (rev p) (rev s)"

definition trim_prefix :: "string \<Rightarrow> string \<Rightarrow> string" where
  "trim_prefix p s = (if has_prefix p s then drop (length p) s else s)"

definition trim_suffix :: "string \<Rightarrow> string \<Rightarrow> string" where
  "trim_suffix p s = (if has_suffix p s then take (length s - length p) s else s)"

fun contains_str :: "string \<Rightarrow> string \<Rightarrow> bool" where
  "contains_str p [] = (p = [])"
| "contains_str p (c # s) = (has_prefix p (c # s) \<or> contains_str p s)"

definition contains_any :: "string \<Rightarrow> string \<Rightarrow> bool" where
  "contains_any chars s \<longleftrightarrow> list_ex (\<lambda>c. c \<in> set chars) s"

text \<open>\<open>strings.Split\<close> at a one-byte separator: never empty, one part more than separators.\<close>

fun split_on :: "char \<Rightarrow> string \<Rightarrow> string list" where
  "split_on c [] = [[]]"
| "split_on c (x # s) = (if x = c then [] # split_on c s
     else (case split_on c s of [] \<Rightarrow> [[x]] | p # ps \<Rightarrow> (x # p) # ps))"

text \<open>\<open>strings.Cut\<close> at a one-byte separator.\<close>

fun cut_at :: "char \<Rightarrow> string \<Rightarrow> (string \<times> string) option" where
  "cut_at c [] = None"
| "cut_at c (x # s) = (if x = c then Some ([], s)
     else map_option (\<lambda>(a, b). (x # a, b)) (cut_at c s))"

definition lower_char :: "char \<Rightarrow> char" where
  "lower_char c = (let n = of_char c :: nat in if 65 \<le> n \<and> n \<le> 90 then char_of (n + 32) else c)"

definition to_lower :: "string \<Rightarrow> string" where "to_lower = map lower_char"

lemma split_on_nonempty [simp]: "split_on c s \<noteq> []"
  by (cases s) (auto split: list.splits)

lemma split_on_free: "c \<notin> set s \<Longrightarrow> split_on c s = [s]"
  by (induction s) auto

lemma split_on_append: "c \<notin> set s \<Longrightarrow> split_on c (s @ c # t) = s # split_on c t"
  by (induction s) auto

lemma split_intercalate:
  "ss \<noteq> [] \<Longrightarrow> \<forall>s \<in> set ss. c \<notin> set s \<Longrightarrow> split_on c (intercalate [c] ss) = ss"
  by (induction "[c]" ss rule: intercalate.induct) (auto simp: split_on_free split_on_append)

text \<open>Joining pieces that never hold the separator loses nothing.\<close>

lemma intercalate_inj:
  assumes "intercalate [c] xs = intercalate [c] ys"
    and "\<forall>s \<in> set xs. c \<notin> set s" and "\<forall>s \<in> set ys. c \<notin> set s"
    and "xs \<noteq> []" and "ys \<noteq> []"
  shows "xs = ys"
  using assms split_intercalate by metis

lemma has_prefix_append [simp]: "has_prefix p (p @ s)"
  by (simp add: has_prefix_def)

lemma has_prefix_iff: "has_prefix p s \<longleftrightarrow> (\<exists>r. s = p @ r)"
  by (metis append_take_drop_id has_prefix_append has_prefix_def)

lemma trim_prefix_append [simp]: "trim_prefix p (p @ s) = s"
  by (simp add: trim_prefix_def)

lemma has_suffix_append [simp]: "has_suffix p (s @ p)"
  by (simp add: has_suffix_def)

lemma trim_suffix_append [simp]: "trim_suffix p (s @ p) = s"
  by (simp add: trim_suffix_def)

lemma is_space_not_digit: "is_digit c \<Longrightarrow> \<not> is_space c"
  by (auto simp: is_digit_def is_space_def Let_def)

lemma dropWhile_hd_id: "s = [] \<or> \<not> P (hd s) \<Longrightarrow> dropWhile P s = s"
  by (cases s) auto

lemma trim_space_id:
  "s = [] \<or> (\<not> is_space (hd s) \<and> \<not> is_space (last s)) \<Longrightarrow> trim_space s = s"
  by (auto simp: trim_space_def dropWhile_hd_id hd_rev)

lemma trim_space_idem [simp]: "trim_space (trim_space s) = trim_space s"
proof (rule trim_space_id)
  let ?u = "dropWhile is_space s" and ?t = "trim_space s"
  show "?t = [] \<or> (\<not> is_space (hd ?t) \<and> \<not> is_space (last ?t))"
  proof (cases "?t = []")
    case False
    have t: "?t = rev (dropWhile is_space (rev ?u))" by (simp add: trim_space_def)
    with False have ne: "dropWhile is_space (rev ?u) \<noteq> []" by simp
    then have last: "\<not> is_space (last ?t)"
      using hd_dropWhile [OF ne] t by (simp add: last_rev)
    obtain w where w: "?u = ?t @ w"
      by (metis append_take_drop_id dropWhile_eq_drop rev_append rev_rev_ident t)
    with False have "hd ?u = hd ?t" and "?u \<noteq> []" by auto
    with last show ?thesis using hd_dropWhile [of is_space s] by auto
  qed simp
qed

end
