(* ===== verification/GoSha.thy ===== *)
theory GoSha
  imports GoStd "HOL-Library.Word"
begin

text \<open>
  The parts of Go's \<open>crypto/sha256\<close> and \<open>encoding/hex\<close> the identifiers of the program are built with:
  the SHA-256 function of FIPS 180-4 on byte strings, with its 32-bit words as \<open>32 word\<close>, and the
  lower-case hexadecimal text of a byte string.
\<close>

unbundle bit_operations_syntax

type_synonym w32 = "32 word"

definition sha_init :: "w32 list" where
  "sha_init = [
    1779033703, 3144134277, 1013904242, 2773480762, 1359893119, 2600822924, 528734635,
    1541459225]"

definition sha_k :: "w32 list" where
  "sha_k = [
    1116352408, 1899447441, 3049323471, 3921009573, 961987163, 1508970993, 2453635748,
    2870763221, 3624381080, 310598401, 607225278, 1426881987, 1925078388, 2162078206,
    2614888103, 3248222580, 3835390401, 4022224774, 264347078, 604807628, 770255983,
    1249150122, 1555081692, 1996064986, 2554220882, 2821834349, 2952996808, 3210313671,
    3336571891, 3584528711, 113926993, 338241895, 666307205, 773529912, 1294757372, 1396182291,
    1695183700, 1986661051, 2177026350, 2456956037, 2730485921, 2820302411, 3259730800,
    3345764771, 3516065817, 3600352804, 4094571909, 275423344, 430227734, 506948616, 659060556,
    883997877, 958139571, 1322822218, 1537002063, 1747873779, 1955562222, 2024104815,
    2227730452, 2361852424, 2428436474, 2756734187, 3204031479, 3329325298]"

definition rotr :: "nat \<Rightarrow> w32 \<Rightarrow> w32" where
  "rotr n x = drop_bit n x OR push_bit (32 - n) x"

definition big_sigma0 :: "w32 \<Rightarrow> w32" where "big_sigma0 x = rotr 2 x XOR rotr 13 x XOR rotr 22 x"
definition big_sigma1 :: "w32 \<Rightarrow> w32" where "big_sigma1 x = rotr 6 x XOR rotr 11 x XOR rotr 25 x"
definition small_sigma0 :: "w32 \<Rightarrow> w32" where "small_sigma0 x = rotr 7 x XOR rotr 18 x XOR drop_bit 3 x"
definition small_sigma1 :: "w32 \<Rightarrow> w32" where "small_sigma1 x = rotr 17 x XOR rotr 19 x XOR drop_bit 10 x"

definition sha_ch :: "w32 \<Rightarrow> w32 \<Rightarrow> w32 \<Rightarrow> w32" where
  "sha_ch x y z = (x AND y) XOR (NOT x AND z)"
definition sha_maj :: "w32 \<Rightarrow> w32 \<Rightarrow> w32 \<Rightarrow> w32" where
  "sha_maj x y z = (x AND y) XOR (x AND z) XOR (y AND z)"

text \<open>The message schedule, the latest word first: \<open>n\<close> more words after the sixteen of the block.\<close>

fun sha_schedule :: "nat \<Rightarrow> w32 list \<Rightarrow> w32 list" where
  "sha_schedule 0 ws = ws"
| "sha_schedule (Suc n) ws =
     sha_schedule n ((small_sigma1 (ws ! 1) + ws ! 6 + small_sigma0 (ws ! 14) + ws ! 15) # ws)"

fun sha_round :: "w32 list \<Rightarrow> w32 \<times> w32 \<Rightarrow> w32 list" where
  "sha_round [a, b, c, d, e, f, g, h] (k, w) =
     (let t1 = h + big_sigma1 e + sha_ch e f g + k + w;
          t2 = big_sigma0 a + sha_maj a b c
      in [t1 + t2, a, b, c, d + t1, e, f, g])"
| "sha_round st _ = st"

definition be_word :: "string \<Rightarrow> w32" where
  "be_word bs = foldl (\<lambda>a c. push_bit 8 a OR word_of_int (int (of_char c))) 0 bs"

definition sha_block :: "w32 list \<Rightarrow> string \<Rightarrow> w32 list" where
  "sha_block st bs =
     (let ws = map (\<lambda>i. be_word (take 4 (drop (4 * i) bs))) [0..<16];
          sched = rev (sha_schedule 48 (rev ws))
      in map2 (+) st (foldl sha_round st (zip sha_k sched)))"

definition be_bytes :: "nat \<Rightarrow> int \<Rightarrow> string" where
  "be_bytes w n = map (\<lambda>i. char_of (nat (n div 256 ^ (w - 1 - i) mod 256))) [0..<w]"

definition sha_pad :: "string \<Rightarrow> string" where
  "sha_pad m = m @ CHR 0x80 # replicate ((119 - length m mod 64) mod 64) (CHR 0x00)
     @ be_bytes 8 (8 * int (length m))"

definition sha256 :: "string \<Rightarrow> string" where
  "sha256 m = (let p = sha_pad m in
     concat (map (\<lambda>w. be_bytes 4 (uint w))
       (foldl (\<lambda>st i. sha_block st (take 64 (drop (64 * i) p))) sha_init [0..<length p div 64])))"

text \<open>A digest has 32 bytes.\<close>

lemma length_sha_round: "length st = 8 \<Longrightarrow> length (sha_round st kw) = 8"
  by (cases "(st, kw)" rule: sha_round.cases) (auto simp: Let_def)

lemma length_sha_block: "length st = 8 \<Longrightarrow> length (sha_block st bs) = 8"
proof -
  have "length (foldl sha_round st kws) = 8" if "length st = 8" for kws
    using that by (induction kws arbitrary: st) (simp_all add: length_sha_round)
  then show "length st = 8 \<Longrightarrow> length (sha_block st bs) = 8" by (simp add: sha_block_def Let_def)
qed

lemma length_be_bytes [simp]: "length (be_bytes w n) = w"
  by (simp add: be_bytes_def)

lemma length_sha256 [simp]: "length (sha256 m) = 32"
proof -
  have "length (foldl (\<lambda>st i. sha_block st (f i)) st is) = 8" if "length st = 8" for f st and "is" :: "nat list"
    using that by (induction "is" arbitrary: st) (simp_all add: length_sha_block)
  moreover have "length sha_init = 8" by (simp add: sha_init_def)
  moreover have "length (concat (map (\<lambda>w. be_bytes 4 (uint w)) ws)) = 4 * length ws" for ws :: "w32 list"
    by (induction ws) simp_all
  ultimately show ?thesis by (simp add: sha256_def Let_def)
qed

definition hex_digit :: "nat \<Rightarrow> char" where
  "hex_digit d = char_of (if d < 10 then 48 + d else 87 + d)"

text \<open>\<open>hex.EncodeToString\<close>.\<close>

definition hex_encode :: "string \<Rightarrow> string" where
  "hex_encode s = concat (map (\<lambda>c. let n = of_char c :: nat in [hex_digit (n div 16), hex_digit (n mod 16)]) s)"

lemma hex_digit_inj: "d < 16 \<Longrightarrow> e < 16 \<Longrightarrow> hex_digit d = hex_digit e \<longleftrightarrow> d = e"
  by (auto simp: hex_digit_def split: if_splits)

lemma hex_encode_inj: "hex_encode s = hex_encode t \<longleftrightarrow> s = t"
proof (induction s arbitrary: t)
  case Nil
  show ?case by (cases t) (auto simp: hex_encode_def Let_def)
next
  case (Cons c s)
  show ?case
  proof (cases t)
    case Nil
    then show ?thesis by (simp add: hex_encode_def Let_def)
  next
    case (Cons d u)
    let ?m = "of_char c :: nat" and ?n = "of_char d :: nat"
    have b: "?m < 256" "?n < 256" by simp_all
    have "hex_encode (c # s) = hex_encode (d # u) \<longleftrightarrow>
        ?m div 16 = ?n div 16 \<and> ?m mod 16 = ?n mod 16 \<and> hex_encode s = hex_encode u"
      using b by (auto simp: hex_encode_def Let_def hex_digit_inj less_mult_imp_div_less)
    also have "\<dots> \<longleftrightarrow> ?m = ?n \<and> s = u"
      using Cons.IH by (metis div_mult_mod_eq)
    finally show ?thesis using Cons by simp
  qed
qed

lemma length_hex_encode [simp]: "length (hex_encode s) = 2 * length s"
  by (induction s) (simp_all add: hex_encode_def Let_def)

text \<open>\<open>hex.DecodeString\<close>: an even number of hexadecimal digits of either case.\<close>

definition from_hex :: "char \<Rightarrow> nat option" where
  "from_hex c = (let n = of_char c :: nat in
     if 48 \<le> n \<and> n \<le> 57 then Some (n - 48)
     else if 97 \<le> n \<and> n \<le> 102 then Some (n - 87)
     else if 65 \<le> n \<and> n \<le> 70 then Some (n - 55) else None)"

fun hex_decode :: "string \<Rightarrow> string option" where
  "hex_decode [] = Some []"
| "hex_decode [c] = None"
| "hex_decode (c # d # s) = (case (from_hex c, from_hex d) of
     (Some h, Some l) \<Rightarrow> map_option (\<lambda>r. char_of (16 * h + l) # r) (hex_decode s)
   | _ \<Rightarrow> None)"

lemma from_hex_digit: "d < 16 \<Longrightarrow> from_hex (hex_digit d) = Some d"
  by (auto simp: from_hex_def hex_digit_def Let_def)

lemma hex_decode_encode [simp]: "hex_decode (hex_encode s) = Some s"
proof (induction s)
  case (Cons c s)
  have "from_hex (hex_digit (of_char c div 16)) = Some (of_char c div 16)"
    "from_hex (hex_digit (of_char c mod 16)) = Some (of_char c mod 16)"
    by (simp_all add: from_hex_digit less_mult_imp_div_less)
  moreover have "char_of (16 * (of_char c div 16) + of_char c mod 16 :: nat) = c" by simp
  ultimately show ?case using Cons by (simp add: hex_encode_def Let_def)
qed (simp add: hex_encode_def)

text \<open>\<open>crypto/hmac\<close> over SHA-256 (RFC 2104, blocks of 64 bytes).\<close>

definition xor_byte :: "nat \<Rightarrow> char \<Rightarrow> char" where
  "xor_byte p c = char_of (p XOR of_char c)"

definition hmac_key :: "string \<Rightarrow> string" where
  "hmac_key k = (let k = (if 64 < length k then sha256 k else k)
     in k @ replicate (64 - length k) (CHR 0x00))"

definition hmac_sha256 :: "string \<Rightarrow> string \<Rightarrow> string" where
  "hmac_sha256 key msg = (let k = hmac_key key in
     sha256 (map (xor_byte 92) k @ sha256 (map (xor_byte 54) k @ msg)))"

end
