(* ===== verification/GoTime.thy ===== *)
theory GoTime
  imports GoStd
begin

text \<open>
  \<open>time.Time.Format\<close> and \<open>time.Parse\<close> for the one layout the program uses, \<open>time.RFC3339Nano\<close>
  (\<open>2006-01-02T15:04:05.999999999Z07:00\<close>): the proleptic Gregorian calendar, the fraction with its
  trailing zeros removed, and the parser's leniencies (a one-digit hour, a comma before the
  fraction, offsets up to 24:60). Instants are formatted in UTC.
\<close>

section \<open>Calendar\<close>

definition leap :: "int \<Rightarrow> bool" where
  "leap y \<longleftrightarrow> y mod 4 = 0 \<and> (y mod 100 \<noteq> 0 \<or> y mod 400 = 0)"

definition days_in_year :: "int \<Rightarrow> int" where "days_in_year y = (if leap y then 366 else 365)"

definition days_before_year :: "int \<Rightarrow> int" where
  "days_before_year y =
     365 * (y - 1) + (y - 1) div 4 - (y - 1) div 100 + (y - 1) div 400"

definition days_in_month :: "bool \<Rightarrow> nat \<Rightarrow> int" where
  "days_in_month lp m = (if m = 2 then (if lp then 29 else 28)
     else if m = 4 \<or> m = 6 \<or> m = 9 \<or> m = 11 then 30 else 31)"

fun days_before_month :: "bool \<Rightarrow> nat \<Rightarrow> int" where
  "days_before_month lp 0 = 0"
| "days_before_month lp (Suc m) = (if m = 0 then 0 else days_before_month lp m + days_in_month lp m)"

definition days_of_civil :: "int \<Rightarrow> nat \<Rightarrow> int \<Rightarrow> int" where
  "days_of_civil y m d = days_before_year y + days_before_month (leap y) m + d - 1"

lemma days_in_year_pos: "0 < days_in_year y"
  by (simp add: days_in_year_def)

lemma days_in_month_pos: "0 < days_in_month lp m"
  by (simp add: days_in_month_def)

lemma days_before_month_Suc_le: "days_before_month lp m \<le> days_before_month lp (Suc m)"
  using days_in_month_pos [of lp m] by (cases m) simp_all

lemma days_before_month_mono: "m \<le> n \<Longrightarrow> days_before_month lp m \<le> days_before_month lp n"
  by (rule lift_Suc_mono_le [of "days_before_month lp"]) (rule days_before_month_Suc_le)

lemma days_before_month_nonneg: "0 \<le> days_before_month lp m"
  using days_before_month_mono [of 0 m lp] by simp

text \<open>The year and the day in it, counted on from year \<open>y\<close>; the month and the day in it.\<close>

function year_from :: "int \<Rightarrow> int \<Rightarrow> int \<times> int" where
  "year_from y d = (if d < days_in_year y then (y, d) else year_from (y + 1) (d - days_in_year y))"
  by pat_completeness auto
termination
  by (relation "measure (\<lambda>(y, d). nat d)") (auto simp: days_in_year_def split: if_splits)

declare year_from.simps [simp del]

function month_from :: "bool \<Rightarrow> nat \<Rightarrow> int \<Rightarrow> nat \<times> int" where
  "month_from lp m d = (if 12 \<le> m \<or> d < days_in_month lp m then (m, d + 1)
     else month_from lp (Suc m) (d - days_in_month lp m))"
  by pat_completeness auto
termination
  by (relation "measure (\<lambda>(lp, m, d). 12 - m)") auto

declare month_from.simps [simp del]

definition days_per_cycle :: int where "days_per_cycle = 146097"

definition civil_of_days :: "int \<Rightarrow> int \<times> nat \<times> int" where
  "civil_of_days n = (let (y, d) = year_from 1 (n mod days_per_cycle);
       year = 400 * (n div days_per_cycle) + y; (m, dd) = month_from (leap year) 1 d
     in (year, m, dd))"

lemma mod_cycle: "(k * n * q + y) mod n = y mod n" for k n q y :: int
  using mod_mult_self2 [of y n "k * q"] by (simp add: algebra_simps)

lemma div_cycle: "n \<noteq> 0 \<Longrightarrow> (k * n * q + y) div n = k * q + y div n" for k n q y :: int
  using div_mult_self2 [of n y "k * q"] by (simp add: algebra_simps)

lemma int_div_Suc:
  fixes k n :: int
  assumes "1 < n"
  shows "k div n = (k - 1) div n + (if k mod n = 0 then 1 else 0)"
proof (cases "k mod n = 0")
  case True
  then obtain q where "k = n * q" by auto
  with assms have "(k - 1) div n = q - 1"
    by (intro int_div_pos_eq [where r = "n - 1"]) (auto simp: algebra_simps)
  with True \<open>k = n * q\<close> assms show ?thesis by simp
next
  case False
  have "k - 1 = n * (k div n) + (k mod n - 1)" using div_mult_mod_eq [of k n] by (simp add: algebra_simps)
  moreover have "0 \<le> k mod n" and "k mod n < n"
    using assms by (simp_all add: pos_mod_sign pos_mod_bound)
  with False have "0 \<le> k mod n - 1" and "k mod n - 1 < n" by linarith+
  ultimately have "(k - 1) div n = k div n" by (intro int_div_pos_eq) auto
  with False show ?thesis by simp
qed

lemma leap_cycle [simp]: "leap (400 * q + y) = leap y"
  using mod_cycle [of 100 4 q y] mod_cycle [of 4 100 q y] mod_cycle [of 1 400 q y]
  by (simp add: leap_def)

lemma days_before_year_cycle: "days_before_year (400 * q + y) = days_per_cycle * q + days_before_year y"
  using div_cycle [of 4 100 q "y - 1"] div_cycle [of 100 4 q "y - 1"] div_cycle [of 400 1 q "y - 1"]
  by (simp add: days_before_year_def days_per_cycle_def algebra_simps)

lemma dvd_leap: "y mod 400 = 0 \<Longrightarrow> y mod 100 = 0" "y mod 100 = 0 \<Longrightarrow> y mod 4 = 0" for y :: int
proof -
  show "y mod 100 = 0" if "y mod 400 = 0"
    using that by (meson dvd_eq_mod_eq_0 dvd_trans [of 100 400 y, simplified])
  show "y mod 4 = 0" if "y mod 100 = 0"
    using that by (meson dvd_eq_mod_eq_0 dvd_trans [of 4 100 y, simplified])
qed

lemma days_before_year_Suc: "days_before_year (y + 1) = days_before_year y + days_in_year y"
proof -
  have b: "days_before_year (y + 1) = 365 * y + y div 4 - y div 100 + y div 400"
    by (simp add: days_before_year_def)
  have d: "days_in_year y = 365 + (if y mod 4 = 0 then 1 else 0)
      - (if y mod 100 = 0 then 1 else 0) + (if y mod 400 = 0 then 1 else 0)"
  proof -
    define p q r where "p \<longleftrightarrow> y mod 4 = 0" and "q \<longleftrightarrow> y mod 100 = 0" and "r \<longleftrightarrow> y mod 400 = 0"
    then have "r \<longrightarrow> q" using dvd_leap(1) [of y] by simp
    moreover have "q \<longrightarrow> p" using p_def q_def dvd_leap(2) [of y] by simp
    moreover have "days_in_year y = (if p \<and> (\<not> q \<or> r) then 366 else 365)"
      unfolding days_in_year_def leap_def p_def q_def r_def by (rule refl)
    ultimately show ?thesis unfolding p_def [symmetric] q_def [symmetric] r_def [symmetric]
      by (cases p; cases q; cases r) simp_all
  qed
  have add: "365 * y + (a + i) - (b + j) + (c + k) =
      365 * (y - 1) + a - b + c + (365 + i - j + k)" for a b c i j k :: int
    by (simp add: algebra_simps)
  have steps: "y div 4 = (y - 1) div 4 + (if y mod 4 = 0 then 1 else 0)"
    "y div 100 = (y - 1) div 100 + (if y mod 100 = 0 then 1 else 0)"
    "y div 400 = (y - 1) div 400 + (if y mod 400 = 0 then 1 else 0)"
    by (rule int_div_Suc, simp)+
  show ?thesis
    unfolding b d unfolding days_before_year_def steps by (rule add)
qed

lemma year_from_correct:
  "year_from y d = (y', r) \<Longrightarrow> 0 \<le> d \<Longrightarrow>
     0 \<le> r \<and> r < days_in_year y' \<and> days_before_year y' + r = days_before_year y + d"
proof (induction y d rule: year_from.induct)
  case (1 y d)
  show ?case
  proof (cases "d < days_in_year y")
    case True
    with "1.prems" show ?thesis by (auto simp: year_from.simps [of y d])
  next
    case False
    with "1.prems" have "year_from (y + 1) (d - days_in_year y) = (y', r)"
      by (simp add: year_from.simps [of y d])
    with "1.IH" False "1.prems"(2) show ?thesis by (auto simp: days_before_year_Suc)
  qed
qed

lemma month_from_correct:
  "month_from lp m d = (m', dd) \<Longrightarrow> 1 \<le> m \<Longrightarrow> m \<le> 12 \<Longrightarrow> 0 \<le> d \<Longrightarrow>
     days_before_month lp m + d < days_before_month lp 13 \<Longrightarrow>
     1 \<le> m' \<and> m' \<le> 12 \<and> 1 \<le> dd \<and> dd \<le> days_in_month lp m' \<and>
     days_before_month lp m' + dd = days_before_month lp m + d + 1"
proof (induction lp m d rule: month_from.induct)
  case (1 lp m d)
  show ?case
  proof (cases "12 \<le> m \<or> d < days_in_month lp m")
    case True
    have "m = 12 \<Longrightarrow> d < days_in_month lp 12"
      using "1.prems"(5) by (simp add: numeral_eq_Suc)
    with True "1.prems" show ?thesis by (auto simp: month_from.simps [of lp m d])
  next
    case False
    with "1.prems" have "month_from lp (Suc m) (d - days_in_month lp m) = (m', dd)"
      by (simp add: month_from.simps [of lp m d])
    with "1.IH" False "1.prems" show ?thesis by auto
  qed
qed

lemma days_in_year_months: "days_in_year y = days_before_month (leap y) 13"
  by (simp add: days_in_year_def numeral_eq_Suc days_in_month_def)

lemma civil_of_days_correct:
  assumes "civil_of_days n = (y, m, d)"
  shows "days_of_civil y m d = n" and "1 \<le> m" and "m \<le> 12" and "1 \<le> d"
    and "d \<le> days_in_month (leap y) m"
proof -
  obtain y0 r where yr: "year_from 1 (n mod days_per_cycle) = (y0, r)" by fastforce
  with assms have y: "y = 400 * (n div days_per_cycle) + y0" and lp: "leap y = leap y0"
    and md: "month_from (leap y) 1 r = (m, d)"
    by (auto simp: civil_of_days_def Let_def split: prod.splits)
  have nn: "0 \<le> n mod days_per_cycle" by (simp add: days_per_cycle_def)
  from year_from_correct [OF yr] nn
  have r: "0 \<le> r" "r < days_in_year y0" and e: "days_before_year y0 + r = n mod days_per_cycle"
    by (auto simp: days_before_year_def)
  from month_from_correct [OF md] r lp
  have m: "1 \<le> m \<and> m \<le> 12 \<and> 1 \<le> d \<and> d \<le> days_in_month (leap y) m \<and>
      days_before_month (leap y) m + d = r + 1"
    by (simp add: days_in_year_months)
  then have "days_of_civil y m d = days_before_year y + r"
    by (simp add: days_of_civil_def)
  also have "\<dots> = n"
  proof -
    have "days_per_cycle * (n div days_per_cycle) + n mod days_per_cycle = n" by simp
    with e show ?thesis unfolding y days_before_year_cycle by linarith
  qed
  finally show "days_of_civil y m d = n" .
  from m show "1 \<le> m" and "m \<le> 12" and "1 \<le> d" and "d \<le> days_in_month (leap y) m" by auto
qed

section \<open>Fixed-width numbers\<close>

primrec pad :: "nat \<Rightarrow> int \<Rightarrow> string" where
  "pad 0 n = []"
| "pad (Suc w) n = pad w (n div 10) @ [digit_char (n mod 10)]"

lemma length_pad [simp]: "length (pad w n) = w"
  by (induction w arbitrary: n) auto

lemma pad_digits: "list_all is_digit (pad w n)"
  by (induction w arbitrary: n) auto

lemma read_pad [simp]: "0 \<le> n \<Longrightarrow> n < 10 ^ w \<Longrightarrow> read_digits (pad w n) = n"
proof (induction w arbitrary: n)
  case (Suc w)
  then have "n div 10 < 10 ^ w" and "0 \<le> n div 10" by (auto simp: less_mult_imp_div_less)
  with Suc.IH show ?case by (simp add: read_digits_def)
qed (simp add: read_digits_def)

text \<open>\<open>w\<close> digits exactly; one or two digits (the parser's reading of an hour).\<close>

definition get_digits :: "nat \<Rightarrow> string \<Rightarrow> (int \<times> string) option" where
  "get_digits w s = (if w \<le> length s \<and> list_all is_digit (take w s)
     then Some (read_digits (take w s), drop w s) else None)"

definition get_hour :: "string \<Rightarrow> (int \<times> string) option" where
  "get_hour s = (case get_digits 2 s of Some r \<Rightarrow> Some r | None \<Rightarrow> get_digits 1 s)"

fun get_lit :: "char \<Rightarrow> string \<Rightarrow> string option" where
  "get_lit c (x # s) = (if x = c then Some s else None)"
| "get_lit c [] = None"

lemma get_digits_pad [simp]: "0 \<le> n \<Longrightarrow> n < 10 ^ w \<Longrightarrow> get_digits w (pad w n @ s) = Some (n, s)"
  by (simp add: get_digits_def pad_digits)

lemma get_hour_pad [simp]: "0 \<le> n \<Longrightarrow> n < 100 \<Longrightarrow> get_hour (pad 2 n @ s) = Some (n, s)"
  by (simp add: get_hour_def del: pad.simps)

text \<open>The fraction: nine digits without their trailing zeros, nothing when it is zero.\<close>

definition strip_zeros :: "string \<Rightarrow> string" where
  "strip_zeros s = rev (dropWhile (\<lambda>c. c = CHR ''0'') (rev s))"

definition format_frac :: "int \<Rightarrow> string" where
  "format_frac ns = (if ns = 0 then [] else CHR ''.'' # strip_zeros (pad 9 ns))"

definition read_frac :: "string \<Rightarrow> int" where
  "read_frac ds = read_digits (take 9 (ds @ replicate 9 (CHR ''0'')))"

definition get_frac :: "string \<Rightarrow> int \<times> string" where
  "get_frac s = (case s of
       c # d # r \<Rightarrow> if (c = CHR ''.'' \<or> c = CHR '','') \<and> is_digit d
         then (read_frac (takeWhile is_digit (d # r)), dropWhile is_digit (d # r)) else (0, s)
     | _ \<Rightarrow> (0, s))"

lemma strip_zeros_split: "\<exists>k. s = strip_zeros s @ replicate k (CHR ''0'')"
proof -
  let ?z = "takeWhile (\<lambda>c. c = CHR ''0'') (rev s)"
  have "\<forall>y \<in> set ?z. y = CHR ''0''" by (auto dest: set_takeWhileD)
  then have z: "replicate (length ?z) (CHR ''0'') = ?z" by (rule replicate_length_same)
  have "rev s = ?z @ dropWhile (\<lambda>c. c = CHR ''0'') (rev s)" by simp
  then have "s = strip_zeros s @ rev ?z"
    unfolding strip_zeros_def by (metis rev_append rev_rev_ident)
  then show ?thesis using z by (metis rev_replicate)
qed

lemma read_frac_strip:
  assumes "0 \<le> ns" and "ns < 10 ^ 9"
  shows "read_frac (strip_zeros (pad 9 ns)) = ns"
proof -
  obtain k where k: "pad 9 ns = strip_zeros (pad 9 ns) @ replicate k (CHR ''0'')"
    using strip_zeros_split by blast
  have "length (strip_zeros (pad 9 ns)) + k = 9"
    by (metis k length_append length_pad length_replicate)
  then have "take 9 (strip_zeros (pad 9 ns) @ replicate 9 (CHR ''0'')) =
      strip_zeros (pad 9 ns) @ replicate k (CHR ''0'')"
    by (auto simp del: pad.simps replicate.simps)
  then have "take 9 (strip_zeros (pad 9 ns) @ replicate 9 (CHR ''0'')) = pad 9 ns"
    using k by metis
  with assms show ?thesis by (simp add: read_frac_def del: pad.simps)
qed

lemma strip_zeros_Nil_read: "strip_zeros (pad w n) = [] \<Longrightarrow> 0 \<le> n \<Longrightarrow> n < 10 ^ w \<Longrightarrow> n = 0"
proof -
  assume nil: "strip_zeros (pad w n) = []" and n: "0 \<le> n" "n < 10 ^ w"
  obtain k where "pad w n = replicate k (CHR ''0'')"
    using strip_zeros_split [of "pad w n"] nil by auto
  moreover have "read_digits (replicate k (CHR ''0'')) = 0"
    by (induction k) (auto simp: read_digits_def digit_val_def)
  ultimately show "n = 0" using read_pad [OF n] by simp
qed

lemma strip_zeros_digits: "list_all is_digit s \<Longrightarrow> list_all is_digit (strip_zeros s)"
  by (auto simp: strip_zeros_def list_all_iff dest: set_dropWhileD)

lemma get_frac_format:
  assumes "0 \<le> ns" "ns < 10 ^ 9" and "c = CHR ''Z'' \<or> c = CHR ''+'' \<or> c = CHR ''-''"
  shows "get_frac (format_frac ns @ c # r) = (ns, c # r)"
proof (cases "ns = 0")
  case True
  with assms(3) show ?thesis by (cases r) (auto simp: format_frac_def get_frac_def)
next
  case False
  let ?ds = "strip_zeros (pad 9 ns)"
  from False assms have "?ds \<noteq> []" using strip_zeros_Nil_read by blast
  then obtain d ds where d: "?ds = d # ds" by (cases ?ds) auto
  have all: "list_all is_digit ?ds" by (intro strip_zeros_digits pad_digits)
  have c: "\<not> is_digit c" using assms(3) by (auto simp: is_digit_def)
  have "takeWhile is_digit (?ds @ c # r) = ?ds" and "dropWhile is_digit (?ds @ c # r) = c # r"
    using all c by (auto simp: list_all_iff takeWhile_append dropWhile_append)
  then show ?thesis
    using False all d read_frac_strip [OF assms(1,2)]
    by (simp add: format_frac_def get_frac_def del: pad.simps)
qed

section \<open>RFC 3339\<close>

definition format_year :: "int \<Rightarrow> string" where
  "format_year y = (if y < 0 then CHR ''-'' # pad 4 (- y)
     else if y \<le> 9999 then pad 4 y else show_digits y)"

definition ns_per_day :: int where "ns_per_day = 86400000000000"

text \<open>\<open>t.UTC().Format(time.RFC3339Nano)\<close>\<close>

definition format_rfc3339 :: "gtime \<Rightarrow> string" where
  "format_rfc3339 t = (let (y, m, d) = civil_of_days (t div ns_per_day);
       n = t mod ns_per_day; s = n div 1000000000
     in format_year y @ ''-'' @ pad 2 (int m) @ ''-'' @ pad 2 d @ ''T'' @ pad 2 (s div 3600) @ '':'' @
        pad 2 (s mod 3600 div 60) @ '':'' @ pad 2 (s mod 60) @ format_frac (n mod 1000000000) @ ''Z'')"

text \<open>The zone: \<open>Z\<close>, or a sign, two digits, a colon and two digits, as seconds east of UTC.\<close>

definition get_zone :: "string \<Rightarrow> (int \<times> string) option" where
  "get_zone s = (case s of
       [] \<Rightarrow> None
     | c # r \<Rightarrow> if c = CHR ''Z'' then Some (0, r)
         else if c = CHR ''+'' \<or> c = CHR ''-'' then
           Option.bind (get_digits 2 r) (\<lambda>(h, r). Option.bind (get_lit (CHR '':'') r) (\<lambda>r.
           Option.bind (get_digits 2 r) (\<lambda>(m, r).
             if h \<le> 24 \<and> m \<le> 60
             then Some ((if c = CHR ''-'' then -1 else 1) * (3600 * h + 60 * m), r)
             else None)))
         else None)"

text \<open>\<open>time.Parse(time.RFC3339Nano, s)\<close>, as the instant\<close>

definition parse_rfc3339 :: "string \<Rightarrow> gtime option" where
  "parse_rfc3339 s =
     Option.bind (get_digits 4 s) (\<lambda>(y, s). Option.bind (get_lit (CHR ''-'') s) (\<lambda>s.
     Option.bind (get_digits 2 s) (\<lambda>(m, s). Option.bind (get_lit (CHR ''-'') s) (\<lambda>s.
     Option.bind (get_digits 2 s) (\<lambda>(d, s). Option.bind (get_lit (CHR ''T'') s) (\<lambda>s.
     Option.bind (get_hour s) (\<lambda>(hh, s). Option.bind (get_lit (CHR '':'') s) (\<lambda>s.
     Option.bind (get_digits 2 s) (\<lambda>(mi, s). Option.bind (get_lit (CHR '':'') s) (\<lambda>s.
     Option.bind (get_digits 2 s) (\<lambda>(se, s).
       let (ns, s) = get_frac s in
       Option.bind (get_zone s) (\<lambda>(off, rest).
         if rest = [] \<and> 1 \<le> m \<and> m \<le> 12 \<and> 1 \<le> d \<and> d \<le> days_in_month (leap y) (nat m) \<and>
            hh < 24 \<and> mi < 60 \<and> se < 60
         then Some (days_of_civil y (nat m) d * ns_per_day +
           (3600 * hh + 60 * mi + se - off) * 1000000000 + ns)
         else None))))))))))))"

text \<open>The instants whose year has four digits, the ones RFC 3339 can write.\<close>

definition rfc3339_range :: "gtime \<Rightarrow> bool" where
  "rfc3339_range t \<longleftrightarrow>
     days_before_year 0 * ns_per_day \<le> t \<and> t < days_before_year 10000 * ns_per_day"

lemma days_before_year_mono: "y \<le> y' \<Longrightarrow> days_before_year y \<le> days_before_year y'"
proof (induction "nat (y' - y)" arbitrary: y')
  case (Suc k)
  then have "days_before_year y \<le> days_before_year (y' - 1)" by simp
  then show ?case
    using days_before_year_Suc [of "y' - 1"] days_in_year_pos [of "y' - 1"] by simp
qed simp

lemma civil_year_range:
  assumes "civil_of_days n = (y, m, d)"
    and "days_before_year 0 \<le> n" and "n < days_before_year 10000"
  shows "0 \<le> y" and "y \<le> 9999"
proof -
  note c = civil_of_days_correct [OF assms(1)]
  have lo: "days_before_year y \<le> n"
    using c(1,4) days_before_month_nonneg [of "leap y" m] by (simp add: days_of_civil_def)
  have "days_before_month (leap y) m + d \<le> days_before_month (leap y) (Suc m)"
    using c by simp
  moreover have "days_before_month (leap y) (Suc m) \<le> days_before_month (leap y) 13"
    using c(3) by (intro days_before_month_mono) simp
  ultimately have "days_before_month (leap y) m + d \<le> days_in_year y"
    by (simp add: days_in_year_months)
  then have hi: "n < days_before_year (y + 1)"
    using c(1) by (simp add: days_of_civil_def days_before_year_Suc)
  show "0 \<le> y"
  proof (rule ccontr)
    assume "\<not> 0 \<le> y"
    then have "days_before_year (y + 1) \<le> days_before_year 0" by (intro days_before_year_mono) simp
    with hi assms(2) show False by simp
  qed
  show "y \<le> 9999"
  proof (rule ccontr)
    assume "\<not> y \<le> 9999"
    then have "days_before_year 10000 \<le> days_before_year y" by (intro days_before_year_mono) simp
    with lo assms(3) show False by simp
  qed
qed

lemma day_range:
  "rfc3339_range t \<Longrightarrow> days_before_year 0 \<le> t div ns_per_day \<and> t div ns_per_day < days_before_year 10000"
  by (auto simp: rfc3339_range_def ns_per_day_def days_before_year_def)

lemma parse_format_rfc3339:
  assumes "rfc3339_range t"
  shows "parse_rfc3339 (format_rfc3339 t) = Some t"
proof -
  obtain y m d where c: "civil_of_days (t div ns_per_day) = (y, m, d)" by (metis prod_cases3)
  note cc = civil_of_days_correct [OF c]
  have y: "0 \<le> y" "y \<le> 9999" using civil_year_range [OF c] day_range [OF assms] by auto
  define n where "n = t mod ns_per_day"
  have n: "0 \<le> n" "n < 86400000000000" and tn: "t = (t div ns_per_day) * ns_per_day + n"
    by (auto simp: n_def ns_per_day_def)
  define s where "s = n div 1000000000"
  have s: "0 \<le> s" "s < 86400" using n by (auto simp: s_def)
  have md: "0 \<le> int m" "int m < 10 ^ 2" "0 \<le> d" "d < 10 ^ 2"
    using cc(3,4,5) by (auto simp: days_in_month_def split: if_splits)
  have sd: "0 \<le> s div 3600" "s div 3600 < 100" "s div 3600 < 24" "0 \<le> s mod 3600 div 60"
    "s mod 3600 div 60 < 10 ^ 2" "s mod 3600 div 60 < 60" "0 \<le> s mod 60" "s mod 60 < 10 ^ 2"
    "s mod 60 < 60" using s by auto
  have "s mod 3600 mod 60 = s mod 60" by (simp add: mod_mod_cancel)
  moreover have "3600 * (s div 3600) + s mod 3600 = s"
    and "60 * (s mod 3600 div 60) + s mod 3600 mod 60 = s mod 3600" by simp_all
  ultimately have secs: "3600 * (s div 3600) + 60 * (s mod 3600 div 60) + s mod 60 = s" by linarith
  have nn: "n = s * 1000000000 + n mod 1000000000" by (simp add: s_def)
  have f: "0 \<le> n mod 1000000000" "n mod 1000000000 < 10 ^ 9" by simp_all
  have fmt: "format_rfc3339 t = pad 4 y @ CHR ''-'' # pad 2 (int m) @ CHR ''-'' # pad 2 d @ CHR ''T'' #
      pad 2 (s div 3600) @ CHR '':'' # pad 2 (s mod 3600 div 60) @ CHR '':'' # pad 2 (s mod 60) @
      format_frac (n mod 1000000000) @ CHR ''Z'' # []"
    using c y by (simp add: format_rfc3339_def format_year_def Let_def del: pad.simps flip: n_def s_def)
  have get: "get_digits 4 (pad 4 y @ r) = Some (y, r)"
    "get_digits 2 (pad 2 (int m) @ r) = Some (int m, r)" "get_digits 2 (pad 2 d @ r) = Some (d, r)"
    "get_hour (pad 2 (s div 3600) @ r) = Some (s div 3600, r)"
    "get_digits 2 (pad 2 (s mod 3600 div 60) @ r) = Some (s mod 3600 div 60, r)"
    "get_digits 2 (pad 2 (s mod 60) @ r) = Some (s mod 60, r)"
    "get_frac (format_frac (n mod 1000000000) @ [CHR ''Z'']) = (n mod 1000000000, [CHR ''Z''])" for r
  proof -
    have y4: "y < 10 ^ 4" using y by simp
    show "get_digits 4 (pad 4 y @ r) = Some (y, r)" by (rule get_digits_pad [OF y(1) y4])
    show "get_digits 2 (pad 2 (int m) @ r) = Some (int m, r)" by (rule get_digits_pad [OF md(1,2)])
    show "get_digits 2 (pad 2 d @ r) = Some (d, r)" by (rule get_digits_pad [OF md(3,4)])
    show "get_hour (pad 2 (s div 3600) @ r) = Some (s div 3600, r)" by (rule get_hour_pad [OF sd(1,2)])
    show "get_digits 2 (pad 2 (s mod 3600 div 60) @ r) = Some (s mod 3600 div 60, r)"
      by (rule get_digits_pad [OF sd(4,5)])
    show "get_digits 2 (pad 2 (s mod 60) @ r) = Some (s mod 60, r)"
      by (rule get_digits_pad [OF sd(7,8)])
    show "get_frac (format_frac (n mod 1000000000) @ [CHR ''Z'']) = (n mod 1000000000, [CHR ''Z''])"
      by (rule get_frac_format [OF f]) simp
  qed
  have zone: "get_zone [CHR ''Z''] = Some (0, [])" by (simp add: get_zone_def)
  have parts: "1 \<le> int m" "int m \<le> 12" "1 \<le> d" "d \<le> days_in_month (leap y) (nat (int m))"
    using cc by auto
  have "parse_rfc3339 (format_rfc3339 t) = Some (days_of_civil y m d * ns_per_day +
      (3600 * (s div 3600) + 60 * (s mod 3600 div 60) + s mod 60 - 0) * 1000000000 + n mod 1000000000)"
    unfolding parse_rfc3339_def fmt
    by (simp only: get zone parts cc(5) sd bind.bind_lunit get_lit.simps prod.case Let_def nat_int if_True simp_thms)
  also have "\<dots> = Some t"
    unfolding secs using cc(1) tn nn by simp
  finally show ?thesis .
qed

end
