(* ===== verification/GoJson.thy ===== *)
theory GoJson
  imports GoTime
begin

text \<open>
  The part of \<open>encoding/json\<close> the program decodes webhook payloads and archive lines with: the JSON
  grammar (a syntax error anywhere is an error), and the rules for decoding a value into a struct.
  A key matches a field exactly or up to ASCII case, \<open>null\<close> leaves a non-pointer field alone and
  clears a pointer, an integer field takes an integer literal in range, members the struct does not
  name are ignored, and a later duplicate overwrites an earlier one.
\<close>

section \<open>Values and grammar\<close>

datatype json = JNull | JBool bool | JNum string | JStr string | JArr "json list"
  | JObj "(string \<times> json) list"

definition json_space :: "char \<Rightarrow> bool" where
  "json_space c \<longleftrightarrow> (let n = of_char c :: nat in n = 32 \<or> n = 9 \<or> n = 10 \<or> n = 13)"

definition skip_ws :: "string \<Rightarrow> string" where "skip_ws = dropWhile json_space"

definition hex_val :: "char \<Rightarrow> nat option" where
  "hex_val c = (let n = of_char c :: nat in
     if 48 \<le> n \<and> n \<le> 57 then Some (n - 48)
     else if 97 \<le> n \<and> n \<le> 102 then Some (n - 87)
     else if 65 \<le> n \<and> n \<le> 70 then Some (n - 55) else None)"

definition hex4 :: "char \<Rightarrow> char \<Rightarrow> char \<Rightarrow> char \<Rightarrow> nat option" where
  "hex4 a b c d = (case (hex_val a, hex_val b, hex_val c, hex_val d) of
     (Some p, Some q, Some r, Some s) \<Rightarrow> Some (4096 * p + 256 * q + 16 * r + s) | _ \<Rightarrow> None)"

text \<open>The UTF-8 bytes of a code point.\<close>

definition utf8 :: "nat \<Rightarrow> string" where
  "utf8 n = (if n < 128 then [char_of n]
     else if n < 2048 then [char_of (192 + n div 64), char_of (128 + n mod 64)]
     else if n < 65536 then
       [char_of (224 + n div 4096), char_of (128 + n div 64 mod 64), char_of (128 + n mod 64)]
     else [char_of (240 + n div 262144), char_of (128 + n div 4096 mod 64),
       char_of (128 + n div 64 mod 64), char_of (128 + n mod 64)])"

definition simple_escape :: "char \<Rightarrow> char option" where
  "simple_escape e = map_of [(CHR 0x22, CHR 0x22), (CHR 0x5C, CHR 0x5C), (CHR ''/'', CHR ''/''),
     (CHR ''b'', CHR 0x08), (CHR ''f'', CHR 0x0C), (CHR ''n'', CHR 0x0A), (CHR ''r'', CHR 0x0D),
     (CHR ''t'', CHR 0x09)] e"

text \<open>
  The rest of a string literal after its opening quote: the decoded bytes and what follows the
  closing quote. A lone surrogate becomes U+FFFD, a surrogate pair one code point.
\<close>

fun jstring :: "string \<Rightarrow> (string \<times> string) option" where
  "jstring [] = None"
| "jstring (c # r) =
     (if c = CHR 0x22 then Some ([], r)
      else if c = CHR 0x5C then
        (case r of
           [] \<Rightarrow> None
         | e # r1 \<Rightarrow>
             if e = CHR ''u'' then
               (case r1 of
                  h1 # h2 # h3 # h4 # r2 \<Rightarrow>
                    (case hex4 h1 h2 h3 h4 of
                       None \<Rightarrow> None
                     | Some n \<Rightarrow>
                         if 55296 \<le> n \<and> n < 56320 then
                           (case r2 of
                              b # u # g1 # g2 # g3 # g4 # r3 \<Rightarrow>
                                (case (if b = CHR 0x5C \<and> u = CHR ''u'' then hex4 g1 g2 g3 g4 else None) of
                                   Some m \<Rightarrow>
                                     if 56320 \<le> m \<and> m < 57344
                                     then map_option (\<lambda>(t, q). (utf8 (65536 + (n - 55296) * 1024 + (m - 56320)) @ t, q)) (jstring r3)
                                     else map_option (\<lambda>(t, q). (utf8 65533 @ t, q)) (jstring r2)
                                 | None \<Rightarrow> map_option (\<lambda>(t, q). (utf8 65533 @ t, q)) (jstring r2))
                            | _ \<Rightarrow> map_option (\<lambda>(t, q). (utf8 65533 @ t, q)) (jstring r2))
                         else if 56320 \<le> n \<and> n < 57344
                         then map_option (\<lambda>(t, q). (utf8 65533 @ t, q)) (jstring r2)
                         else map_option (\<lambda>(t, q). (utf8 n @ t, q)) (jstring r2))
                | _ \<Rightarrow> None)
             else (case simple_escape e of
                None \<Rightarrow> None
              | Some x \<Rightarrow> map_option (\<lambda>(t, q). (x # t, q)) (jstring r1)))
      else if (of_char c :: nat) < 32 then None
      else map_option (\<lambda>(t, q). (c # t, q)) (jstring r))"

text \<open>A number literal at the head of the input, and the rest.\<close>

definition jdigits :: "string \<Rightarrow> (string \<times> string) option" where
  "jdigits s = (let d = takeWhile is_digit s in if d = [] then None else Some (d, dropWhile is_digit s))"

definition jint_part :: "string \<Rightarrow> (string \<times> string) option" where
  "jint_part s = (case s of [] \<Rightarrow> None | c # r \<Rightarrow> if c = CHR ''0'' then Some ([c], r) else jdigits s)"

definition jfrac_part :: "string \<Rightarrow> (string \<times> string) option" where
  "jfrac_part s = (case s of [] \<Rightarrow> Some ([], [])
     | c # r \<Rightarrow> if c = CHR ''.'' then map_option (\<lambda>(d, q). (c # d, q)) (jdigits r) else Some ([], s))"

definition jexp_part :: "string \<Rightarrow> (string \<times> string) option" where
  "jexp_part s = (case s of [] \<Rightarrow> Some ([], [])
     | c # r \<Rightarrow> if c = CHR ''e'' \<or> c = CHR ''E'' then
           (case r of
              [] \<Rightarrow> None
            | g # r' \<Rightarrow> if g = CHR ''+'' \<or> g = CHR ''-''
                then map_option (\<lambda>(d, q). (c # g # d, q)) (jdigits r')
                else map_option (\<lambda>(d, q). (c # d, q)) (jdigits r))
         else Some ([], s))"

definition jnumber :: "string \<Rightarrow> (string \<times> string) option" where
  "jnumber s = (let (sg, s1) = (case s of c # r \<Rightarrow> if c = CHR ''-'' then ([c], r) else ([], s) | [] \<Rightarrow> ([], s))
     in Option.bind (jint_part s1) (\<lambda>(i, s2).
        Option.bind (jfrac_part s2) (\<lambda>(f, s3).
        Option.bind (jexp_part s3) (\<lambda>(e, s4). Some (sg @ i @ f @ e, s4)))))"

lemma skip_ws_shorter: "skip_ws s = c # r \<Longrightarrow> length r < length s"
  by (metis length_Cons length_dropWhile_le less_Suc_eq_le linorder_not_less order_trans not_less_eq skip_ws_def)

text \<open>
  Values, the elements of an array after its bracket, and the members of an object after its brace.
  The length tests hold for every result of the callee; they carry the termination argument.
\<close>

function (sequential) jvalue :: "string \<Rightarrow> (json \<times> string) option"
  and jelems :: "string \<Rightarrow> (json list \<times> string) option"
  and jmembers :: "string \<Rightarrow> ((string \<times> json) list \<times> string) option" where
  "jvalue s = (case skip_ws s of
       [] \<Rightarrow> None
     | c # r \<Rightarrow>
         if c = CHR ''{'' then
           (case skip_ws r of
              [] \<Rightarrow> None
            | d # q \<Rightarrow> if d = CHR ''}'' then Some (JObj [], q)
                else map_option (\<lambda>(ms, q). (JObj ms, q)) (jmembers r))
         else if c = CHR ''['' then
           (case skip_ws r of
              [] \<Rightarrow> None
            | d # q \<Rightarrow> if d = CHR '']'' then Some (JArr [], q)
                else map_option (\<lambda>(vs, q). (JArr vs, q)) (jelems r))
         else if c = CHR 0x22 then map_option (\<lambda>(t, q). (JStr t, q)) (jstring r)
         else if has_prefix ''null'' (c # r) then Some (JNull, drop 4 (c # r))
         else if has_prefix ''true'' (c # r) then Some (JBool True, drop 4 (c # r))
         else if has_prefix ''false'' (c # r) then Some (JBool False, drop 5 (c # r))
         else map_option (\<lambda>(t, q). (JNum t, q)) (jnumber (c # r)))"
| "jelems s = (case jvalue s of
       None \<Rightarrow> None
     | Some (v, r) \<Rightarrow>
         (case skip_ws r of
            [] \<Rightarrow> None
          | d # q \<Rightarrow>
              if d = CHR '','' \<and> length q < length s
              then map_option (\<lambda>(vs, q). (v # vs, q)) (jelems q)
              else if d = CHR '']'' then Some ([v], q) else None))"
| "jmembers s = (case skip_ws s of
       [] \<Rightarrow> None
     | c # r \<Rightarrow>
         if c = CHR 0x22 then
           (case jstring r of
              None \<Rightarrow> None
            | Some (k, r1) \<Rightarrow>
                (case skip_ws r1 of
                   [] \<Rightarrow> None
                 | d # r2 \<Rightarrow>
                     if d = CHR '':'' \<and> length r2 < length s then
                       (case jvalue r2 of
                          None \<Rightarrow> None
                        | Some (v, r3) \<Rightarrow>
                            (case skip_ws r3 of
                               [] \<Rightarrow> None
                             | e # q \<Rightarrow>
                                 if e = CHR '','' \<and> length q < length s
                                 then map_option (\<lambda>(ms, q). ((k, v) # ms, q)) (jmembers q)
                                 else if e = CHR ''}'' then Some ([(k, v)], q) else None))
                     else None))
         else None)"
  by pat_completeness auto
termination
  by (relation "measure (\<lambda>x. case x of Inl s \<Rightarrow> 2 * length s
       | Inr (Inl s) \<Rightarrow> 2 * length s + 1 | Inr (Inr s) \<Rightarrow> 2 * length s + 1)")
     (auto dest: skip_ws_shorter)

declare jvalue.simps [simp del] jelems.simps [simp del] jmembers.simps [simp del]

text \<open>The document: one value and nothing but white space after it.\<close>

definition parse_json :: "string \<Rightarrow> json option" where
  "parse_json s = (case jvalue s of
       Some (v, r) \<Rightarrow> if skip_ws r = [] then Some v else None | None \<Rightarrow> None)"

section \<open>Decoding into Go values\<close>

text \<open>
  A decoder takes the value a field holds so far and the JSON value, and gives the new value or
  \<open>None\<close> for a type error.
\<close>

type_synonym 'a decoder = "'a \<Rightarrow> json \<Rightarrow> 'a option"

fun dec_string :: "string decoder" where
  "dec_string cur JNull = Some cur"
| "dec_string cur (JStr s) = Some s"
| "dec_string cur _ = None"

fun dec_int64 :: "int decoder" where
  "dec_int64 cur JNull = Some cur"
| "dec_int64 cur (JNum lit) = parse_int64 lit"
| "dec_int64 cur _ = None"

text \<open>
  \<open>time.Time\<close> takes strict RFC 3339: two-digit hours, a point before the fraction, and zone offsets
  below 24:60 (\<open>parseStrictRFC3339\<close>).
\<close>

definition strict_rfc3339 :: "string \<Rightarrow> gtime option" where
  "strict_rfc3339 s = (case parse_rfc3339 s of
       None \<Rightarrow> None
     | Some t \<Rightarrow>
         if s ! 12 = CHR '':'' \<or> s ! 19 = CHR '','' then None
         else if last s = CHR ''Z'' then Some t
         else if 24 \<le> read_digits (take 2 (drop (length s - 5) s)) \<or>
                 60 \<le> read_digits (drop (length s - 2) s) then None
         else Some t)"

fun dec_time :: "gtime decoder" where
  "dec_time cur JNull = Some cur"
| "dec_time cur (JStr s) = strict_rfc3339 s"
| "dec_time cur _ = None"

fun dec_ptr :: "'a \<Rightarrow> 'a decoder \<Rightarrow> 'a option decoder" where
  "dec_ptr zero d cur JNull = Some None"
| "dec_ptr zero d cur j = map_option Some (d (case cur of None \<Rightarrow> zero | Some x \<Rightarrow> x) j)"

fun all_some :: "'a option list \<Rightarrow> 'a list option" where
  "all_some [] = Some []"
| "all_some (None # xs) = None"
| "all_some (Some x # xs) = map_option (\<lambda>ys. x # ys) (all_some xs)"

text \<open>A slice: \<open>null\<close> is the nil slice (\<open>None\<close>), an array gives one element per value.\<close>

fun dec_slice :: "'a \<Rightarrow> 'a decoder \<Rightarrow> 'a list option decoder" where
  "dec_slice zero d cur JNull = Some None"
| "dec_slice zero d cur (JArr vs) = map_option Some (all_some (map (d zero) vs))"
| "dec_slice zero d cur _ = None"

definition find_field :: "(string \<times> 'f) list \<Rightarrow> string \<Rightarrow> 'f option" where
  "find_field fs k = (case map_of fs k of
       Some f \<Rightarrow> Some f
     | None \<Rightarrow> map_option snd (find (\<lambda>(n, f). to_lower n = to_lower k) fs))"

fun dec_members :: "(string \<times> ('r \<Rightarrow> json \<Rightarrow> 'r option)) list \<Rightarrow> 'r \<Rightarrow> (string \<times> json) list \<Rightarrow> 'r option" where
  "dec_members fs r [] = Some r"
| "dec_members fs r ((k, v) # ms) = (case find_field fs k of
       None \<Rightarrow> dec_members fs r ms
     | Some f \<Rightarrow> (case f r v of None \<Rightarrow> None | Some r' \<Rightarrow> dec_members fs r' ms))"

fun dec_struct :: "(string \<times> ('r \<Rightarrow> json \<Rightarrow> 'r option)) list \<Rightarrow> 'r decoder" where
  "dec_struct fs r JNull = Some r"
| "dec_struct fs r (JObj ms) = dec_members fs r ms"
| "dec_struct fs r _ = None"

definition set_field :: "('r \<Rightarrow> 'a) \<Rightarrow> ('a \<Rightarrow> 'r \<Rightarrow> 'r) \<Rightarrow> 'a decoder \<Rightarrow> 'r \<Rightarrow> json \<Rightarrow> 'r option" where
  "set_field get put d r j = map_option (\<lambda>x. put x r) (d (get r) j)"

lemma dec_members_unknown:
  "\<forall>(k, v) \<in> set ms. find_field fs k = None \<Longrightarrow> dec_members fs r ms = Some r"
  by (induction fs r ms rule: dec_members.induct) auto

lemma dec_members_append:
  "dec_members fs r (xs @ ys) = Option.bind (dec_members fs r xs) (\<lambda>r. dec_members fs r ys)"
  by (induction fs r xs rule: dec_members.induct) (auto split: option.splits)

lemma find_field_mem: "find_field fs k = Some f \<Longrightarrow> \<exists>n. (n, f) \<in> set fs"
  by (auto simp: find_field_def dest: map_of_SomeD find_Some_iff_first split: option.splits)

text \<open>A property every field decoder keeps holds of the decoded struct.\<close>

lemma dec_members_inv:
  assumes step: "\<And>n f r j r'. (n, f) \<in> set fs \<Longrightarrow> I r \<Longrightarrow> f r j = Some r' \<Longrightarrow> I r'"
  shows "I r \<Longrightarrow> dec_members fs r ms = Some r' \<Longrightarrow> I r'"
proof (induction ms arbitrary: r)
  case (Cons m ms)
  obtain k v where m: "m = (k, v)" by fastforce
  show ?case
  proof (cases "find_field fs k")
    case None
    with Cons m show ?thesis by simp
  next
    case (Some f)
    with Cons.prems m obtain r1 where r1: "f r v = Some r1" "dec_members fs r1 ms = Some r'"
      by (auto split: option.splits)
    from find_field_mem [OF Some] obtain n where "(n, f) \<in> set fs" by (elim exE)
    then have "I r1" using step [of n f r v r1] Cons.prems(1) r1(1) by simp
    then show ?thesis by (rule Cons.IH [OF _ r1(2)])
  qed
qed simp

lemma dec_struct_inv:
  assumes "\<And>n f r j r'. (n, f) \<in> set fs \<Longrightarrow> I r \<Longrightarrow> f r j = Some r' \<Longrightarrow> I r'"
    and "I r" and "dec_struct fs r j = Some r'"
  shows "I r'"
proof (cases j)
  case JNull
  with assms(2,3) show ?thesis by simp
next
  case (JObj ms)
  with assms(3) have "dec_members fs r ms = Some r'" by simp
  with assms(2) show ?thesis
    using dec_members_inv [of fs I r ms r'] assms(1) by blast
qed (use assms(3) in simp_all)

lemma dec_int64_range: "dec_int64 cur j = Some i \<Longrightarrow> in_int64 cur \<Longrightarrow> in_int64 i"
  by (cases j) (auto dest: parse_int64_range)

lemma length_all_some: "all_some xs = Some ys \<Longrightarrow> length ys = length xs"
  by (induction xs arbitrary: ys rule: all_some.induct) auto

end
