(* ===== verification/Event.thy ===== *)
theory Event
  imports GoJson
begin

text \<open>
  Package \<open>event\<close> (\<open>internal/event\<close>): the envelope around one webhook delivery, how it is built
  from a request (\<open>FromWebhook\<close>) and how it is carried by a Watermill message (\<open>ToMessage\<close>,
  \<open>FromMessage\<close>).
\<close>

section \<open>Data\<close>

definition schema_version_current :: int where "schema_version_current = 1"

definition header_delivery :: string where "header_delivery = ''X-GitHub-Delivery''"
definition header_event :: string where "header_event = ''X-GitHub-Event''"
definition header_hook_id :: string where "header_hook_id = ''X-GitHub-Hook-ID''"

record envelope =
  schema_version :: int
  delivery_guid :: string
  ev_event :: string
  ev_action :: string
  hook_id :: string
  received_at :: gtime
  repository_id :: int
  repository :: string
  forwarded_by :: string
  forward_hops :: int
  payload :: string

definition empty_envelope :: envelope where
  "empty_envelope = \<lparr>schema_version = 0, delivery_guid = [], ev_event = [], ev_action = [],
     hook_id = [], received_at = 0, repository_id = 0, repository = [], forwarded_by = [],
     forward_hops = 0, payload = []\<rparr>"

definition err_missing_delivery :: goerr where "err_missing_delivery = Sentinel ''missing X-GitHub-Delivery header''"
definition err_missing_event :: goerr where "err_missing_event = Sentinel ''missing X-GitHub-Event header''"
definition err_invalid_payload :: goerr where "err_invalid_payload = Sentinel ''payload is not a JSON object''"
definition err_missing_metadata :: goerr where "err_missing_metadata = Sentinel ''missing message metadata''"
definition err_invalid_metadata :: goerr where "err_invalid_metadata = Sentinel ''invalid message metadata''"

text \<open>A request's headers by canonical name; \<open>Header.Get\<close> is empty when the header is absent.\<close>

type_synonym header = "(string, string) amap"

definition header_get :: "header \<Rightarrow> string \<Rightarrow> string" where
  "header_get h k = (case map_of h k of None \<Rightarrow> [] | Some v \<Rightarrow> v)"

section \<open>From a webhook\<close>

record head_repository =
  hr_id :: int
  hr_full_name :: string

record payload_head =
  ph_action :: string
  ph_repository :: "head_repository option"

definition dec_head_repository :: "head_repository decoder" where
  "dec_head_repository = dec_struct
     [(''id'', set_field hr_id (\<lambda>x r. r\<lparr>hr_id := x\<rparr>) dec_int64),
      (''full_name'', set_field hr_full_name (\<lambda>x r. r\<lparr>hr_full_name := x\<rparr>) dec_string)]"

definition dec_payload_head :: "payload_head decoder" where
  "dec_payload_head = dec_struct
     [(''action'', set_field ph_action (\<lambda>x r. r\<lparr>ph_action := x\<rparr>) dec_string),
      (''repository'', set_field ph_repository (\<lambda>x r. r\<lparr>ph_repository := x\<rparr>)
         (dec_ptr \<lparr>hr_id = 0, hr_full_name = []\<rparr> dec_head_repository))]"

definition unmarshal_head :: "string \<Rightarrow> payload_head option" where
  "unmarshal_head s =
     Option.bind (parse_json s) (dec_payload_head \<lparr>ph_action = [], ph_repository = None\<rparr>)"

definition from_webhook :: "header \<Rightarrow> string \<Rightarrow> gtime \<Rightarrow> goerr + envelope" where
  "from_webhook hdr body now =
     (let env = empty_envelope\<lparr>schema_version := schema_version_current,
            delivery_guid := trim_space (header_get hdr header_delivery),
            ev_event := trim_space (header_get hdr header_event),
            hook_id := trim_space (header_get hdr header_hook_id),
            received_at := now\<rparr>;
          trimmed = trim_space body
      in if delivery_guid env = [] then Inl err_missing_delivery
         else if ev_event env = [] then Inl err_missing_event
         else if trimmed = [] \<or> hd trimmed \<noteq> CHR ''{'' then Inl err_invalid_payload
         else (case unmarshal_head trimmed of
             None \<Rightarrow> Inl (Wrap [] [err_invalid_payload, Msg ''json''])
           | Some head \<Rightarrow>
               let env = env\<lparr>ev_action := ph_action head\<rparr>;
                   env = (case ph_repository head of None \<Rightarrow> env
                     | Some r \<Rightarrow> env\<lparr>repository_id := hr_id r, repository := hr_full_name r\<rparr>)
               in Inr (env\<lparr>payload := body\<rparr>)))"

section \<open>Messages\<close>

definition meta_delivery_guid :: string where "meta_delivery_guid = ''delivery_guid''"
definition meta_schema_version :: string where "meta_schema_version = ''schema_version''"
definition meta_event :: string where "meta_event = ''event''"
definition meta_action :: string where "meta_action = ''action''"
definition meta_hook_id :: string where "meta_hook_id = ''hook_id''"
definition meta_received_at :: string where "meta_received_at = ''received_at''"
definition meta_repository_id :: string where "meta_repository_id = ''repository_id''"
definition meta_repository :: string where "meta_repository = ''repository''"
definition meta_forwarded_by :: string where "meta_forwarded_by = ''antwatcher.forward.by''"
definition meta_forward_hops :: string where "meta_forward_hops = ''antwatcher.forward.hops''"

lemmas meta_keys [go_simps] = meta_delivery_guid_def meta_schema_version_def meta_event_def
  meta_action_def meta_hook_id_def meta_received_at_def meta_repository_id_def meta_repository_def
  meta_forwarded_by_def meta_forward_hops_def

text \<open>A Watermill message; \<open>None\<close> is nil metadata.\<close>

record message =
  uuid :: string
  metadata :: "(string, string) amap option"
  msg_payload :: string

definition set_if :: "bool \<Rightarrow> string \<Rightarrow> string \<Rightarrow> (string, string) amap \<Rightarrow> (string, string) amap" where
  "set_if c k v md = (if c then AList.update k v md else md)"

definition to_message :: "envelope \<Rightarrow> message" where
  "to_message env =
     (let md = AList.update meta_delivery_guid (delivery_guid env) [];
          md = AList.update meta_schema_version (format_int (schema_version env)) md;
          md = AList.update meta_event (ev_event env) md;
          md = AList.update meta_received_at (format_rfc3339 (received_at env)) md;
          md = set_if (ev_action env \<noteq> []) meta_action (ev_action env) md;
          md = set_if (hook_id env \<noteq> []) meta_hook_id (hook_id env) md;
          md = set_if (repository_id env \<noteq> 0) meta_repository_id (format_int (repository_id env)) md;
          md = set_if (repository env \<noteq> []) meta_repository (repository env) md;
          md = set_if (forwarded_by env \<noteq> []) meta_forwarded_by (forwarded_by env) md;
          md = set_if (0 < forward_hops env) meta_forward_hops (format_int (forward_hops env)) md
      in \<lparr>uuid = delivery_guid env, metadata = Some md, msg_payload = payload env\<rparr>)"

definition meta_get :: "(string, string) amap \<Rightarrow> string \<Rightarrow> string" where
  "meta_get md k = (case map_of md k of None \<Rightarrow> [] | Some v \<Rightarrow> v)"

definition required_meta :: "(string, string) amap \<Rightarrow> string \<Rightarrow> goerr + string" where
  "required_meta md k =
     (case map_of md k of
        None \<Rightarrow> Inl (Wrap k [err_missing_metadata])
      | Some v \<Rightarrow> if v = [] then Inl (Wrap k [err_missing_metadata]) else Inr v)"

text \<open>An optional integer that must not be negative: absent and empty are 0.\<close>

definition nonneg_meta :: "(string, string) amap \<Rightarrow> string \<Rightarrow> goerr + int" where
  "nonneg_meta md k =
     (case map_of md k of
        None \<Rightarrow> Inr 0
      | Some text \<Rightarrow>
          if text = [] then Inr 0
          else (case parse_int64 text of
              None \<Rightarrow> Inl (Wrap k [err_invalid_metadata])
            | Some i \<Rightarrow> if i < 0 then Inl (Wrap k [err_invalid_metadata]) else Inr i))"

definition from_message :: "message option \<Rightarrow> goerr + envelope" where
  "from_message mo =
     (case mo of
        None \<Rightarrow> Inl (Wrap ''nil message'' [err_missing_metadata])
      | Some msg \<Rightarrow>
          let md = (case metadata msg of None \<Rightarrow> [] | Some md \<Rightarrow> md);
              guid = (case map_of md meta_delivery_guid of None \<Rightarrow> uuid msg | Some g \<Rightarrow> g)
          in if guid = [] then Inl (Wrap meta_delivery_guid [err_missing_metadata])
          else case required_meta md meta_schema_version of Inl e \<Rightarrow> Inl e | Inr version_text \<Rightarrow>
          (case parse_int64 version_text of
             None \<Rightarrow> Inl (Wrap meta_schema_version [err_invalid_metadata])
           | Some version \<Rightarrow>
          if version \<noteq> schema_version_current then Inl (Wrap meta_schema_version [err_invalid_metadata])
          else case required_meta md meta_event of Inl e \<Rightarrow> Inl e | Inr ev \<Rightarrow>
          (case required_meta md meta_received_at of Inl e \<Rightarrow> Inl e | Inr received_text \<Rightarrow>
          (case parse_rfc3339 received_text of
             None \<Rightarrow> Inl (Wrap meta_received_at [err_invalid_metadata])
           | Some received \<Rightarrow>
          (case nonneg_meta md meta_repository_id of Inl e \<Rightarrow> Inl e | Inr repo_id \<Rightarrow>
          (case nonneg_meta md meta_forward_hops of Inl e \<Rightarrow> Inl e | Inr hops \<Rightarrow>
             Inr \<lparr>schema_version = version, delivery_guid = guid, ev_event = ev,
               ev_action = meta_get md meta_action, hook_id = meta_get md meta_hook_id,
               received_at = received, repository_id = repo_id,
               repository = meta_get md meta_repository,
               forwarded_by = meta_get md meta_forwarded_by, forward_hops = hops,
               payload = msg_payload msg\<rparr>))))))"

section \<open>Well-formed envelopes\<close>

text \<open>What \<open>FromMessage\<close> accepts and what a message can carry.\<close>

definition wf_envelope :: "envelope \<Rightarrow> bool" where
  "wf_envelope env \<longleftrightarrow> schema_version env = schema_version_current \<and> delivery_guid env \<noteq> [] \<and>
     ev_event env \<noteq> [] \<and> rfc3339_range (received_at env) \<and>
     0 \<le> repository_id env \<and> in_int64 (repository_id env) \<and>
     0 \<le> forward_hops env \<and> in_int64 (forward_hops env)"

lemma map_of_set_if [simp]:
  "map_of (set_if c k v md) k' = (if c \<and> k' = k then Some v else map_of md k')"
  by (simp add: set_if_def)

lemma to_message_simps [simp]:
  "uuid (to_message env) = delivery_guid env" "msg_payload (to_message env) = payload env"
  by (simp_all add: to_message_def Let_def)

lemma to_message_metadata:
  obtains md where "metadata (to_message env) = Some md"
    and "map_of md meta_delivery_guid = Some (delivery_guid env)"
    and "map_of md meta_schema_version = Some (format_int (schema_version env))"
    and "map_of md meta_event = Some (ev_event env)"
    and "map_of md meta_received_at = Some (format_rfc3339 (received_at env))"
    and "map_of md meta_action = (if ev_action env = [] then None else Some (ev_action env))"
    and "map_of md meta_hook_id = (if hook_id env = [] then None else Some (hook_id env))"
    and "map_of md meta_repository_id =
      (if repository_id env = 0 then None else Some (format_int (repository_id env)))"
    and "map_of md meta_repository = (if repository env = [] then None else Some (repository env))"
    and "map_of md meta_forwarded_by = (if forwarded_by env = [] then None else Some (forwarded_by env))"
    and "map_of md meta_forward_hops =
      (if 0 < forward_hops env then Some (format_int (forward_hops env)) else None)"
proof -
  define md where "md = the (metadata (to_message env))"
  have m: "metadata (to_message env) = Some md"
    by (simp add: md_def to_message_def Let_def)
  show thesis
    by (rule that [OF m]; simp add: md_def to_message_def Let_def meta_keys)
qed

lemma format_rfc3339_nonempty [simp]: "format_rfc3339 t \<noteq> []"
  by (simp add: format_rfc3339_def Let_def split: prod.splits)

lemma wf_envelopeD:
  assumes "wf_envelope env"
  shows "schema_version env = schema_version_current" "delivery_guid env \<noteq> []" "ev_event env \<noteq> []"
    "rfc3339_range (received_at env)" "0 \<le> repository_id env" "in_int64 (repository_id env)"
    "0 \<le> forward_hops env" "in_int64 (forward_hops env)"
  using assms by (auto simp: wf_envelope_def)

lemma from_to_message:
  assumes wf: "wf_envelope env"
  shows "from_message (Some (to_message env)) = Inr env"
proof -
  note w = wf_envelopeD [OF wf]
  obtain md where m: "metadata (to_message env) = Some md" and k:
    "map_of md meta_delivery_guid = Some (delivery_guid env)"
    "map_of md meta_schema_version = Some (format_int (schema_version env))"
    "map_of md meta_event = Some (ev_event env)"
    "map_of md meta_received_at = Some (format_rfc3339 (received_at env))"
    "map_of md meta_action = (if ev_action env = [] then None else Some (ev_action env))"
    "map_of md meta_hook_id = (if hook_id env = [] then None else Some (hook_id env))"
    "map_of md meta_repository_id =
      (if repository_id env = 0 then None else Some (format_int (repository_id env)))"
    "map_of md meta_repository = (if repository env = [] then None else Some (repository env))"
    "map_of md meta_forwarded_by = (if forwarded_by env = [] then None else Some (forwarded_by env))"
    "map_of md meta_forward_hops =
      (if 0 < forward_hops env then Some (format_int (forward_hops env)) else None)"
    by (rule to_message_metadata)
  have v: "in_int64 schema_version_current"
    by (simp add: in_int64_def int64_min_def int64_max_def schema_version_current_def)
  have repo: "nonneg_meta md meta_repository_id = Inr (repository_id env)"
    using w(5,6) by (simp add: nonneg_meta_def k(7) parse_format_int64)
  have hops: "nonneg_meta md meta_forward_hops = Inr (forward_hops env)"
    using w(7,8) by (auto simp: nonneg_meta_def k(10) parse_format_int64)
  have gets: "meta_get md meta_action = ev_action env" "meta_get md meta_hook_id = hook_id env"
    "meta_get md meta_repository = repository env" "meta_get md meta_forwarded_by = forwarded_by env"
    by (simp_all add: meta_get_def k(5,6,8,9))
  have req: "required_meta md meta_schema_version = Inr (format_int (schema_version env))"
    "required_meta md meta_event = Inr (ev_event env)"
    "required_meta md meta_received_at = Inr (format_rfc3339 (received_at env))"
    using w(3) by (simp_all add: required_meta_def k(2-4))
  have "from_message (Some (to_message env)) =
    Inr \<lparr>schema_version = schema_version env, delivery_guid = delivery_guid env,
      ev_event = ev_event env, ev_action = ev_action env, hook_id = hook_id env,
      received_at = received_at env, repository_id = repository_id env, repository = repository env,
      forwarded_by = forwarded_by env, forward_hops = forward_hops env, payload = payload env\<rparr>"
    using w(2) v
    by (simp add: from_message_def m k(1) req w(1) parse_format_int64 parse_format_rfc3339 [OF w(4)]
        repo hops gets)
  then show ?thesis by simp
qed

lemma nonneg_meta_result: "nonneg_meta md k = Inr i \<Longrightarrow> 0 \<le> i \<and> in_int64 i"
  by (auto simp: nonneg_meta_def in_int64_def int64_min_def int64_max_def dest: parse_int64_range
      split: option.splits if_splits)

lemma from_message_accepts:
  assumes "from_message mo = Inr env"
  shows "schema_version env = schema_version_current" and "delivery_guid env \<noteq> []"
    and "ev_event env \<noteq> []" and "0 \<le> repository_id env" and "0 \<le> forward_hops env"
    and "in_int64 (repository_id env)" and "in_int64 (forward_hops env)"
  using assms
  by (auto simp: from_message_def required_meta_def Let_def dest: nonneg_meta_result
      split: option.splits sum.splits if_splits)

definition meta_error :: "goerr \<Rightarrow> bool" where
  "meta_error e \<longleftrightarrow> is_sentinel ''missing message metadata'' e \<or> is_sentinel ''invalid message metadata'' e"

lemma meta_error_intros [simp, intro]:
  "meta_error (Wrap k [err_missing_metadata])" "meta_error (Wrap k [err_invalid_metadata])"
  by (simp_all add: meta_error_def is_sentinel_def err_missing_metadata_def err_invalid_metadata_def)

lemma required_meta_error: "required_meta md k = Inl e \<Longrightarrow> meta_error e"
  by (auto simp: required_meta_def split: option.splits if_splits)

lemma nonneg_meta_error: "nonneg_meta md k = Inl e \<Longrightarrow> meta_error e"
  by (auto simp: nonneg_meta_def split: option.splits if_splits)

lemma from_message_error: "from_message mo = Inl e \<Longrightarrow> meta_error e"
  by (auto simp: from_message_def Let_def dest: required_meta_error nonneg_meta_error
      split: option.splits sum.splits if_splits)

lemma from_webhook_ok:
  assumes "from_webhook hdr body now = Inr env"
  shows "schema_version env = schema_version_current" "delivery_guid env \<noteq> []" "ev_event env \<noteq> []"
    "payload env = body" "received_at env = now" "forward_hops env = 0" "forwarded_by env = []"
    "delivery_guid env = trim_space (header_get hdr header_delivery)"
    "ev_event env = trim_space (header_get hdr header_event)"
  using assms
  by (auto simp: from_webhook_def Let_def empty_envelope_def split: option.splits if_splits)

section \<open>Properties\<close>

definition sample_envelope :: envelope where
  "sample_envelope = \<lparr>schema_version = 1, delivery_guid = ''g-1'', ev_event = ''workflow_job'',
     ev_action = ''queued'', hook_id = [], received_at = 63871547400000000001, repository_id = 42,
     repository = ''o/r'', forwarded_by = [], forward_hops = 0, payload = ''{}''\<rparr>"



text \<open>
  \<open>FromMessage\<close> is total: it rejects a message only for missing or invalid metadata, and what it
  accepts carries the current schema version, a delivery GUID, an event name, and a repository id and
  hop count that are non-negative 64-bit integers.
\<close>

theorem message_accepted_or_rejected:
  "case from_message mo of
     Inl e \<Rightarrow> meta_error e
   | Inr env \<Rightarrow> schema_version env = schema_version_current \<and> delivery_guid env \<noteq> [] \<and>
       ev_event env \<noteq> [] \<and> 0 \<le> repository_id env \<and> in_int64 (repository_id env) \<and>
       0 \<le> forward_hops env \<and> in_int64 (forward_hops env)"
  by (auto dest: from_message_error from_message_accepts split: sum.splits)

end
