(* ===== verification/Bus.thy ===== *)
theory Bus
  imports Event
begin

text \<open>
  Package \<open>bus\<close> (\<open>internal/bus\<close>): capabilities, the policy that decides at startup whether a bus is
  good enough for the receiver and for a sink consumer, consumer names, the driver registry, and
  the publishing contract every driver keeps, as a locale.
\<close>

section \<open>Modes, severities, positions, retention\<close>

text \<open>The enumerations of the package are Go integers: values outside the constants are possible.\<close>

definition mode_fail :: int where "mode_fail = 1"
definition mode_degrade :: int where "mode_degrade = 2"

definition on_missing_capability_fail :: string where "on_missing_capability_fail = ''fail''"
definition on_missing_capability_degrade :: string where "on_missing_capability_degrade = ''degrade''"

definition parse_mode :: "string \<Rightarrow> goerr + int" where
  "parse_mode s = (if s = on_missing_capability_fail then Inr mode_fail
     else if s = on_missing_capability_degrade then Inr mode_degrade
     else Inl (Msg ''on_missing_capability''))"

definition mode_string :: "int \<Rightarrow> string" where
  "mode_string m = (if m = mode_fail then on_missing_capability_fail
     else if m = mode_degrade then on_missing_capability_degrade
     else ''Mode('' @ format_int m @ '')'')"

definition err_missing_capability :: goerr where
  "err_missing_capability = Sentinel ''bus lacks a required capability''"

definition severity_warning :: int where "severity_warning = 1"
definition severity_info :: int where "severity_info = 2"

definition severity_string :: "int \<Rightarrow> string" where
  "severity_string s = (if s = severity_warning then ''warning''
     else if s = severity_info then ''info'' else ''Severity('' @ format_int s @ '')'')"

record warning =
  w_capability :: string
  w_severity :: int
  w_message :: string

definition warning_string :: "warning \<Rightarrow> string" where
  "warning_string w = severity_string (w_severity w) @ '': '' @ w_capability w @ '': '' @ w_message w"

definition retention_none :: int where "retention_none = 0"
definition retention_time :: int where "retention_time = 1"
definition retention_size :: int where "retention_size = 2"
definition retention_until_acked :: int where "retention_until_acked = 3"

definition retention_string :: "int \<Rightarrow> string" where
  "retention_string r = (if r = retention_none then ''none'' else if r = retention_time then ''time''
     else if r = retention_size then ''size'' else if r = retention_until_acked then ''until_acked''
     else ''RetentionKind('' @ format_int r @ '')'')"

record capabilities =
  c_durable_publish :: bool
  c_durable_consumers :: bool
  c_fan_out :: bool
  c_historical_replay :: bool
  c_deduplicates :: bool
  c_reports_lag :: bool
  c_retention :: int

definition bool_string :: "bool \<Rightarrow> string" where
  "bool_string b = (if b then ''true'' else ''false'')"

definition capabilities_string :: "capabilities \<Rightarrow> string" where
  "capabilities_string c =
     ''durable_publish='' @ bool_string (c_durable_publish c)
     @ '' durable_consumers='' @ bool_string (c_durable_consumers c)
     @ '' fan_out='' @ bool_string (c_fan_out c)
     @ '' historical_replay='' @ bool_string (c_historical_replay c)
     @ '' deduplicates='' @ bool_string (c_deduplicates c)
     @ '' reports_lag='' @ bool_string (c_reports_lag c)
     @ '' retention='' @ retention_string (c_retention c)"

definition earliest :: int where "earliest = 1"
definition now_pos :: int where "now_pos = 2"

definition parse_start_position :: "string \<Rightarrow> goerr + int" where
  "parse_start_position s = (if s = ''earliest'' then Inr earliest
     else if s = ''now'' then Inr now_pos else Inl (Msg ''start position''))"

definition start_position_string :: "int \<Rightarrow> string" where
  "start_position_string p = (if p = earliest then ''earliest'' else if p = now_pos then ''now''
     else ''StartPosition('' @ format_int p @ '')'')"

definition valid_position :: "int \<Rightarrow> bool" where
  "valid_position p \<longleftrightarrow> p = earliest \<or> p = now_pos"

lemmas enum_defs [go_simps] = mode_fail_def mode_degrade_def severity_warning_def severity_info_def
  retention_none_def retention_time_def retention_size_def retention_until_acked_def
  earliest_def now_pos_def on_missing_capability_fail_def on_missing_capability_degrade_def

section \<open>Errors and consumer names\<close>

definition err_closed :: goerr where "err_closed = Sentinel ''bus is closed''"
definition err_invalid_consumer_name :: goerr where
  "err_invalid_consumer_name = Sentinel ''invalid consumer name''"
definition err_wrong_topic :: goerr where
  "err_wrong_topic = Sentinel ''subscriber is bound to another topic''"

definition is_alpha :: "char \<Rightarrow> bool" where
  "is_alpha c \<longleftrightarrow> (let n = of_char c :: nat in (65 \<le> n \<and> n \<le> 90) \<or> (97 \<le> n \<and> n \<le> 122))"

definition consumer_char :: "char \<Rightarrow> bool" where
  "consumer_char c \<longleftrightarrow> is_alpha c \<or> is_digit c \<or> c = CHR ''_'' \<or> c = CHR ''-''"

definition validate_consumer_name :: "string \<Rightarrow> goerr option" where
  "validate_consumer_name name =
     (if name = [] then Some (Wrap ''empty'' [err_invalid_consumer_name])
      else if \<not> list_all consumer_char name then Some (Wrap name [err_invalid_consumer_name])
      else None)"

section \<open>Policy\<close>

definition check_mode :: "int \<Rightarrow> goerr option" where
  "check_mode mode = (if mode = mode_fail \<or> mode = mode_degrade then None
     else Some (Msg ''invalid policy mode''))"

definition missing :: "string \<Rightarrow> string \<Rightarrow> goerr" where
  "missing capability consequence = Wrap (capability @ '' ('' @ consequence @ '')'') [err_missing_capability]"

definition resolve_ingress :: "capabilities \<Rightarrow> int \<Rightarrow> goerr + warning list" where
  "resolve_ingress caps mode =
     (case check_mode mode of
        Some e \<Rightarrow> Inl e
      | None \<Rightarrow>
          if c_durable_publish caps then Inr []
          else if mode = mode_fail
          then Inl (missing ''DurablePublish'' ''the receiver would answer 2xx before the event is stored'')
          else Inr [\<lparr>w_capability = ''DurablePublish'', w_severity = severity_warning,
                     w_message = ''2xx does not mean durable: events accepted from GitHub can be lost on restart, dev only''\<rparr>])"

definition resolve_consumer :: "capabilities \<Rightarrow> int \<Rightarrow> int \<Rightarrow> goerr + int \<times> warning list" where
  "resolve_consumer caps requested mode =
     (case check_mode mode of
        Some e \<Rightarrow> Inl e
      | None \<Rightarrow>
          if \<not> valid_position requested then Inl (Msg ''invalid start position'')
          else if \<not> c_fan_out caps
          then Inl (missing ''FanOut'' ''every sink must receive every message; this cannot be degraded'')
          else if requested = earliest \<and> \<not> c_historical_replay caps \<and> mode = mode_fail
          then Inl (missing ''HistoricalReplay'' ''start_from: earliest needs retained history'')
          else
            let downgrade = (requested = earliest \<and> \<not> c_historical_replay caps);
                effective = (if downgrade then now_pos else requested);
                ws = (if downgrade then
                    [\<lparr>w_capability = ''HistoricalReplay'', w_severity = severity_warning,
                      w_message = ''start_from: earliest downgraded to now: the bus keeps no history''\<rparr>] else []);
                ws = ws @ (if \<not> c_durable_consumers caps then
                    [\<lparr>w_capability = ''DurableConsumers'', w_severity = severity_warning,
                      w_message = ''consumer positions are lost on restart: the sink starts over from its start position''\<rparr>] else []);
                ws = ws @ (if \<not> c_deduplicates caps then
                    [\<lparr>w_capability = ''Deduplicates'', w_severity = severity_info,
                      w_message = ''the bus does not collapse duplicate deliveries; sinks are idempotent through deterministic IDs''\<rparr>] else [])
            in Inr (effective, ws))"

section \<open>Driver registry\<close>

text \<open>
  A driver is its factory and its describer, functions of other packages; \<open>None\<close> is a nil field. A
  panic of \<open>Register\<close> is \<open>None\<close>.
\<close>

record 'd driver_reg =
  factory :: "'d option"
  has_describer :: bool

type_synonym 'd registry = "(string, 'd driver_reg) amap"

definition reg_register :: "string \<Rightarrow> 'd driver_reg \<Rightarrow> 'd registry \<Rightarrow> 'd registry option" where
  "reg_register name d r =
     (if name = [] then None
      else if factory d = None then None
      else if \<not> has_describer d then None
      else if map_of r name \<noteq> None then None
      else Some (AList.update name d r))"

definition str_le :: "string \<Rightarrow> string \<Rightarrow> bool" where
  "str_le a b \<longleftrightarrow> a = b \<or> (a, b) \<in> lexord {(x, y). (of_char x :: nat) < of_char y}"

fun insert_str :: "string \<Rightarrow> string list \<Rightarrow> string list" where
  "insert_str x [] = [x]"
| "insert_str x (y # ys) = (if str_le x y then x # y # ys else y # insert_str x ys)"

definition sort_strings :: "string list \<Rightarrow> string list" where
  "sort_strings xs = foldr insert_str xs []"

definition reg_names :: "'d registry \<Rightarrow> string list" where
  "reg_names r = sort_strings (map fst r)"

definition reg_open :: "'d registry \<Rightarrow> ('d \<Rightarrow> string \<Rightarrow> goerr + 'b) \<Rightarrow> string \<Rightarrow> string \<Rightarrow> goerr + 'b" where
  "reg_open r run_factory driver topic =
     (if driver = [] then Inl (Msg ''bus.driver is required'')
      else if topic = [] then Inl (Msg ''bus.topic is required'')
      else case map_of r driver of
          None \<Rightarrow> Inl (Msg ''unknown bus driver'')
        | Some d \<Rightarrow> (case factory d of
              None \<Rightarrow> Inl (Msg ''nil factory'')
            | Some f \<Rightarrow> (case run_factory f topic of
                  Inl e \<Rightarrow> Inl (Wrap ''open bus'' [e])
                | Inr b \<Rightarrow> Inr b)))"

section \<open>The publishing contract\<close>

text \<open>A transport may add metadata of its own; the event it carries stays the same.\<close>

definition same_content :: "message \<Rightarrow> message \<Rightarrow> bool" where
  "same_content m m' \<longleftrightarrow> uuid m' = uuid m \<and> msg_payload m' = msg_payload m \<and>
     from_message (Some m') = from_message (Some m)"

definition md_of :: "message \<Rightarrow> (string, string) amap" where
  "md_of m = (case metadata m of None \<Rightarrow> [] | Some md \<Rightarrow> md)"

definition event_meta_keys :: "string list" where
  "event_meta_keys = [meta_delivery_guid, meta_schema_version, meta_event, meta_action, meta_hook_id,
     meta_received_at, meta_repository_id, meta_repository, meta_forwarded_by, meta_forward_hops]"

lemma from_message_cong:
  assumes "uuid m' = uuid m" and "msg_payload m' = msg_payload m"
    and k: "\<And>k. k \<in> set event_meta_keys \<Longrightarrow> map_of (md_of m') k = map_of (md_of m) k"
  shows "from_message (Some m') = from_message (Some m)"
proof -
  have keys: "map_of (md_of m') meta_delivery_guid = map_of (md_of m) meta_delivery_guid"
    "map_of (md_of m') meta_schema_version = map_of (md_of m) meta_schema_version"
    "map_of (md_of m') meta_event = map_of (md_of m) meta_event"
    "map_of (md_of m') meta_received_at = map_of (md_of m) meta_received_at"
    "map_of (md_of m') meta_action = map_of (md_of m) meta_action"
    "map_of (md_of m') meta_hook_id = map_of (md_of m) meta_hook_id"
    "map_of (md_of m') meta_repository_id = map_of (md_of m) meta_repository_id"
    "map_of (md_of m') meta_repository = map_of (md_of m) meta_repository"
    "map_of (md_of m') meta_forwarded_by = map_of (md_of m) meta_forwarded_by"
    "map_of (md_of m') meta_forward_hops = map_of (md_of m) meta_forward_hops"
    by (rule k, simp add: event_meta_keys_def)+
  have md: "\<And>m. (case metadata m of None \<Rightarrow> [] | Some md \<Rightarrow> md) = md_of m"
    by (simp add: md_of_def)
  show ?thesis
    by (simp only: from_message_def option.case Let_def md assms(1,2) required_meta_def nonneg_meta_def
        meta_get_def keys)
qed

lemma same_contentI:
  assumes "uuid m' = uuid m" and "msg_payload m' = msg_payload m"
    and "\<And>k. k \<in> set event_meta_keys \<Longrightarrow> map_of (md_of m') k = map_of (md_of m) k"
  shows "same_content m m'"
  using assms(1,2) from_message_cong [OF assms] by (simp add: same_content_def)

text \<open>A run of publishes, in order.\<close>

fun publish_all ::
  "('env \<Rightarrow> message \<Rightarrow> 's \<Rightarrow> goerr option \<times> 's) \<Rightarrow> ('env \<times> message) list \<Rightarrow> 's \<Rightarrow> goerr option list \<times> 's" where
  "publish_all pub [] s = ([], s)"
| "publish_all pub ((env, m) # ms) s =
     (let (r, s) = pub env m s; (rs, s) = publish_all pub ms s in (r # rs, s))"

text \<open>
  What \<open>Bus.Publish\<close> promises its callers. Every answer of the outside world to the call (the
  context's state, the broker's acknowledgement) is in its environment argument. \<open>kept\<close> lists what
  the bus has accepted so far: a nil result means the message is in it, and nothing ever leaves it.
\<close>

locale publisher =
  fixes publish :: "'env \<Rightarrow> message \<Rightarrow> 's \<Rightarrow> goerr option \<times> 's"
    and kept :: "'s \<Rightarrow> message list"
  assumes publish_ok: "publish env m s = (None, s') \<Longrightarrow> \<exists>m'. kept s' = kept s @ [m'] \<and> same_content m m'"
    and publish_failed: "publish env m s = (Some e, s') \<Longrightarrow> kept s' = kept s"
begin

lemma publish_kept:
  assumes "publish env m s = (None, s')"
  shows "\<exists>m' \<in> set (kept s'). same_content m m'"
  using publish_ok [OF assms] by auto

lemma publish_event_kept:
  assumes "publish env (to_message ev) s = (None, s')" and "wf_envelope ev"
  shows "\<exists>m' \<in> set (kept s'). from_message (Some m') = Inr ev"
  using publish_kept [OF assms(1)] from_to_message [OF assms(2)] by (auto simp: same_content_def)

lemma publish_mono: "publish env m s = (r, s') \<Longrightarrow> set (kept s) \<subseteq> set (kept s')"
  by (cases r) (auto dest: publish_ok publish_failed)

lemma publish_all_mono: "publish_all publish ms s = (rs, s') \<Longrightarrow> set (kept s) \<subseteq> set (kept s')"
proof (induction ms arbitrary: s rs s')
  case (Cons p ms)
  obtain env m where p: "p = (env, m)" by fastforce
  obtain r s1 where 1: "publish env m s = (r, s1)" by fastforce
  obtain rs1 s2 where 2: "publish_all publish ms s1 = (rs1, s2)" by fastforce
  from Cons.prems p 1 2 have "s' = s2" by simp
  with publish_mono [OF 1] Cons.IH [OF 2] show ?case by auto
qed simp

lemma publish_all_kept:
  "publish_all publish ms s = (rs, s') \<Longrightarrow> i < length ms \<Longrightarrow> rs ! i = None \<Longrightarrow>
     \<exists>m' \<in> set (kept s'). same_content (snd (ms ! i)) m'"
proof (induction ms arbitrary: s rs s' i)
  case (Cons p ms)
  obtain env m where p: "p = (env, m)" by fastforce
  obtain r s1 where 1: "publish env m s = (r, s1)" by fastforce
  obtain rs1 s2 where 2: "publish_all publish ms s1 = (rs1, s2)" by fastforce
  from Cons.prems(1) p 1 2 have s: "s' = s2" "rs = r # rs1" by simp_all
  show ?case
  proof (cases i)
    case 0
    with Cons.prems s p have "publish env m s = (None, s1)" using 1 by simp
    from publish_kept [OF this] obtain m' where "m' \<in> set (kept s1)" "same_content m m'" by auto
    with publish_all_mono [OF 2] s p 0 show ?thesis by auto
  next
    case (Suc k)
    with Cons.prems s have "k < length ms" "rs1 ! k = None" by simp_all
    from Cons.IH [OF 2 this] Suc s show ?thesis by simp
  qed
qed simp

end

section \<open>Lemmas\<close>

lemma missing_sentinel [simp]: "is_sentinel ''bus lacks a required capability'' (missing c d)"
  by (simp add: missing_def is_sentinel_def err_missing_capability_def)

lemma check_mode_valid [simp]: "check_mode mode_fail = None" "check_mode mode_degrade = None"
  by (simp_all add: check_mode_def)

lemma parse_mode_string: "parse_mode (mode_string m) = Inr m \<longleftrightarrow> m = mode_fail \<or> m = mode_degrade"
  by (auto simp: parse_mode_def mode_string_def go_simps)

lemma parse_mode_sound: "parse_mode s = Inr m \<Longrightarrow> mode_string m = s \<and> check_mode m = None"
  by (auto simp: parse_mode_def mode_string_def check_mode_def go_simps split: if_splits)

lemma parse_start_position_sound:
  "parse_start_position s = Inr p \<Longrightarrow> start_position_string p = s \<and> valid_position p"
  by (auto simp: parse_start_position_def start_position_string_def valid_position_def go_simps
      split: if_splits)

lemma resolve_ingress_ok:
  "resolve_ingress caps mode = Inr ws \<Longrightarrow>
     c_durable_publish caps \<and> ws = [] \<or> mode = mode_degrade \<and> length ws = 1"
  by (auto simp: resolve_ingress_def check_mode_def split: if_splits option.splits)

lemma resolve_ingress_fail_durable:
  "resolve_ingress caps mode_fail = Inr ws \<longleftrightarrow> c_durable_publish caps \<and> ws = []"
  by (auto simp: resolve_ingress_def)

lemma resolve_consumer_ok:
  assumes "resolve_consumer caps requested mode = Inr (p, ws)"
  shows "valid_position p" and "c_fan_out caps" and "p = earliest \<Longrightarrow> c_historical_replay caps"
    and "p \<noteq> requested \<Longrightarrow> p = now_pos \<and> requested = earliest \<and> mode = mode_degrade \<and> ws \<noteq> []"
  using assms
  by (auto simp: resolve_consumer_def valid_position_def check_mode_def Let_def
      simp: earliest_def now_pos_def split: if_splits option.splits)

lemma str_le_total: "str_le a b \<or> str_le b a"
proof -
  have "(a, b) \<in> lexord {(x, y). (of_char x :: nat) < of_char y} \<or> a = b \<or>
        (b, a) \<in> lexord {(x, y). (of_char x :: nat) < of_char y}"
    by (rule lexord_linear) (auto simp: nat_neq_iff)
  then show ?thesis by (auto simp: str_le_def)
qed

lemma str_le_trans: "str_le a b \<Longrightarrow> str_le b c \<Longrightarrow> str_le a c"
proof -
  have "trans {(x, y). (of_char x :: nat) < of_char y}" by (auto simp: trans_def)
  then show "str_le a b \<Longrightarrow> str_le b c \<Longrightarrow> str_le a c"
    by (auto simp: str_le_def intro: lexord_trans)
qed

lemma set_insert_str [simp]: "set (insert_str x ys) = insert x (set ys)"
  by (induction ys) auto

lemma sorted_insert_str: "sorted_wrt str_le ys \<Longrightarrow> sorted_wrt str_le (insert_str x ys)"
proof (induction ys)
  case (Cons y ys)
  then show ?case using str_le_total [of x y] str_le_trans by auto
qed simp

lemma sort_strings_sorted: "sorted_wrt str_le (sort_strings xs) \<and> set (sort_strings xs) = set xs"
  by (induction xs) (auto simp: sort_strings_def sorted_insert_str)

lemma reg_register_wf:
  "reg_register name d r = Some r' \<Longrightarrow> wf_amap r \<Longrightarrow>
     wf_amap r' \<and> map_of r' = (map_of r)(name \<mapsto> d) \<and> map_of r name = None"
  by (auto simp: reg_register_def split: if_splits)

lemma reg_register_twice: "reg_register name d r = Some r' \<Longrightarrow> reg_register name d' r' = None"
  by (auto simp: reg_register_def split: if_splits)

section \<open>Properties\<close>

text \<open>
  C21: a sink consumer is created only on a bus with fan-out; the position used is a valid one, is
  earliest only when the bus keeps history, and differs from the requested one only in the one case
  the operator accepted, earliest downgraded to now in degrade mode, and never silently.
\<close>

theorem consumer_policy_safe:
  assumes "resolve_consumer caps requested mode = Inr (p, ws)"
  shows "c_fan_out caps \<and> valid_position p \<and> (p = earliest \<longrightarrow> c_historical_replay caps) \<and>
    (p \<noteq> requested \<longrightarrow> p = now_pos \<and> requested = earliest \<and> mode = mode_degrade \<and> ws \<noteq> [])"
  using resolve_consumer_ok [OF assms] by blast

theorem consumer_policy_safe_witness:
  "\<exists>caps ws. resolve_consumer caps earliest mode_degrade = Inr (now_pos, ws) \<and> ws \<noteq> [] \<and> c_fan_out caps"
proof -
  let ?caps = "\<lparr>c_durable_publish = True, c_durable_consumers = True, c_fan_out = True,
    c_historical_replay = False, c_deduplicates = True, c_reports_lag = False, c_retention = retention_none\<rparr>"
  have "\<exists>ws. resolve_consumer ?caps earliest mode_degrade = Inr (now_pos, ws)"
    by (simp add: resolve_consumer_def check_mode_def valid_position_def earliest_def mode_fail_def
        mode_degrade_def Let_def)
  then obtain ws where ws: "resolve_consumer ?caps earliest mode_degrade = Inr (now_pos, ws)" by blast
  have "now_pos \<noteq> earliest" by (simp add: now_pos_def earliest_def)
  with consumer_policy_safe [OF ws] ws show ?thesis by blast
qed

end
