(* ===== verification/GoChannel.thy ===== *)
theory GoChannel
  imports Bus
begin

text \<open>
  The in-process bus driver (\<open>internal/bus/gochannel/driver.go\<close>). Watermill's Pub/Sub is not part of
  the repository: its answer to each \<open>Publish\<close> is an argument, and \<open>gb_accepted\<close> is the history of
  the messages it accepted, which is what it replays to a subscriber (it is opened persistent).
\<close>

section \<open>State and operations\<close>

definition seq_key :: string where "seq_key = ''_gochannel_seq''"

record gobus =
  gb_topic :: string
  gb_seq :: int
  gb_closed :: bool
  gb_accepted :: "message list"

definition gc_open :: "string \<Rightarrow> goerr + gobus" where
  "gc_open topic = (if topic = [] then Inl (Msg ''gochannel: topic is required'')
     else Inr \<lparr>gb_topic = topic, gb_seq = 0, gb_closed = False, gb_accepted = []\<rparr>)"

definition gc_capabilities :: capabilities where
  "gc_capabilities = \<lparr>c_durable_publish = False, c_durable_consumers = False, c_fan_out = True,
     c_historical_replay = True, c_deduplicates = False, c_reports_lag = False,
     c_retention = retention_none\<rparr>"

definition tag_message :: "int \<Rightarrow> message \<Rightarrow> message" where
  "tag_message n m = m\<lparr>metadata := Some (AList.update seq_key (format_int n) (md_of m))\<rparr>"

definition gc_publish :: "goerr option \<Rightarrow> goerr option \<Rightarrow> message option \<Rightarrow> gobus \<Rightarrow> goerr option \<times> gobus" where
  "gc_publish ctx_err ps_err mo b =
     (case mo of
        None \<Rightarrow> (Some (Msg ''gochannel: nil message''), b)
      | Some msg \<Rightarrow>
          (case ctx_err of
             Some e \<Rightarrow> (Some e, b)
           | None \<Rightarrow>
               if gb_closed b then (Some err_closed, b)
               else
                 let n = (gb_seq b + 1) mod 2 ^ 64;
                     b = b\<lparr>gb_seq := n\<rparr>;
                     tagged = tag_message n msg
                 in (case ps_err of
                       Some e \<Rightarrow> (Some (Wrap ''gochannel: publish'' [e]), b)
                     | None \<Rightarrow> (None, b\<lparr>gb_accepted := gb_accepted b @ [tagged]\<rparr>))))"

definition gc_subscribe :: "goerr option \<Rightarrow> string \<Rightarrow> int \<Rightarrow> gobus \<Rightarrow> goerr + int" where
  "gc_subscribe ctx_err consumer start b =
     (case validate_consumer_name consumer of
        Some e \<Rightarrow> Inl (Wrap ''gochannel'' [e])
      | None \<Rightarrow>
          (case ctx_err of
             Some e \<Rightarrow> Inl e
           | None \<Rightarrow>
               if gb_closed b then Inl err_closed
               else if start = earliest then Inr 0
               else if start = now_pos then Inr (gb_seq b)
               else Inl (Msg ''gochannel: invalid start position'')))"

definition gc_close :: "goerr option \<Rightarrow> gobus \<Rightarrow> goerr option \<times> gobus" where
  "gc_close ps_err b =
     (if gb_closed b then (None, b)
      else (map_option (\<lambda>e. Wrap ''gochannel: close'' [e]) ps_err, b\<lparr>gb_closed := True\<rparr>))"

text \<open>\<open>deliverable\<close> strips the tag from the message it tests.\<close>

definition deliverable :: "int \<Rightarrow> message \<Rightarrow> bool \<times> message" where
  "deliverable cutoff msg =
     (case map_of (md_of msg) seq_key of
        None \<Rightarrow> (True, msg)
      | Some t \<Rightarrow>
          let msg' = msg\<lparr>metadata := Some (AList.delete seq_key (md_of msg))\<rparr>
          in (case parse_uint64 t of
                None \<Rightarrow> (True, msg')
              | Some n \<Rightarrow> (cutoff < n, msg')))"

text \<open>
  The forwarding goroutine over the messages the Pub/Sub hands it: the messages sent to the consumer
  and those acked without being sent. It ends at the first send refused because the subscription's
  context has ended, which is after \<open>sends\<close> accepted ones.
\<close>

fun gc_forward :: "int \<Rightarrow> nat \<Rightarrow> message list \<Rightarrow> message list \<times> message list" where
  "gc_forward cutoff sends [] = ([], [])"
| "gc_forward cutoff sends (m # ms) =
     (case deliverable cutoff m of
        (False, m') \<Rightarrow> (let (out, acked) = gc_forward cutoff sends ms in (out, m' # acked))
      | (True, m') \<Rightarrow> (case sends of
            0 \<Rightarrow> ([], [])
          | Suc n \<Rightarrow> (let (out, acked) = gc_forward cutoff n ms in (m' # out, acked))))"

definition gc_sub_subscribe :: "gobus \<Rightarrow> int \<Rightarrow> bool \<Rightarrow> goerr option \<Rightarrow> string \<Rightarrow> nat \<Rightarrow> goerr + message list" where
  "gc_sub_subscribe b cutoff closed ps_err topic sends =
     (if topic \<noteq> gb_topic b then Inl (Wrap ''gochannel'' [err_wrong_topic])
      else if closed then Inl (Msg ''gochannel: consumer is closed'')
      else case ps_err of
          Some e \<Rightarrow> Inl (Wrap ''gochannel: subscribe'' [e])
        | None \<Rightarrow> Inr (fst (gc_forward cutoff sends (gb_accepted b))))"

section \<open>The driver as a publisher\<close>

lemma md_of_tag [simp]: "md_of (tag_message n m) = AList.update seq_key (format_int n) (md_of m)"
  by (simp add: tag_message_def md_of_def)

lemma same_content_tag: "same_content m (tag_message n m)"
  by (rule same_contentI) (auto simp: tag_message_def md_of_def seq_key_def event_meta_keys_def meta_keys)

interpretation gc: publisher "\<lambda>(ctx_err, ps_err) m b. gc_publish ctx_err ps_err (Some m) b" gb_accepted
proof unfold_locales
  fix env m b b'
  assume "(case env of (c, p) \<Rightarrow> \<lambda>m b. gc_publish c p (Some m) b) m b = (None, b')"
  then show "\<exists>m'. gb_accepted b' = gb_accepted b @ [m'] \<and> same_content m m'"
    using same_content_tag
    by (auto simp: gc_publish_def Let_def split: prod.splits option.splits if_splits)
next
  fix env m b e b'
  assume "(case env of (c, p) \<Rightarrow> \<lambda>m b. gc_publish c p (Some m) b) m b = (Some e, b')"
  then show "gb_accepted b' = gb_accepted b"
    by (auto simp: gc_publish_def Let_def split: prod.splits option.splits if_splits)
qed

section \<open>Replay and start positions\<close>

text \<open>The tag of an accepted message, and what a consumer sees of it.\<close>

definition seq_of :: "message \<Rightarrow> int" where
  "seq_of m = (case map_of (md_of m) seq_key of None \<Rightarrow> 0
     | Some t \<Rightarrow> (case parse_uint64 t of None \<Rightarrow> 0 | Some n \<Rightarrow> n))"

definition untag :: "message \<Rightarrow> message" where
  "untag m = m\<lparr>metadata := Some (AList.delete seq_key (md_of m))\<rparr>"

definition tagged_ok :: "message \<Rightarrow> bool" where
  "tagged_ok m \<longleftrightarrow> (\<exists>n. map_of (md_of m) seq_key = Some (format_int n) \<and> 0 < n \<and> n < 2 ^ 64)"

definition gb_inv :: "gobus \<Rightarrow> bool" where
  "gb_inv b \<longleftrightarrow> 0 \<le> gb_seq b \<and> gb_seq b < 2 ^ 64 \<and>
     (\<forall>m \<in> set (gb_accepted b). tagged_ok m \<and> seq_of m \<le> gb_seq b)"

lemma seq_of_tag: "0 \<le> n \<Longrightarrow> n < 2 ^ 64 \<Longrightarrow> seq_of (tag_message n m) = n"
  by (simp add: seq_of_def parse_uint_format)

lemma tagged_ok_tag: "0 < n \<Longrightarrow> n < 2 ^ 64 \<Longrightarrow> tagged_ok (tag_message n m)"
  by (auto simp: tagged_ok_def)

lemma untag_tag: "untag (tag_message n m) = m\<lparr>metadata := Some (AList.delete seq_key (md_of m))\<rparr>"
  by (simp add: untag_def tag_message_def md_of_def)

lemma deliverable_tagged: "tagged_ok m \<Longrightarrow> deliverable c m = (c < seq_of m, untag m)"
  by (auto simp: tagged_ok_def deliverable_def seq_of_def untag_def Let_def parse_uint_format)

lemma gc_forward_tagged:
  assumes "\<forall>m \<in> set ms. tagged_ok m"
  shows "fst (gc_forward c k ms) = take k (map untag (filter (\<lambda>m. c < seq_of m) ms))"
  using assms
proof (induction ms arbitrary: k)
  case (Cons m ms)
  then have IH: "\<And>k. fst (gc_forward c k ms) = take k (map untag (filter (\<lambda>m. c < seq_of m) ms))" by simp
  from Cons.prems have d: "deliverable c m = (c < seq_of m, untag m)"
    by (simp add: deliverable_tagged)
  show ?case
  proof (cases "c < seq_of m")
    case True
    then show ?thesis using IH d by (cases k) (auto simp: split_beta)
  next
    case False
    then show ?thesis using IH d by (simp add: split_beta)
  qed
qed simp

lemma gc_open_inv: "gc_open topic = Inr b \<Longrightarrow> gb_inv b"
  by (auto simp: gc_open_def gb_inv_def split: if_splits)

lemma gc_close_inv: "gb_inv b \<Longrightarrow> gb_inv (snd (gc_close e b))"
  by (auto simp: gc_close_def gb_inv_def)

lemma gc_publish_step:
  assumes inv: "gb_inv b" and room: "gb_seq b + 1 < 2 ^ 64"
    and p: "gc_publish c e (Some m) b = (r, b')"
  shows "gb_inv b' \<and> gb_seq b \<le> gb_seq b' \<and> gb_seq b' \<le> gb_seq b + 1 \<and>
    (\<exists>ms. gb_accepted b' = gb_accepted b @ ms \<and> (\<forall>m' \<in> set ms. gb_seq b < seq_of m') \<and>
      ms = (if r = None then [tag_message (gb_seq b + 1) m] else []))"
proof -
  from inv have b0: "0 \<le> gb_seq b" by (simp add: gb_inv_def)
  with room have n: "(gb_seq b + 1) mod 2 ^ 64 = gb_seq b + 1" by (intro mod_pos_pos_trivial) auto
  have tags: "tagged_ok (tag_message (gb_seq b + 1) m)" "seq_of (tag_message (gb_seq b + 1) m) = gb_seq b + 1"
    using b0 room by (simp_all add: tagged_ok_tag seq_of_tag)
  show ?thesis
  proof (cases "c = None \<and> \<not> gb_closed b")
    case False
    then have "r \<noteq> None \<and> b' = b" using p by (auto simp: gc_publish_def split: option.splits if_splits)
    then show ?thesis using inv by simp
  next
    case True
    note open_b = this
    show ?thesis
    proof (cases e)
      case None
      with open_b p n have "r = None"
        "b' = b\<lparr>gb_seq := gb_seq b + 1, gb_accepted := gb_accepted b @ [tag_message (gb_seq b + 1) m]\<rparr>"
        by (auto simp: gc_publish_def Let_def simp del: power_numeral)
      then show ?thesis using inv b0 room tags by (fastforce simp: gb_inv_def simp del: power_numeral)
    next
      case (Some x)
      with open_b p n have "r \<noteq> None" "b' = b\<lparr>gb_seq := gb_seq b + 1\<rparr>"
        by (auto simp: gc_publish_def Let_def simp del: power_numeral)
      then show ?thesis using inv b0 room by (fastforce simp: gb_inv_def simp del: power_numeral)
    qed
  qed
qed

text \<open>A sequence of publishes: the messages of the successful ones, as consumers see them.\<close>

fun gc_publish_all :: "(goerr option \<times> goerr option \<times> message) list \<Rightarrow> gobus \<Rightarrow> message list \<times> gobus" where
  "gc_publish_all [] b = ([], b)"
| "gc_publish_all ((c, e, m) # ps) b =
     (let (r, b) = gc_publish c e (Some m) b;
          (ms, b) = gc_publish_all ps b
      in (if r = None then (m\<lparr>metadata := Some (AList.delete seq_key (md_of m))\<rparr>) # ms else ms, b))"

lemma gc_publish_all_step:
  assumes "gb_inv b" and "gb_seq b + int (length ps) < 2 ^ 64" and "gc_publish_all ps b = (ms, b')"
  shows "gb_inv b' \<and> gb_seq b \<le> gb_seq b' \<and>
    (\<exists>ts. gb_accepted b' = gb_accepted b @ ts \<and> map untag ts = ms \<and> (\<forall>t \<in> set ts. gb_seq b < seq_of t))"
  using assms
proof (induction ps arbitrary: b ms)
  case (Cons p ps)
  obtain c e m where p: "p = (c, e, m)" using prod_cases3 by blast
  obtain r b1 where 1: "gc_publish c e (Some m) b = (r, b1)" by fastforce
  obtain ms1 b2 where 2: "gc_publish_all ps b1 = (ms1, b2)" by fastforce
  from Cons.prems(3) p 1 2 have b2: "b' = b2"
    and ms: "ms = (if r = None then (m\<lparr>metadata := Some (AList.delete seq_key (md_of m))\<rparr>) # ms1 else ms1)"
    by (simp_all split: if_splits)
  from Cons.prems(2) have room: "gb_seq b + 1 < 2 ^ 64" by simp
  from gc_publish_step [OF Cons.prems(1) room 1] obtain t1 where
    s1: "gb_inv b1" "gb_seq b \<le> gb_seq b1" "gb_seq b1 \<le> gb_seq b + 1"
      "gb_accepted b1 = gb_accepted b @ t1" "\<forall>t \<in> set t1. gb_seq b < seq_of t"
      "t1 = (if r = None then [tag_message (gb_seq b + 1) m] else [])" by blast
  from Cons.prems(2) s1(3) have "gb_seq b1 + int (length ps) < 2 ^ 64" by simp
  from Cons.IH [OF s1(1) this] 2 b2 obtain ts where
    s2: "gb_inv b2" "gb_seq b1 \<le> gb_seq b2" "gb_accepted b2 = gb_accepted b1 @ ts"
      "map untag ts = ms1" "\<forall>t \<in> set ts. gb_seq b1 < seq_of t" by auto
  have "map untag (t1 @ ts) = ms" using s1(6) s2(4) ms by (simp add: untag_tag)
  moreover have "\<forall>t \<in> set (t1 @ ts). gb_seq b < seq_of t" using s1(2,5) s2(5) by fastforce
  moreover have "gb_accepted b' = gb_accepted b @ (t1 @ ts)" using b2 s1(4) s2(3) by simp
  moreover have "gb_inv b' \<and> gb_seq b \<le> gb_seq b'" using b2 s2(1,2) s1(2) by simp
  ultimately show ?case by blast
qed simp

text \<open>
  The start position: a consumer that asked for now sees exactly what was published after its
  \<open>Subscribe\<close>, in order and as published, one that asked for earliest sees the history as well.
\<close>

lemma gc_replay:
  assumes inv: "gb_inv b" and sub: "gc_subscribe ctx name start b = Inr cutoff"
    and room: "gb_seq b + int (length ps) < 2 ^ 64"
    and pub: "gc_publish_all ps b = (ms, b')"
    and all: "length (gb_accepted b) + length ms \<le> sends"
  shows "fst (gc_forward cutoff sends (gb_accepted b')) =
    (if start = earliest then map untag (gb_accepted b) else []) @ ms"
proof -
  from gc_publish_all_step [OF inv room pub] obtain ts where
    inv': "gb_inv b'" and acc: "gb_accepted b' = gb_accepted b @ ts" and ms: "map untag ts = ms"
    and new: "\<forall>t \<in> set ts. gb_seq b < seq_of t" by blast
  have old: "\<forall>m \<in> set (gb_accepted b). seq_of m \<le> gb_seq b" and b0: "0 \<le> gb_seq b"
    using inv by (simp_all add: gb_inv_def)
  have pos: "\<forall>m \<in> set (gb_accepted b). 0 < seq_of m"
    using inv by (auto simp: gb_inv_def tagged_ok_def seq_of_def parse_uint_format)
  have "\<forall>m \<in> set (gb_accepted b'). tagged_ok m" using inv' by (simp add: gb_inv_def)
  then have fwd: "fst (gc_forward cutoff sends (gb_accepted b')) =
      take sends (map untag (filter (\<lambda>m. cutoff < seq_of m) (gb_accepted b')))"
    by (rule gc_forward_tagged)
  from sub have c: "start = earliest \<and> cutoff = 0 \<or> start = now_pos \<and> cutoff = gb_seq b"
    by (auto simp: gc_subscribe_def split: option.splits if_splits)
  have ts: "filter (\<lambda>m. cutoff < seq_of m) ts = ts"
    using c new b0 by (auto simp: filter_id_conv)
  have len: "length ts = length ms" using ms by auto
  show ?thesis
  proof (cases "start = earliest")
    case True
    with c have "cutoff = 0" by (auto simp: earliest_def now_pos_def)
    then have "filter (\<lambda>m. cutoff < seq_of m) (gb_accepted b) = gb_accepted b"
      using pos by (simp add: filter_id_conv)
    then show ?thesis using fwd acc ts ms all len True by simp
  next
    case False
    with c have "cutoff = gb_seq b" by auto
    then have "filter (\<lambda>m. cutoff < seq_of m) (gb_accepted b) = []"
      using old by (auto simp: filter_empty_conv)
    then show ?thesis using fwd acc ts ms all len False by simp
  qed
qed

text \<open>Nothing is published and nobody subscribes after \<open>Close\<close>.\<close>

lemma gc_closed:
  assumes "snd (gc_close e b) = b'"
  shows "gc_publish None p (Some m) b' = (Some err_closed, b')"
    and "validate_consumer_name name = None \<Longrightarrow> gc_subscribe None name start b' = Inl err_closed"
    and "gc_close e' b' = (None, b')"
  using assms by (auto simp: gc_close_def gc_publish_def gc_subscribe_def split: if_splits)

text \<open>The policy refuses this driver for ingress unless the operator accepts the loss.\<close>

lemma gc_ingress:
  "resolve_ingress gc_capabilities mode_fail = Inl e \<longleftrightarrow> e =
     missing ''DurablePublish'' ''the receiver would answer 2xx before the event is stored''"
  by (auto simp: resolve_ingress_def gc_capabilities_def)

section \<open>Properties\<close>

text \<open>
  C8: on the in-process bus a consumer that starts at now receives exactly the messages published after
  its \<open>Subscribe\<close>, one that starts at earliest the whole history before them, in publishing order and
  without the sequence tag, as long as the 64-bit sequence has room.
\<close>

theorem gochannel_replay:
  assumes "gb_inv b" and "gc_subscribe ctx name start b = Inr cutoff"
    and "gb_seq b + int (length ps) < 2 ^ 64"
    and "gc_publish_all ps b = (ms, b')"
    and "length (gb_accepted b) + length ms \<le> sends"
  shows "fst (gc_forward cutoff sends (gb_accepted b')) =
    (if start = earliest then map untag (gb_accepted b) else []) @ ms"
  by (rule gc_replay [OF assms])

definition replay_bus :: gobus where
  "replay_bus = snd (gc_publish_all [(None, None, \<lparr>uuid = ''old'', metadata = None, msg_payload = ''a''\<rparr>)]
     \<lparr>gb_topic = ''t'', gb_seq = 0, gb_closed = False, gb_accepted = []\<rparr>)"

theorem gochannel_replay_witness:
  "fst (gc_forward 1 5 (gb_accepted (snd (gc_publish_all
      [(None, None, \<lparr>uuid = ''new'', metadata = None, msg_payload = ''b''\<rparr>)] replay_bus)))) =
    [\<lparr>uuid = ''new'', metadata = Some [], msg_payload = ''b''\<rparr>]"
proof -
  let ?ps = "[(None, None, \<lparr>uuid = ''new'', metadata = None, msg_payload = ''b''\<rparr>)]"
  have inv: "gb_inv replay_bus"
    using gc_publish_all_step [of "\<lparr>gb_topic = ''t'', gb_seq = 0, gb_closed = False, gb_accepted = []\<rparr>"
        "[(None, None, \<lparr>uuid = ''old'', metadata = None, msg_payload = ''a''\<rparr>)]"]
    by (simp add: replay_bus_def gb_inv_def prod_eq_iff)
  have sub: "gc_subscribe None ''c'' now_pos replay_bus = Inr 1" by code_simp
  have ms: "fst (gc_publish_all ?ps replay_bus) = [\<lparr>uuid = ''new'', metadata = Some [], msg_payload = ''b''\<rparr>]"
    by code_simp
  have room: "gb_seq replay_bus + int (length ?ps) < 2 ^ 64" by code_simp
  have len: "length (gb_accepted replay_bus) + length (fst (gc_publish_all ?ps replay_bus)) \<le> 5"
    by code_simp
  have "now_pos \<noteq> earliest" by (simp add: now_pos_def earliest_def)
  with gochannel_replay [OF inv sub room prod.collapse [symmetric] len] ms show ?thesis by simp
qed

end
