(* ===== verification/NatsJs.thy ===== *)
theory NatsJs
  imports Bus
begin

text \<open>
  The NATS JetStream bus driver (\<open>internal/bus/natsjs\<close>): its configuration and redelivery delay, what
  it publishes and when it reports success, how a durable consumer is created or reopened, how an ack
  or nack reaches the broker, and the reservation of embedded store directories. The NATS client and
  server are not part of the repository: their answers are arguments, and the messages the broker
  acknowledged and the requests made to it are kept as histories.
\<close>

section \<open>Configuration\<close>

definition ack_wait_margin :: duration where "ack_wait_margin = 10 * second"
definition min_window :: duration where "min_window = 100 * millisecond"

record nats_config =
  nc_embedded :: bool
  nc_store_dir :: string
  nc_url :: string
  nc_credentials :: string
  nc_stream :: string
  nc_retention :: duration
  nc_dedup_window :: duration
  nc_ack_wait :: duration
  nc_nak_delay_min :: duration
  nc_nak_delay_max :: duration

definition nats_default_config :: nats_config where
  "nats_default_config = \<lparr>nc_embedded = True, nc_store_dir = ''./data/nats'', nc_url = [],
     nc_credentials = [], nc_stream = ''ANTWATCHER'', nc_retention = 168 * hour,
     nc_dedup_window = 2 * hour, nc_ack_wait = 90 * second, nc_nak_delay_min = 5 * second,
     nc_nak_delay_max = 5 * minute\<rparr>"

definition add_if :: "bool \<Rightarrow> string \<Rightarrow> goerr list" where
  "add_if c m = (if c then [Msg m] else [])"

definition nats_config_errors :: "nats_config \<Rightarrow> goerr list" where
  "nats_config_errors c =
     (if nc_embedded c then add_if (nc_store_dir c = []) ''store_dir is required when embedded is true''
      else add_if (nc_url c = []) ''url is required when embedded is false'')
     @ (if nc_stream c = [] then [Msg ''stream is required'']
        else add_if (\<not> list_all consumer_char (nc_stream c)) ''stream must match'')
     @ add_if (nc_retention c < min_window) ''retention''
     @ (if nc_dedup_window c < 0 then [Msg ''dedup_window must be >= 0'']
        else if 0 < nc_dedup_window c \<and> nc_dedup_window c < min_window then [Msg ''dedup_window'']
        else if nc_retention c < nc_dedup_window c then [Msg ''dedup_window must not exceed retention'']
        else [])
     @ add_if (nc_ack_wait c \<le> 0) ''ack_wait must be > 0''
     @ add_if (nc_nak_delay_min c \<le> 0) ''nak_delay_min must be > 0''
     @ add_if (nc_nak_delay_max c < nc_nak_delay_min c) ''nak_delay_max''"

definition nats_validate :: "nats_config \<Rightarrow> goerr option" where
  "nats_validate c = join_errs (nats_config_errors c)"

definition nats_validate_broker :: "nats_config \<Rightarrow> goerr option" where
  "nats_validate_broker c = nats_validate (c\<lparr>nc_embedded := True, nc_store_dir := ''-''\<rparr>)"

definition nats_validate_with :: "nats_config \<Rightarrow> duration \<Rightarrow> goerr option" where
  "nats_validate_with c process_timeout =
     (let err = nats_validate c
      in if nc_ack_wait c \<le> wrap64 (process_timeout + ack_wait_margin)
         then errors_join [err, Some (Msg ''ack_wait must exceed router.process_timeout'')]
         else err)"

text \<open>\<open>minDelay << shift\<close> is a shift of an \<open>int64\<close>.\<close>

definition shl64 :: "int \<Rightarrow> int \<Rightarrow> int" where "shl64 x n = wrap64 (x * 2 ^ nat n)"

definition nak_delay :: "duration \<Rightarrow> duration \<Rightarrow> int \<Rightarrow> duration" where
  "nak_delay min_delay max_delay delivered =
     (if delivered \<le> 1 then min_delay
      else let shift = delivered - 1
           in if 62 \<le> shift \<or> max_delay < shl64 min_delay shift \<or> shl64 min_delay shift < min_delay
              then max_delay else shl64 min_delay shift)"

section \<open>Publishing\<close>

record nats_msg =
  nm_subject :: string
  nm_header :: "(string, string list) amap"
  nm_data :: string

definition reserved_header_prefix :: string where "reserved_header_prefix = ''Nats-''"
definition msg_id_header :: string where "msg_id_header = ''Nats-Msg-Id''"

record nats_bus =
  nb_cfg :: nats_config
  nb_topic :: string
  nb_closed :: bool
  nb_subs :: "string list"
  nb_acked :: "nats_msg list"

definition nats_capabilities :: "nats_config \<Rightarrow> capabilities" where
  "nats_capabilities cfg = \<lparr>c_durable_publish = True, c_durable_consumers = True, c_fan_out = True,
     c_historical_replay = True, c_deduplicates = (0 < nc_dedup_window cfg), c_reports_lag = True,
     c_retention = retention_time\<rparr>"

definition reserved_key :: "string \<Rightarrow> bool" where
  "reserved_key k \<longleftrightarrow> k = [] \<or> has_prefix reserved_header_prefix k"

definition nats_msg_of :: "string \<Rightarrow> message \<Rightarrow> nats_msg" where
  "nats_msg_of topic m = \<lparr>nm_subject = topic,
     nm_header = AList.update msg_id_header [uuid m]
       (foldr (\<lambda>(k, v) h. AList.update k [v] h) (md_of m) []),
     nm_data = msg_payload m\<rparr>"

text \<open>
  \<open>before\<close> and \<open>after\<close> are the context's error before the call and after a failed publish; \<open>ack\<close> is the
  client's answer, \<open>Inr dup\<close> a PubAck and whether the broker collapsed a duplicate.
\<close>

definition nats_publish ::
  "goerr option \<Rightarrow> goerr + bool \<Rightarrow> goerr option \<Rightarrow> message option \<Rightarrow> nats_bus \<Rightarrow> goerr option \<times> nats_bus" where
  "nats_publish before ack after mo b =
     (case mo of
        None \<Rightarrow> (Some (Msg ''natsjs: nil message''), b)
      | Some msg \<Rightarrow>
          if uuid msg = [] then (Some (Msg ''natsjs: message UUID is required''), b)
          else case before of
            Some e \<Rightarrow> (Some e, b)
          | None \<Rightarrow>
              if nb_closed b then (Some err_closed, b)
              else if list_ex (\<lambda>(k, v). reserved_key k) (md_of msg)
              then (Some (Msg ''natsjs: metadata key is reserved''), b)
              else (case ack of
                  Inl e \<Rightarrow> (case after of
                      Some c \<Rightarrow> (Some (Wrap ''natsjs: publish'' [c]), b)
                    | None \<Rightarrow> (Some (Wrap ''natsjs: publish'' [e]), b))
                | Inr dup \<Rightarrow> (None, b\<lparr>nb_acked := nb_acked b @ [nats_msg_of (nb_topic b) msg]\<rparr>)))"

text \<open>The Watermill message a consumer gets for a JetStream message (\<open>toMessage\<close> in \<open>subscriber.go\<close>).\<close>

definition header_first :: "(string, string list) amap \<Rightarrow> string \<Rightarrow> string" where
  "header_first h k = (case map_of h k of Some (v # vs) \<Rightarrow> v | _ \<Rightarrow> [])"

definition nats_to_message :: "nats_msg \<Rightarrow> message" where
  "nats_to_message jm = \<lparr>uuid = header_first (nm_header jm) msg_id_header,
     metadata = Some (foldr (\<lambda>(k, vs) md.
         if has_prefix reserved_header_prefix k \<or> vs = [] then md
         else AList.update k (hd vs) md) (nm_header jm) []),
     msg_payload = nm_data jm\<rparr>"

section \<open>Consumers\<close>

datatype deliver_policy = DeliverAll | DeliverNew | DeliverOther string

record consumer_config =
  cc_name :: string
  cc_policy :: deliver_policy
  cc_start_seq :: int
  cc_start_time :: "gtime option"
  cc_ack_wait :: duration
  cc_max_deliver :: int

datatype consumer_request = UpdateConsumer consumer_config | CreateConsumer consumer_config

datatype consumer_lookup = ConsumerFound consumer_config | ConsumerNotFound | ConsumerError goerr

text \<open>
  \<open>Subscribe\<close>: the answers are the context's error, the stream lookup, the consumer lookup, and the
  update or creation. The result names the request sent to the broker, if any.
\<close>

definition nats_subscribe ::
  "nats_bus \<Rightarrow> string \<Rightarrow> int \<Rightarrow> goerr option \<Rightarrow> goerr option \<Rightarrow> consumer_lookup \<Rightarrow> goerr option
    \<Rightarrow> (goerr option \<times> consumer_request option) \<times> nats_bus" where
  "nats_subscribe b consumer start ctx_err stream_err lookup change_err =
     (case validate_consumer_name consumer of
        Some e \<Rightarrow> ((Some (Wrap ''natsjs'' [e]), None), b)
      | None \<Rightarrow>
      if \<not> valid_position start then ((Some (Msg ''natsjs: invalid start position''), None), b)
      else case ctx_err of Some e \<Rightarrow> ((Some e, None), b) | None \<Rightarrow>
      (if nb_closed b then ((Some err_closed, None), b)
      else case stream_err of Some e \<Rightarrow> ((Some (Wrap ''natsjs: stream'' [e]), None), b) | None \<Rightarrow>
      (let policy = (if start = earliest then DeliverAll else DeliverNew);
           want = \<lparr>cc_name = consumer, cc_policy = policy, cc_start_seq = 0, cc_start_time = None,
             cc_ack_wait = nc_ack_wait (nb_cfg b), cc_max_deliver = -1\<rparr>;
           done = b\<lparr>nb_subs := nb_subs b @ [consumer]\<rparr>
       in case lookup of
            ConsumerFound info \<Rightarrow>
              let want = want\<lparr>cc_policy := cc_policy info, cc_start_seq := cc_start_seq info,
                    cc_start_time := cc_start_time info\<rparr>
              in if cc_ack_wait info \<noteq> cc_ack_wait want \<or> cc_max_deliver info \<noteq> cc_max_deliver want
                 then (case change_err of
                     Some e \<Rightarrow> ((Some (Wrap ''natsjs: update consumer'' [e]), Some (UpdateConsumer want)), b)
                   | None \<Rightarrow> ((None, Some (UpdateConsumer want)), done))
                 else ((None, None), done)
          | ConsumerNotFound \<Rightarrow>
              (case change_err of
                 Some e \<Rightarrow> ((Some (Wrap ''natsjs: create consumer'' [e]), Some (CreateConsumer want)), b)
               | None \<Rightarrow> ((None, Some (CreateConsumer want)), done))
          | ConsumerError e \<Rightarrow> ((Some (Wrap ''natsjs: consumer'' [e]), None), b))))"

text \<open>\<open>Close\<close> closes every subscriber once and is idempotent; \<open>forget\<close> is a subscriber's own close.\<close>

definition nats_close :: "nats_bus \<Rightarrow> string list \<times> nats_bus" where
  "nats_close b = (if nb_closed b then ([], b) else (nb_subs b, b\<lparr>nb_closed := True, nb_subs := []\<rparr>))"

definition nats_forget :: "string \<Rightarrow> nats_bus \<Rightarrow> nats_bus" where
  "nats_forget s b = b\<lparr>nb_subs := remove1 s (nb_subs b)\<rparr>"

definition nats_lag :: "nats_bus \<Rightarrow> goerr + int \<times> int \<Rightarrow> goerr + int" where
  "nats_lag b info = (if nb_closed b then Inl err_closed
     else case info of Inl e \<Rightarrow> Inl (Wrap ''natsjs: consumer'' [e])
       | Inr (pending, ack_pending) \<Rightarrow> Inr (wrap64 (wrap64 pending + ack_pending)))"

text \<open>What the goroutine awaiting one delivered message tells the broker.\<close>

datatype handler_outcome = HandlerAcked | HandlerNacked | AckWaitElapsed
datatype broker_call = DoubleAck | NakWithDelay duration | NakNow

definition nats_sub_nak_delay :: "nats_config \<Rightarrow> int option \<Rightarrow> duration" where
  "nats_sub_nak_delay cfg delivered = (case delivered of
     None \<Rightarrow> nc_nak_delay_min cfg
   | Some n \<Rightarrow> nak_delay (nc_nak_delay_min cfg) (nc_nak_delay_max cfg) n)"

definition nats_await :: "nats_config \<Rightarrow> int option \<Rightarrow> handler_outcome \<Rightarrow> broker_call option" where
  "nats_await cfg delivered out = (case out of
     HandlerAcked \<Rightarrow> Some DoubleAck
   | HandlerNacked \<Rightarrow> Some (NakWithDelay (nats_sub_nak_delay cfg delivered))
   | AckWaitElapsed \<Rightarrow> None)"

text \<open>A message that cannot be handed over because the subscription is ending is nacked at once.\<close>

definition nats_deliver ::
  "nats_config \<Rightarrow> int option \<Rightarrow> handler_outcome option \<Rightarrow> broker_call option" where
  "nats_deliver cfg delivered handed = (case handed of
     None \<Rightarrow> Some NakNow
   | Some out \<Rightarrow> nats_await cfg delivered out)"

section \<open>The stream\<close>

record stream_config =
  sc_name :: string
  sc_subjects :: "string list"
  sc_max_age :: duration
  sc_duplicates :: duration

definition nats_stream_config :: "nats_config \<Rightarrow> string \<Rightarrow> stream_config" where
  "nats_stream_config cfg topic = \<lparr>sc_name = nc_stream cfg, sc_subjects = [topic],
     sc_max_age = nc_retention cfg, sc_duplicates = nc_dedup_window cfg\<rparr>"

datatype stream_lookup = StreamFound "string list" | StreamNotFound | StreamError goerr

definition ensure_stream ::
  "nats_config \<Rightarrow> string \<Rightarrow> stream_lookup \<Rightarrow> goerr option \<Rightarrow> goerr option \<times> stream_config option" where
  "ensure_stream cfg topic lookup change_err =
     (let put = (case change_err of
          Some e \<Rightarrow> (Some (Wrap ''natsjs: ensure stream'' [e]), Some (nats_stream_config cfg topic))
        | None \<Rightarrow> (None, Some (nats_stream_config cfg topic)))
      in case lookup of
           StreamFound subjects \<Rightarrow>
             if subjects \<noteq> [topic] then (Some (Msg ''natsjs: stream already carries subjects''), None) else put
         | StreamNotFound \<Rightarrow> put
         | StreamError e \<Rightarrow> (Some (Wrap ''natsjs: look up stream'' [e]), None))"

section \<open>Store directories of embedded servers\<close>

text \<open>\<open>openStores\<close>: the absolute directory of every running server, \<open>None\<close> while it is starting.\<close>

type_synonym stores = "(string, nat option) amap"

definition reserve_store :: "goerr + string \<Rightarrow> stores \<Rightarrow> goerr + string \<times> stores" where
  "reserve_store absd st = (case absd of
     Inl e \<Rightarrow> Inl (Wrap ''natsjs: store_dir'' [e])
   | Inr dir \<Rightarrow> if map_of st dir \<noteq> None
       then Inl (Msg ''natsjs: an embedded server is already running on store_dir'')
       else Inr (dir, AList.update dir None st))"

definition release_store :: "string \<Rightarrow> stores \<Rightarrow> stores" where
  "release_store = AList.delete"

definition start_embedded ::
  "nats_config \<Rightarrow> goerr option \<Rightarrow> goerr + string \<Rightarrow> goerr + nat \<Rightarrow> stores \<Rightarrow> (goerr + nat) \<times> stores" where
  "start_embedded cfg mkdir_err absd start st =
     (if nc_store_dir cfg = [] then (Inl (Msg ''natsjs: store_dir is required''), st)
      else case mkdir_err of
        Some e \<Rightarrow> (Inl (Wrap ''natsjs: create store_dir'' [e]), st)
      | None \<Rightarrow>
          (case reserve_store absd st of
             Inl e \<Rightarrow> (Inl e, st)
           | Inr (dir, st) \<Rightarrow>
               (case start of
                  Inl e \<Rightarrow> (Inl e, release_store dir st)
                | Inr srv \<Rightarrow> (Inr srv, AList.update dir (Some srv) st))))"

definition stop_embedded :: "nat option \<Rightarrow> stores \<Rightarrow> stores" where
  "stop_embedded srv st = (case srv of
     None \<Rightarrow> st
   | Some s \<Rightarrow> (case find (\<lambda>(d, r). r = Some s) st of
       None \<Rightarrow> st | Some (d, r) \<Rightarrow> AList.delete d st))"

section \<open>Lemmas\<close>

subsection \<open>Configuration and the redelivery delay\<close>

lemma add_if_Nil [simp]: "add_if c m = [] \<longleftrightarrow> \<not> c"
  by (simp add: add_if_def)

lemma nats_validate_ok:
  "nats_validate c = None \<Longrightarrow>
     0 < nc_nak_delay_min c \<and> nc_nak_delay_min c \<le> nc_nak_delay_max c \<and> 0 < nc_ack_wait c \<and>
     0 \<le> nc_dedup_window c \<and> nc_dedup_window c \<le> nc_retention c \<and> nc_stream c \<noteq> [] \<and>
     list_all consumer_char (nc_stream c)"
  by (auto simp: nats_validate_def nats_config_errors_def split: if_splits)

lemma nats_default_valid: "nats_validate nats_default_config = None"
  by (simp add: nats_validate_def nats_config_errors_def nats_default_config_def go_simps
      min_window_def consumer_char_def is_alpha_def Let_def)

lemma nats_validate_with_ok:
  "nats_validate_with c t = None \<Longrightarrow> 0 \<le> t \<Longrightarrow> t + ack_wait_margin < 2 ^ 63 \<Longrightarrow>
     nats_validate c = None \<and> t + ack_wait_margin < nc_ack_wait c"
  by (auto simp: nats_validate_with_def Let_def wrap64_id ack_wait_margin_def go_simps split: if_splits)

lemma nak_delay_bounds: "lo \<le> hi \<Longrightarrow> lo \<le> nak_delay lo hi n \<and> nak_delay lo hi n \<le> hi"
  by (auto simp: nak_delay_def Let_def)

lemma nak_delay_first [simp]: "nak_delay lo hi 1 = lo"
  by (simp add: nak_delay_def)

text \<open>As long as the doubled delay fits an \<open>int64\<close>, it is the documented exponential back-off.\<close>

lemma nak_delay_exact:
  assumes "0 < lo" "lo \<le> hi" "1 \<le> n" "n < 63" "lo * 2 ^ nat (n - 1) < 2 ^ 63"
  shows "nak_delay lo hi n = min hi (lo * 2 ^ nat (n - 1))"
proof (cases "n = 1")
  case True
  with assms show ?thesis by simp
next
  case False
  have pos: "lo \<le> lo * 2 ^ nat (n - 1)" using assms(1) by simp
  have "- (2 ^ 63) \<le> lo * 2 ^ nat (n - 1)" using assms(1) by (intro order_trans [OF _ pos]) simp
  then have "shl64 lo (n - 1) = lo * 2 ^ nat (n - 1)"
    unfolding shl64_def by (rule wrap64_id) (rule assms(5))
  moreover have "\<not> (2 :: int) ^ nat (n - 1) < 1" by (simp add: not_less)
  ultimately show ?thesis using assms pos False by (simp add: nak_delay_def Let_def)
qed

lemma nak_delay_late: "63 \<le> n \<Longrightarrow> nak_delay lo hi n = hi"
  by (simp add: nak_delay_def)

subsection \<open>Publishing\<close>

lemma map_of_foldr_headers:
  "map_of (foldr (\<lambda>(k, v) h. AList.update k [v] h) md []) k = map_option (\<lambda>v. [v]) (map_of md k)"
  by (induction md) auto

definition headers_ok :: "(string, string list) amap \<Rightarrow> bool" where
  "headers_ok h \<longleftrightarrow> list_all (\<lambda>e. snd e \<noteq> []) h"

lemma headers_ok_update: "headers_ok h \<Longrightarrow> vs \<noteq> [] \<Longrightarrow> headers_ok (AList.update k vs h)"
  by (induction h) (auto simp: headers_ok_def)

lemma headers_ok_foldr: "headers_ok (foldr (\<lambda>(k, v) h. AList.update k [v] h) md [])"
  by (induction md) (auto simp: headers_ok_update, simp add: headers_ok_def)

lemma map_of_foldr_meta:
  assumes "headers_ok h"
  shows "map_of (foldr (\<lambda>(k, vs) md. if has_prefix reserved_header_prefix k \<or> vs = [] then md
       else AList.update k (hd vs) md) h []) k =
     (if has_prefix reserved_header_prefix k then None else map_option hd (map_of h k))"
  using assms by (induction h) (auto simp: headers_ok_def split: if_splits)

lemma not_reserved_lookup:
  assumes "\<not> list_ex (\<lambda>(k, v). reserved_key k) md" and "map_of md k = Some v"
  shows "\<not> reserved_key k"
  using assms by (auto simp: list_ex_iff dest: map_of_SomeD)

text \<open>What a consumer gets back for a published message: the same id, payload and metadata.\<close>

lemma nats_roundtrip:
  assumes free: "\<not> list_ex (\<lambda>(k, v). reserved_key k) (md_of m)"
  shows "uuid (nats_to_message (nats_msg_of topic m)) = uuid m"
    and "msg_payload (nats_to_message (nats_msg_of topic m)) = msg_payload m"
    and "map_of (md_of (nats_to_message (nats_msg_of topic m))) k = map_of (md_of m) k"
proof -
  let ?h = "nm_header (nats_msg_of topic m)"
  have single: "headers_ok ?h"
    by (simp add: nats_msg_of_def headers_ok_update headers_ok_foldr)
  have look: "map_of ?h k' = (if k' = msg_id_header then Some [uuid m]
      else map_option (\<lambda>v. [v]) (map_of (md_of m) k'))" for k'
    by (simp add: nats_msg_of_def map_of_foldr_headers)
  show "uuid (nats_to_message (nats_msg_of topic m)) = uuid m"
    by (simp add: nats_to_message_def header_first_def look)
  show "msg_payload (nats_to_message (nats_msg_of topic m)) = msg_payload m"
    by (simp add: nats_to_message_def nats_msg_of_def)
  have meta: "map_of (md_of (nats_to_message (nats_msg_of topic m))) k =
      (if has_prefix reserved_header_prefix k then None else map_option hd (map_of ?h k))"
    using map_of_foldr_meta [OF single] by (simp add: nats_to_message_def md_of_def)
  show "map_of (md_of (nats_to_message (nats_msg_of topic m))) k = map_of (md_of m) k"
  proof (cases "has_prefix reserved_header_prefix k")
    case True
    then have "reserved_key k" by (simp add: reserved_key_def)
    then have "map_of (md_of m) k = None"
      using not_reserved_lookup [OF free] by (cases "map_of (md_of m) k") auto
    with meta True show ?thesis by simp
  next
    case False
    then have "k \<noteq> msg_id_header"
      by (auto simp: has_prefix_def reserved_header_prefix_def msg_id_header_def)
    with meta False look show ?thesis by (simp add: option.map_comp o_def option.map_ident)
  qed
qed

lemma same_content_nats:
  assumes "\<not> list_ex (\<lambda>(k, v). reserved_key k) (md_of m)"
  shows "same_content m (nats_to_message (nats_msg_of topic m))"
  by (rule same_contentI) (rule nats_roundtrip [OF assms])+

text \<open>
  The environment of a publish is the context's error before and after and the client's answer; the
  messages kept are those the broker acknowledged, as a consumer receives them.
\<close>

interpretation nats: publisher
  "\<lambda>(before, ack, after) m b. nats_publish before ack after (Some m) b"
  "\<lambda>b. map nats_to_message (nb_acked b)"
proof unfold_locales
  fix env m b b'
  assume "(case env of (x, a, y) \<Rightarrow> \<lambda>m b. nats_publish x a y (Some m) b) m b = (None, b')"
  then show "\<exists>m'. map nats_to_message (nb_acked b') = map nats_to_message (nb_acked b) @ [m'] \<and> same_content m m'"
    using same_content_nats
    by (auto simp: nats_publish_def split: prod.splits option.splits sum.splits if_splits)
next
  fix env m b e b'
  assume "(case env of (x, a, y) \<Rightarrow> \<lambda>m b. nats_publish x a y (Some m) b) m b = (Some e, b')"
  then show "map nats_to_message (nb_acked b') = map nats_to_message (nb_acked b)"
    by (auto simp: nats_publish_def split: prod.splits option.splits sum.splits if_splits)
qed

subsection \<open>Consumers and streams\<close>

lemma nats_subscribe_keeps_policy:
  assumes "nats_subscribe b name start ctx_err stream_err (ConsumerFound info) change_err = ((r, Some req), b')"
  shows "\<exists>want. req = UpdateConsumer want \<and> cc_policy want = cc_policy info \<and>
    cc_start_seq want = cc_start_seq info \<and> cc_start_time want = cc_start_time info \<and>
    cc_ack_wait want = nc_ack_wait (nb_cfg b) \<and> cc_max_deliver want = -1"
  using assms by (auto simp: nats_subscribe_def Let_def split: option.splits if_splits)

lemma nats_subscribe_creates:
  assumes "nats_subscribe b name start ctx_err stream_err ConsumerNotFound change_err = ((None, req), b')"
  shows "\<exists>want. req = Some (CreateConsumer want) \<and> cc_name want = name \<and> cc_max_deliver want = -1 \<and>
    cc_policy want = (if start = earliest then DeliverAll else DeliverNew)"
  using assms by (auto simp: nats_subscribe_def Let_def split: option.splits if_splits)

lemma nats_subscribe_closed:
  "nb_closed b \<Longrightarrow> validate_consumer_name name = None \<Longrightarrow> valid_position start \<Longrightarrow>
     nats_subscribe b name start None se l ce = ((Some err_closed, None), b)"
  by (simp add: nats_subscribe_def)

lemma nats_close_idempotent: "nats_close (snd (nats_close b)) = ([], snd (nats_close b))"
  by (simp add: nats_close_def)

lemma ensure_stream_foreign:
  "subjects \<noteq> [topic] \<Longrightarrow> \<exists>e. ensure_stream cfg topic (StreamFound subjects) ce = (Some e, None)"
  by (simp add: ensure_stream_def)

lemma ensure_stream_request:
  "ensure_stream cfg topic l ce = (r, Some sc) \<Longrightarrow> sc_subjects sc = [topic] \<and> sc_name sc = nc_stream cfg"
  by (auto simp: ensure_stream_def nats_stream_config_def Let_def
      split: stream_lookup.splits option.splits if_splits)

subsection \<open>Store directories\<close>

lemma start_embedded_exclusive:
  assumes "start_embedded cfg me (Inr dir) start st = (Inr srv, st')"
  shows "map_of st dir = None" and "map_of st' = (map_of st)(dir \<mapsto> Some srv)"
  using assms
  by (auto simp: start_embedded_def reserve_store_def split: option.splits sum.splits if_splits)

lemma start_embedded_failed:
  assumes "start_embedded cfg me absd start st = (Inl e, st')" and "wf_amap st"
  shows "map_of st' = map_of st"
  using assms
  by (auto simp: start_embedded_def reserve_store_def release_store_def fun_eq_iff
      split: option.splits sum.splits if_splits)

lemma start_embedded_taken:
  "map_of st dir \<noteq> None \<Longrightarrow> \<exists>e. start_embedded cfg me (Inr dir) start st = (Inl e, st)"
  by (auto simp: start_embedded_def reserve_store_def split: option.splits)

section \<open>Properties\<close>

text \<open>
  C15: the redelivery delay always lies between the configured bounds, and while the doubled delay fits
  an int64 it is the documented back-off: the minimum doubled once per extra delivery, capped at the
  maximum, and the maximum from the 63rd delivery on.
\<close>

theorem nak_delay_backoff:
  assumes "0 < lo" and "lo \<le> hi" and "1 \<le> n"
  shows "lo \<le> nak_delay lo hi n \<and> nak_delay lo hi n \<le> hi \<and>
    (n < 63 \<longrightarrow> lo * 2 ^ nat (n - 1) < 2 ^ 63 \<longrightarrow> nak_delay lo hi n = min hi (lo * 2 ^ nat (n - 1))) \<and>
    (63 \<le> n \<longrightarrow> nak_delay lo hi n = hi)"
  using nak_delay_bounds [OF assms(2)] nak_delay_exact [OF assms] nak_delay_late by blast

theorem nak_delay_backoff_witness: "nak_delay (5 * second) (5 * minute) 3 = 20 * second"
  using nak_delay_backoff [of "5 * second" "5 * minute" 3] by (simp add: go_simps)


end
