(* ===== verification/Receiver.thy ===== *)
theory Receiver
  imports GoSha GoChannel NatsJs
begin

text \<open>
  Package \<open>receiver\<close> (\<open>internal/receiver/handler.go\<close>): the webhook handler. It reads a bounded body,
  verifies GitHub's signature, answers a ping, builds the envelope, publishes it and only then
  answers 2xx. The handler is a client of the publishing contract: its publish function and the bus
  are parameters, and the facts about it are proved once in the locale and used on both drivers.
\<close>

section \<open>Signatures\<close>

definition header_signature :: string where "header_signature = ''X-Hub-Signature-256''"
definition signature_prefix :: string where "signature_prefix = ''sha256=''"
definition event_ping :: string where "event_ping = ''ping''"
definition unknown_event :: string where "unknown_event = ''unknown''"

definition verify_signature :: "string \<Rightarrow> string \<Rightarrow> string \<Rightarrow> bool" where
  "verify_signature secret header body =
     (if secret = [] \<or> \<not> has_prefix signature_prefix header then False
      else case hex_decode (trim_prefix signature_prefix header) of
          None \<Rightarrow> False
        | Some got \<Rightarrow> got = hmac_sha256 secret body)"

definition sign :: "string \<Rightarrow> string \<Rightarrow> string" where
  "sign secret body = signature_prefix @ hex_encode (hmac_sha256 secret body)"

lemma verify_sign: "secret \<noteq> [] \<Longrightarrow> verify_signature secret (sign secret body) body"
  by (simp add: verify_signature_def sign_def)

lemma verify_signature_iff:
  "verify_signature secret header body \<longleftrightarrow> secret \<noteq> [] \<and>
     (\<exists>h. header = signature_prefix @ h \<and> hex_decode h = Some (hmac_sha256 secret body))"
  by (auto simp: verify_signature_def has_prefix_iff split: option.splits)

section \<open>The handler\<close>

definition result_published :: string where "result_published = ''published''"
definition result_ping :: string where "result_ping = ''ping''"
definition result_rejected_signature :: string where "result_rejected_signature = ''rejected_signature''"
definition result_bad_request :: string where "result_bad_request = ''bad_request''"
definition result_publish_failed :: string where "result_publish_failed = ''publish_failed''"
definition result_publish_timeout :: string where "result_publish_timeout = ''publish_timeout''"

lemmas result_defs [go_simps] = result_published_def result_ping_def result_rejected_signature_def
  result_bad_request_def result_publish_failed_def result_publish_timeout_def

lemma result_distinct [simp]:
  "result_bad_request \<noteq> result_published" "result_bad_request \<noteq> result_ping"
  "result_rejected_signature \<noteq> result_published" "result_rejected_signature \<noteq> result_ping"
  "result_publish_failed \<noteq> result_published" "result_publish_failed \<noteq> result_ping"
  "result_publish_timeout \<noteq> result_published" "result_publish_timeout \<noteq> result_ping"
  "result_bad_request \<noteq> result_publish_failed" "result_bad_request \<noteq> result_publish_timeout"
  "result_rejected_signature \<noteq> result_publish_failed" "result_rejected_signature \<noteq> result_publish_timeout"
  "result_published \<noteq> result_publish_failed" "result_published \<noteq> result_publish_timeout"
  "result_ping \<noteq> result_publish_failed" "result_ping \<noteq> result_publish_timeout"
  by (simp_all add: result_defs)

record server_config =
  sv_secret :: string
  sv_max_body_bytes :: nat

text \<open>The body as it arrives: complete, or cut off by a read error.\<close>

datatype body_stream = BodyEnd string | BodyFail string

datatype body_read = BodyOk string | BodyTooLarge | BodyError

fun read_body :: "nat \<Rightarrow> body_stream \<Rightarrow> body_read" where
  "read_body limit (BodyEnd s) = (if limit < length s then BodyTooLarge else BodyOk s)"
| "read_body limit (BodyFail s) = (if limit < length s then BodyTooLarge else BodyError)"

record request =
  rq_header :: header
  rq_body :: body_stream

record response =
  rs_code :: int
  rs_error :: "string option"
  rs_delivery :: string
  rs_ping :: bool

definition write_error :: "int \<Rightarrow> string \<Rightarrow> string \<Rightarrow> response" where
  "write_error code msg guid = \<lparr>rs_code = code, rs_error = Some msg, rs_delivery = guid, rs_ping = False\<rparr>"

definition label_event :: "string \<Rightarrow> string" where
  "label_event name = (if name = [] then unknown_event else name)"

text \<open>
  The state is the bus and the samples of \<open>antwatcher_webhooks_total\<close> recorded so far. \<open>ctx_after\<close> is
  the request context's error once the publish has returned.
\<close>

definition serve_webhook ::
  "(message \<Rightarrow> 's \<Rightarrow> goerr option \<times> 's) \<Rightarrow> goerr option \<Rightarrow> server_config \<Rightarrow> gtime \<Rightarrow> request
    \<Rightarrow> 's \<times> (string \<times> string) list \<Rightarrow> response \<times> 's \<times> (string \<times> string) list" where
  "serve_webhook pub ctx_after cfg start r st =
     (let (bus, samples) = st;
          count = (\<lambda>ev res. samples @ [(ev, res)])
      in case read_body (sv_max_body_bytes cfg) (rq_body r) of
        BodyTooLarge \<Rightarrow> (write_error 413 ''body exceeds max_body_bytes'' [], bus, count unknown_event result_bad_request)
      | BodyError \<Rightarrow> (write_error 400 ''read body'' [], bus, count unknown_event result_bad_request)
      | BodyOk body \<Rightarrow>
      if \<not> verify_signature (sv_secret cfg) (header_get (rq_header r) header_signature) body
      then (write_error 401 ''invalid or missing X-Hub-Signature-256'' [], bus,
            count unknown_event result_rejected_signature)
      else
      let guid = trim_space (header_get (rq_header r) header_delivery);
          event_name = trim_space (header_get (rq_header r) header_event)
      in if event_name = event_ping
      then (\<lparr>rs_code = 200, rs_error = None, rs_delivery = guid, rs_ping = True\<rparr>, bus,
            count event_ping result_ping)
      else case from_webhook (rq_header r) body start of
        Inl e \<Rightarrow> (write_error 400 (err_text e) guid, bus, count (label_event event_name) result_bad_request)
      | Inr env \<Rightarrow>
      (case pub (to_message env) bus of
        (Some e, bus) \<Rightarrow>
          let timeout = is_ctx_err DeadlineExceeded e \<or>
                (case ctx_after of None \<Rightarrow> False | Some c \<Rightarrow> is_ctx_err DeadlineExceeded c)
          in (write_error 503 ''publish failed'' (delivery_guid env), bus,
              count (ev_event env) (if timeout then result_publish_timeout else result_publish_failed))
      | (None, bus) \<Rightarrow>
          (\<lparr>rs_code = 200, rs_error = None, rs_delivery = delivery_guid env, rs_ping = False\<rparr>, bus,
           count (ev_event env) result_published)))"

section \<open>Lemmas\<close>

text \<open>Every exit path records exactly one sample, and the response goes with it.\<close>

lemma serve_webhook_cases:
  assumes "serve_webhook pub ctx cfg start r (bus, samples) = (resp, bus', samples')"
  obtains
    (rejected) ev res where "samples' = samples @ [(ev, res)]" "bus' = bus"
      "rs_code resp \<in> {400, 401, 413}" "res = result_bad_request \<or> res = result_rejected_signature"
  | (ping) body where "samples' = samples @ [(event_ping, result_ping)]" "bus' = bus"
      "rs_code resp = 200" "rs_ping resp" "read_body (sv_max_body_bytes cfg) (rq_body r) = BodyOk body"
      "verify_signature (sv_secret cfg) (header_get (rq_header r) header_signature) body"
  | (failed) body env e res where "samples' = samples @ [(ev_event env, res)]"
      "pub (to_message env) bus = (Some e, bus')" "rs_code resp = 503"
      "res = result_publish_failed \<or> res = result_publish_timeout"
      "read_body (sv_max_body_bytes cfg) (rq_body r) = BodyOk body"
      "verify_signature (sv_secret cfg) (header_get (rq_header r) header_signature) body"
      "from_webhook (rq_header r) body start = Inr env"
  | (published) body env where "samples' = samples @ [(ev_event env, result_published)]"
      "pub (to_message env) bus = (None, bus')" "rs_code resp = 200" "\<not> rs_ping resp"
      "rs_delivery resp = delivery_guid env"
      "read_body (sv_max_body_bytes cfg) (rq_body r) = BodyOk body"
      "verify_signature (sv_secret cfg) (header_get (rq_header r) header_signature) body"
      "from_webhook (rq_header r) body start = Inr env"
proof -
  let ?h = "rq_header r"
  show thesis
  proof (cases "read_body (sv_max_body_bytes cfg) (rq_body r)")
    case (BodyOk body)
    show thesis
    proof (cases "verify_signature (sv_secret cfg) (header_get ?h header_signature) body")
      case False
      with BodyOk assms show thesis
        by (intro rejected) (auto simp: serve_webhook_def write_error_def)
    next
      case v: True
      show thesis
      proof (cases "trim_space (header_get ?h header_event) = event_ping")
        case True
        with BodyOk v assms show thesis by (intro ping) (auto simp: serve_webhook_def)
      next
        case noping: False
        show thesis
        proof (cases "from_webhook ?h body start")
          case (Inl e)
          with BodyOk v noping assms show thesis
            by (intro rejected) (auto simp: serve_webhook_def write_error_def)
        next
          case (Inr env)
          obtain err b where p: "pub (to_message env) bus = (err, b)" by fastforce
          show thesis
          proof (cases err)
            case None
            with BodyOk v noping Inr p assms show thesis
              by (intro published) (auto simp: serve_webhook_def)
          next
            case (Some e)
            with BodyOk v noping Inr p assms show thesis
              by (intro failed) (auto simp: serve_webhook_def write_error_def Let_def)
          qed
        qed
      qed
    qed
  next
    case BodyTooLarge
    with assms show thesis by (intro rejected) (auto simp: serve_webhook_def write_error_def)
  next
    case BodyError
    with assms show thesis by (intro rejected) (auto simp: serve_webhook_def write_error_def)
  qed
qed

lemma serve_webhook_one_sample:
  assumes "serve_webhook pub ctx cfg start r (bus, samples) = (resp, bus', samples')"
  shows "\<exists>ev res. samples' = samples @ [(ev, res)] \<and>
    (rs_code resp = 200 \<longleftrightarrow> res = result_published \<or> res = result_ping) \<and>
    (rs_code resp = 503 \<longleftrightarrow> res = result_publish_failed \<or> res = result_publish_timeout)"
  using assms
proof (cases rule: serve_webhook_cases)
  case (rejected ev res)
  then show ?thesis by (elim disjE insertE emptyE) simp_all
next
  case (ping body)
  then show ?thesis by simp
next
  case (failed body env e res)
  then show ?thesis by (elim disjE) simp_all
next
  case (published body env)
  then show ?thesis by simp
qed

text \<open>A request whose signature does not verify reaches neither the bus nor a metric series of its own.\<close>

lemma serve_webhook_unauthenticated:
  assumes "serve_webhook pub ctx cfg start r (bus, samples) = (resp, bus', samples')"
    and "\<And>body. read_body (sv_max_body_bytes cfg) (rq_body r) = BodyOk body \<Longrightarrow>
      \<not> verify_signature (sv_secret cfg) (header_get (rq_header r) header_signature) body"
  shows "bus' = bus \<and> rs_code resp \<in> {400, 401, 413} \<and>
    (\<exists>res. samples' = samples @ [(unknown_event, res)])"
proof (cases "read_body (sv_max_body_bytes cfg) (rq_body r)")
  case (BodyOk body)
  with assms(2) have "\<not> verify_signature (sv_secret cfg) (header_get (rq_header r) header_signature) body"
    by blast
  with BodyOk assms(1) show ?thesis by (auto simp: serve_webhook_def write_error_def)
next
  case BodyTooLarge
  with assms(1) show ?thesis by (auto simp: serve_webhook_def write_error_def)
next
  case BodyError
  with assms(1) show ?thesis by (auto simp: serve_webhook_def write_error_def)
qed

context publisher
begin

text \<open>GitHub sees a 2xx for an event only once the bus keeps a message that carries it.\<close>

lemma served_2xx_kept:
  assumes "serve_webhook (publish env) ctx cfg start r (s, samples) = (resp, s', samples')"
    and "rs_code resp = 200" and "\<not> rs_ping resp"
  shows "\<exists>body ev m. read_body (sv_max_body_bytes cfg) (rq_body r) = BodyOk body \<and>
    verify_signature (sv_secret cfg) (header_get (rq_header r) header_signature) body \<and>
    from_webhook (rq_header r) body start = Inr ev \<and>
    m \<in> set (kept s') \<and> same_content (to_message ev) m \<and> rs_delivery resp = delivery_guid ev"
  using assms
proof (cases rule: serve_webhook_cases)
  case (published body ev)
  from publish_kept [OF published(2)] published show ?thesis by blast
qed (use assms in auto)

lemma served_kept_mono:
  assumes "serve_webhook (publish env) ctx cfg start r (s, samples) = (resp, s', samples')"
  shows "set (kept s) \<subseteq> set (kept s')"
  using assms by (cases rule: serve_webhook_cases) (auto dest: publish_mono)

end

text \<open>
  A delivery the handler accepts but whose message no sink accepts: a negative repository id is
  written to the metadata and \<open>FromMessage\<close> refuses it.
\<close>

lemma from_to_message_negative_repository:
  assumes "schema_version env = schema_version_current" "delivery_guid env \<noteq> []" "ev_event env \<noteq> []"
    "rfc3339_range (received_at env)" "repository_id env < 0"
  shows "\<exists>e. from_message (Some (to_message env)) = Inl e"
proof (rule ccontr)
  assume "\<not> ?thesis"
  then obtain env' where ok: "from_message (Some (to_message env)) = Inr env'"
    by (cases "from_message (Some (to_message env))") auto
  obtain md where m: "metadata (to_message env) = Some md"
    and k: "map_of md meta_repository_id =
      (if repository_id env = 0 then None else Some (format_int (repository_id env)))"
    by (rule to_message_metadata)
  have "\<exists>e. nonneg_meta md meta_repository_id = Inl e"
    using assms(5) k by (auto simp: nonneg_meta_def parse_int64_def)
  with ok m show False
    by (auto simp: from_message_def Let_def split: option.splits sum.splits if_splits)
qed

section \<open>Properties\<close>


definition sample_header :: "string \<Rightarrow> header" where
  "sample_header body = [(header_signature, sign ''key'' body), (header_delivery, ''g-1''), (header_event, ''push'')]"

definition sample_bus :: nats_bus where
  "sample_bus = \<lparr>nb_cfg = nats_default_config, nb_topic = ''github.events'', nb_closed = False,
     nb_subs = [], nb_acked = []\<rparr>"

lemma sample_served:
  assumes "start = 5"
  shows "serve_webhook (\<lambda>m b. nats_publish None (Inr False) None (Some m) b) None
    \<lparr>sv_secret = ''key'', sv_max_body_bytes = 100\<rparr> start
    \<lparr>rq_header = sample_header ''{}'', rq_body = BodyEnd ''{}''\<rparr> (sample_bus, []) =
    (\<lparr>rs_code = 200, rs_error = None, rs_delivery = ''g-1'', rs_ping = False\<rparr>,
     sample_bus\<lparr>nb_acked := [nats_msg_of ''github.events'' (to_message (sample_envelope\<lparr>ev_event := ''push'',
       ev_action := [], received_at := start, repository_id := 0, repository := []\<rparr>))]\<rparr>,
     [(''push'', result_published)])"
proof -
  have ver: "verify_signature ''key'' (header_get (sample_header ''{}'') header_signature) ''{}''"
    by (simp add: sample_header_def header_get_def verify_sign)
  have ev: "trim_space (header_get (sample_header ''{}'') header_event) = ''push''"
    "trim_space (header_get (sample_header ''{}'') header_delivery) = ''g-1''"
    "trim_space (header_get (sample_header ''{}'') header_hook_id) = []"
    by (simp_all add: sample_header_def header_get_def header_signature_def header_event_def
        header_delivery_def header_hook_id_def trim_space_def is_space_def Let_def)
  have head: "unmarshal_head ''{}'' = Some \<lparr>ph_action = [], ph_repository = None\<rparr>" by code_simp
  have trim: "trim_space ''{}'' = ''{}''" by code_simp
  have built: "from_webhook (sample_header ''{}'') ''{}'' start = Inr (sample_envelope\<lparr>ev_event := ''push'',
       ev_action := [], received_at := start, repository_id := 0, repository := []\<rparr>)"
    by (simp add: from_webhook_def ev trim head Let_def empty_envelope_def sample_envelope_def
        schema_version_current_def)
  have "md_of (to_message (sample_envelope\<lparr>ev_event := ''push'',
       ev_action := [], received_at := start, repository_id := 0, repository := []\<rparr>)) =
    [(meta_delivery_guid, ''g-1''), (meta_schema_version, format_int 1), (meta_event, ''push''),
     (meta_received_at, format_rfc3339 start)]"
    by (simp add: md_of_def to_message_def set_if_def sample_envelope_def Let_def meta_keys)
  then have free: "\<not> list_ex (\<lambda>(k, v). reserved_key k) (md_of (to_message (sample_envelope\<lparr>ev_event := ''push'',
       ev_action := [], received_at := start, repository_id := 0, repository := []\<rparr>)))"
    by (simp add: reserved_key_def reserved_header_prefix_def has_prefix_def meta_keys)
  have "uuid (to_message (sample_envelope\<lparr>ev_event := ''push'',
       ev_action := [], received_at := start, repository_id := 0, repository := []\<rparr>)) = ''g-1''"
    by (simp add: sample_envelope_def)
  with free have pub: "nats_publish None (Inr False) None (Some (to_message (sample_envelope\<lparr>ev_event := ''push'',
       ev_action := [], received_at := start, repository_id := 0, repository := []\<rparr>))) sample_bus =
    (None, sample_bus\<lparr>nb_acked := [nats_msg_of ''github.events'' (to_message (sample_envelope\<lparr>ev_event := ''push'',
       ev_action := [], received_at := start, repository_id := 0, repository := []\<rparr>))]\<rparr>)"
    by (simp add: nats_publish_def sample_bus_def)
  show ?thesis
    using ver ev built pub
    by (simp add: serve_webhook_def event_ping_def sample_envelope_def Let_def)
qed


text \<open>
  C20: a request whose body is too large, unreadable or not signed with the secret changes nothing on
  the bus, is answered 413, 400 or 401, and is counted under the event name unknown whatever its
  headers say. Every request, this one included, records exactly one sample.
\<close>

theorem webhook_unauthenticated:
  assumes "serve_webhook pub ctx cfg start r (bus, samples) = (resp, bus', samples')"
    and "\<And>body. read_body (sv_max_body_bytes cfg) (rq_body r) = BodyOk body \<Longrightarrow>
      \<not> verify_signature (sv_secret cfg) (header_get (rq_header r) header_signature) body"
  shows "bus' = bus \<and> rs_code resp \<in> {400, 401, 413} \<and>
    (\<exists>res. samples' = samples @ [(unknown_event, res)])"
  by (rule serve_webhook_unauthenticated [OF assms])

theorem webhook_unauthenticated_witness:
  "\<exists>resp bus' samples'. serve_webhook (\<lambda>m b. nats_publish None (Inr False) None (Some m) b) None
    \<lparr>sv_secret = ''key'', sv_max_body_bytes = 100\<rparr> 5
    \<lparr>rq_header = [], rq_body = BodyEnd ''{}''\<rparr> (sample_bus, []) = (resp, bus', samples') \<and> bus' = sample_bus"
proof -
  let ?r = "\<lparr>rq_header = [], rq_body = BodyEnd ''{}''\<rparr>"
  let ?cfg = "\<lparr>sv_secret = ''key'', sv_max_body_bytes = 100\<rparr>"
  obtain resp bus' samples' where s:
    "serve_webhook (\<lambda>m b. nats_publish None (Inr False) None (Some m) b) None ?cfg 5 ?r (sample_bus, [])
      = (resp, bus', samples')" using prod_cases3 by blast
  have "\<not> verify_signature (sv_secret ?cfg) (header_get (rq_header ?r) header_signature) body" for body
    by (simp add: verify_signature_def header_get_def has_prefix_def signature_prefix_def)
  from webhook_unauthenticated [OF s this] s show ?thesis by blast
qed



end
