(* ===== verification/Model.thy ===== *)
theory Model
  imports Event GoSha
begin

text \<open>
  Package \<open>model\<close> (\<open>internal/model\<close>): the canonical Run, Job and Step, \<open>Normalize\<close> which builds an
  \<open>Execution\<close> from an envelope, \<open>StatusRank\<close>, the event times, and the deterministic trace, span and
  record identifiers.
\<close>

section \<open>Status ranks\<close>

definition status_completed :: string where "status_completed = ''completed''"
definition status_in_progress :: string where "status_in_progress = ''in_progress''"
definition status_queued :: string where "status_queued = ''queued''"
definition status_waiting :: string where "status_waiting = ''waiting''"
definition status_requested :: string where "status_requested = ''requested''"
definition status_pending :: string where "status_pending = ''pending''"

lemmas status_defs [go_simps] = status_completed_def status_in_progress_def status_queued_def
  status_waiting_def status_requested_def status_pending_def

definition status_rank :: "string \<Rightarrow> int" where
  "status_rank s = (if s = status_completed then 3
     else if s = status_in_progress then 2
     else if s \<in> set [status_queued, status_waiting, status_requested, status_pending] then 1
     else 0)"

section \<open>Entities\<close>

datatype exec_kind = KindNone | KindRun | KindJob

fun kind_string :: "exec_kind \<Rightarrow> string" where
  "kind_string KindNone = ''none''"
| "kind_string KindRun = ''run''"
| "kind_string KindJob = ''job''"

record run =
  r_repository_id :: int
  r_repository :: string
  r_workflow_id :: int
  r_workflow_name :: "string option"
  r_workflow_path :: string
  r_run_id :: int
  r_run_number :: int
  r_run_attempt :: int
  r_status :: string
  r_conclusion :: "string option"
  r_created_at :: gtime
  r_updated_at :: gtime
  r_started_at :: "gtime option"
  r_trigger_event :: string
  r_head_branch :: "string option"
  r_head_sha :: string
  r_actor :: "string option"
  r_html_url :: string

record step =
  s_number :: int
  s_name :: string
  s_status :: string
  s_conclusion :: "string option"
  s_started_at :: "gtime option"
  s_completed_at :: "gtime option"

text \<open>\<open>Labels\<close> and \<open>Steps\<close> are slices; nil and empty labels are told apart, as JSON encodes them apart.\<close>

record job =
  j_repository_id :: int
  j_repository :: string
  j_run_id :: int
  j_run_attempt :: int
  j_job_id :: int
  j_name :: string
  j_workflow_name :: "string option"
  j_status :: string
  j_conclusion :: "string option"
  j_created_at :: gtime
  j_started_at :: "gtime option"
  j_completed_at :: "gtime option"
  j_runner_name :: "string option"
  j_runner_group :: "string option"
  j_labels :: "string list option"
  j_head_branch :: "string option"
  j_head_sha :: string
  j_html_url :: string
  j_steps :: "step list"

record execution =
  x_kind :: exec_kind
  x_run :: "run option"
  x_job :: "job option"
  x_envelope :: envelope

section \<open>Webhook payloads\<close>

definition event_workflow_run :: string where "event_workflow_run = ''workflow_run''"
definition event_workflow_job :: string where "event_workflow_job = ''workflow_job''"

definition err_malformed :: goerr where "err_malformed = Sentinel ''malformed payload''"

record raw_repository =
  rr_id :: int
  rr_full_name :: string

definition dec_raw_repository :: "raw_repository decoder" where
  "dec_raw_repository = dec_struct
     [(''id'', set_field rr_id (\<lambda>x r. r\<lparr>rr_id := x\<rparr>) dec_int64),
      (''full_name'', set_field rr_full_name (\<lambda>x r. r\<lparr>rr_full_name := x\<rparr>) dec_string)]"

definition zero_repository :: raw_repository where
  "zero_repository = \<lparr>rr_id = 0, rr_full_name = []\<rparr>"

abbreviation dec_pstring :: "string option decoder" where "dec_pstring \<equiv> dec_ptr [] dec_string"
abbreviation dec_ptime :: "gtime option decoder" where "dec_ptime \<equiv> dec_ptr 0 dec_time"

text \<open>An actor is reduced to its login.\<close>

definition dec_raw_actor :: "string decoder" where
  "dec_raw_actor = dec_struct [(''login'', dec_string)]"

record raw_run =
  wr_id :: int
  wr_name :: "string option"
  wr_path :: string
  wr_run_number :: int
  wr_run_attempt :: int
  wr_event :: string
  wr_status :: "string option"
  wr_conclusion :: "string option"
  wr_workflow_id :: int
  wr_created_at :: gtime
  wr_updated_at :: gtime
  wr_run_started_at :: "gtime option"
  wr_head_branch :: "string option"
  wr_head_sha :: string
  wr_actor :: "string option"
  wr_html_url :: string

definition zero_raw_run :: raw_run where
  "zero_raw_run = \<lparr>wr_id = 0, wr_name = None, wr_path = [], wr_run_number = 0, wr_run_attempt = 0,
     wr_event = [], wr_status = None, wr_conclusion = None, wr_workflow_id = 0, wr_created_at = 0,
     wr_updated_at = 0, wr_run_started_at = None, wr_head_branch = None, wr_head_sha = [],
     wr_actor = None, wr_html_url = []\<rparr>"

definition dec_raw_run :: "raw_run decoder" where
  "dec_raw_run = dec_struct
     [(''id'', set_field wr_id (\<lambda>x r. r\<lparr>wr_id := x\<rparr>) dec_int64),
      (''name'', set_field wr_name (\<lambda>x r. r\<lparr>wr_name := x\<rparr>) dec_pstring),
      (''path'', set_field wr_path (\<lambda>x r. r\<lparr>wr_path := x\<rparr>) dec_string),
      (''run_number'', set_field wr_run_number (\<lambda>x r. r\<lparr>wr_run_number := x\<rparr>) dec_int64),
      (''run_attempt'', set_field wr_run_attempt (\<lambda>x r. r\<lparr>wr_run_attempt := x\<rparr>) dec_int64),
      (''event'', set_field wr_event (\<lambda>x r. r\<lparr>wr_event := x\<rparr>) dec_string),
      (''status'', set_field wr_status (\<lambda>x r. r\<lparr>wr_status := x\<rparr>) dec_pstring),
      (''conclusion'', set_field wr_conclusion (\<lambda>x r. r\<lparr>wr_conclusion := x\<rparr>) dec_pstring),
      (''workflow_id'', set_field wr_workflow_id (\<lambda>x r. r\<lparr>wr_workflow_id := x\<rparr>) dec_int64),
      (''created_at'', set_field wr_created_at (\<lambda>x r. r\<lparr>wr_created_at := x\<rparr>) dec_time),
      (''updated_at'', set_field wr_updated_at (\<lambda>x r. r\<lparr>wr_updated_at := x\<rparr>) dec_time),
      (''run_started_at'', set_field wr_run_started_at (\<lambda>x r. r\<lparr>wr_run_started_at := x\<rparr>) dec_ptime),
      (''head_branch'', set_field wr_head_branch (\<lambda>x r. r\<lparr>wr_head_branch := x\<rparr>) dec_pstring),
      (''head_sha'', set_field wr_head_sha (\<lambda>x r. r\<lparr>wr_head_sha := x\<rparr>) dec_string),
      (''actor'', set_field wr_actor (\<lambda>x r. r\<lparr>wr_actor := x\<rparr>) (dec_ptr [] dec_raw_actor)),
      (''html_url'', set_field wr_html_url (\<lambda>x r. r\<lparr>wr_html_url := x\<rparr>) dec_string)]"

record raw_run_payload =
  rp_run :: "raw_run option"
  rp_run_repository :: "raw_repository option"

definition dec_raw_run_payload :: "raw_run_payload decoder" where
  "dec_raw_run_payload = dec_struct
     [(''workflow_run'', set_field rp_run (\<lambda>x r. r\<lparr>rp_run := x\<rparr>) (dec_ptr zero_raw_run dec_raw_run)),
      (''repository'', set_field rp_run_repository (\<lambda>x r. r\<lparr>rp_run_repository := x\<rparr>)
         (dec_ptr zero_repository dec_raw_repository))]"

record raw_step =
  ws_number :: int
  ws_name :: string
  ws_status :: "string option"
  ws_conclusion :: "string option"
  ws_started_at :: "gtime option"
  ws_completed_at :: "gtime option"

definition zero_raw_step :: raw_step where
  "zero_raw_step = \<lparr>ws_number = 0, ws_name = [], ws_status = None, ws_conclusion = None,
     ws_started_at = None, ws_completed_at = None\<rparr>"

definition dec_raw_step :: "raw_step decoder" where
  "dec_raw_step = dec_struct
     [(''number'', set_field ws_number (\<lambda>x r. r\<lparr>ws_number := x\<rparr>) dec_int64),
      (''name'', set_field ws_name (\<lambda>x r. r\<lparr>ws_name := x\<rparr>) dec_string),
      (''status'', set_field ws_status (\<lambda>x r. r\<lparr>ws_status := x\<rparr>) dec_pstring),
      (''conclusion'', set_field ws_conclusion (\<lambda>x r. r\<lparr>ws_conclusion := x\<rparr>) dec_pstring),
      (''started_at'', set_field ws_started_at (\<lambda>x r. r\<lparr>ws_started_at := x\<rparr>) dec_ptime),
      (''completed_at'', set_field ws_completed_at (\<lambda>x r. r\<lparr>ws_completed_at := x\<rparr>) dec_ptime)]"

record raw_job =
  wj_id :: int
  wj_run_id :: int
  wj_run_attempt :: int
  wj_name :: string
  wj_workflow_name :: "string option"
  wj_status :: "string option"
  wj_conclusion :: "string option"
  wj_created_at :: gtime
  wj_started_at :: "gtime option"
  wj_completed_at :: "gtime option"
  wj_runner_name :: "string option"
  wj_runner_group_name :: "string option"
  wj_labels :: "string list option"
  wj_head_branch :: "string option"
  wj_head_sha :: string
  wj_html_url :: string
  wj_steps :: "raw_step list option"

definition zero_raw_job :: raw_job where
  "zero_raw_job = \<lparr>wj_id = 0, wj_run_id = 0, wj_run_attempt = 0, wj_name = [], wj_workflow_name = None,
     wj_status = None, wj_conclusion = None, wj_created_at = 0, wj_started_at = None,
     wj_completed_at = None, wj_runner_name = None, wj_runner_group_name = None, wj_labels = None,
     wj_head_branch = None, wj_head_sha = [], wj_html_url = [], wj_steps = None\<rparr>"

definition dec_raw_job :: "raw_job decoder" where
  "dec_raw_job = dec_struct
     [(''id'', set_field wj_id (\<lambda>x r. r\<lparr>wj_id := x\<rparr>) dec_int64),
      (''run_id'', set_field wj_run_id (\<lambda>x r. r\<lparr>wj_run_id := x\<rparr>) dec_int64),
      (''run_attempt'', set_field wj_run_attempt (\<lambda>x r. r\<lparr>wj_run_attempt := x\<rparr>) dec_int64),
      (''name'', set_field wj_name (\<lambda>x r. r\<lparr>wj_name := x\<rparr>) dec_string),
      (''workflow_name'', set_field wj_workflow_name (\<lambda>x r. r\<lparr>wj_workflow_name := x\<rparr>) dec_pstring),
      (''status'', set_field wj_status (\<lambda>x r. r\<lparr>wj_status := x\<rparr>) dec_pstring),
      (''conclusion'', set_field wj_conclusion (\<lambda>x r. r\<lparr>wj_conclusion := x\<rparr>) dec_pstring),
      (''created_at'', set_field wj_created_at (\<lambda>x r. r\<lparr>wj_created_at := x\<rparr>) dec_time),
      (''started_at'', set_field wj_started_at (\<lambda>x r. r\<lparr>wj_started_at := x\<rparr>) dec_ptime),
      (''completed_at'', set_field wj_completed_at (\<lambda>x r. r\<lparr>wj_completed_at := x\<rparr>) dec_ptime),
      (''runner_name'', set_field wj_runner_name (\<lambda>x r. r\<lparr>wj_runner_name := x\<rparr>) dec_pstring),
      (''runner_group_name'', set_field wj_runner_group_name (\<lambda>x r. r\<lparr>wj_runner_group_name := x\<rparr>) dec_pstring),
      (''labels'', set_field wj_labels (\<lambda>x r. r\<lparr>wj_labels := x\<rparr>) (dec_slice [] dec_string)),
      (''head_branch'', set_field wj_head_branch (\<lambda>x r. r\<lparr>wj_head_branch := x\<rparr>) dec_pstring),
      (''head_sha'', set_field wj_head_sha (\<lambda>x r. r\<lparr>wj_head_sha := x\<rparr>) dec_string),
      (''html_url'', set_field wj_html_url (\<lambda>x r. r\<lparr>wj_html_url := x\<rparr>) dec_string),
      (''steps'', set_field wj_steps (\<lambda>x r. r\<lparr>wj_steps := x\<rparr>) (dec_slice zero_raw_step dec_raw_step))]"

record raw_job_payload =
  rp_job :: "raw_job option"
  rp_job_repository :: "raw_repository option"

definition dec_raw_job_payload :: "raw_job_payload decoder" where
  "dec_raw_job_payload = dec_struct
     [(''workflow_job'', set_field rp_job (\<lambda>x r. r\<lparr>rp_job := x\<rparr>) (dec_ptr zero_raw_job dec_raw_job)),
      (''repository'', set_field rp_job_repository (\<lambda>x r. r\<lparr>rp_job_repository := x\<rparr>)
         (dec_ptr zero_repository dec_raw_repository))]"

section \<open>Normalize\<close>

definition malformed :: "envelope \<Rightarrow> string \<Rightarrow> goerr" where
  "malformed env reason = Wrap reason [err_malformed]"

definition deref :: "string option \<Rightarrow> string" where
  "deref s = (case s of None \<Rightarrow> [] | Some x \<Rightarrow> x)"

definition decode_payload :: "envelope \<Rightarrow> 'r decoder \<Rightarrow> 'r \<Rightarrow> goerr + 'r" where
  "decode_payload env d zero =
     (if payload env = [] then Inl (malformed env ''empty payload'')
      else (case Option.bind (parse_json (payload env)) (d zero) of
          None \<Rightarrow> Inl (Wrap ''json'' [err_malformed, Msg ''json''])
        | Some r \<Rightarrow> Inr r))"

definition resolve_repository :: "envelope \<Rightarrow> raw_repository option \<Rightarrow> goerr + int \<times> string" where
  "resolve_repository env raw =
     (let (id, name) = (case raw of
            Some r \<Rightarrow> if rr_id r \<noteq> 0 then (rr_id r, rr_full_name r) else (repository_id env, repository env)
          | None \<Rightarrow> (repository_id env, repository env))
      in if id = 0 then Inl (malformed env ''missing repository.id'') else Inr (id, name))"

definition decode_run :: "envelope \<Rightarrow> goerr + run" where
  "decode_run env =
     (case decode_payload env dec_raw_run_payload \<lparr>rp_run = None, rp_run_repository = None\<rparr> of
        Inl e \<Rightarrow> Inl e
      | Inr raw \<Rightarrow>
     (case rp_run raw of
        None \<Rightarrow> Inl (malformed env ''missing workflow_run object'')
      | Some wr \<Rightarrow>
     if wr_id wr = 0 \<or> wr_run_attempt wr = 0
     then Inl (malformed env ''workflow_run.id and workflow_run.run_attempt are required'')
     else
     (case resolve_repository env (rp_run_repository raw) of
        Inl e \<Rightarrow> Inl e
      | Inr (repo_id, repo_name) \<Rightarrow> Inr
          \<lparr>r_repository_id = repo_id, r_repository = repo_name, r_workflow_id = wr_workflow_id wr,
           r_workflow_name = wr_name wr, r_workflow_path = wr_path wr, r_run_id = wr_id wr,
           r_run_number = wr_run_number wr, r_run_attempt = wr_run_attempt wr,
           r_status = deref (wr_status wr), r_conclusion = wr_conclusion wr,
           r_created_at = wr_created_at wr, r_updated_at = wr_updated_at wr,
           r_started_at = wr_run_started_at wr, r_trigger_event = wr_event wr,
           r_head_branch = wr_head_branch wr, r_head_sha = wr_head_sha wr,
           r_actor = wr_actor wr, r_html_url = wr_html_url wr\<rparr>)))"

definition step_of_raw :: "raw_step \<Rightarrow> step" where
  "step_of_raw s = \<lparr>s_number = ws_number s, s_name = ws_name s, s_status = deref (ws_status s),
     s_conclusion = ws_conclusion s, s_started_at = ws_started_at s,
     s_completed_at = ws_completed_at s\<rparr>"

definition decode_job :: "envelope \<Rightarrow> goerr + job" where
  "decode_job env =
     (case decode_payload env dec_raw_job_payload \<lparr>rp_job = None, rp_job_repository = None\<rparr> of
        Inl e \<Rightarrow> Inl e
      | Inr raw \<Rightarrow>
     (case rp_job raw of
        None \<Rightarrow> Inl (malformed env ''missing workflow_job object'')
      | Some wj \<Rightarrow>
     if wj_id wj = 0 \<or> wj_run_id wj = 0 \<or> wj_run_attempt wj = 0
     then Inl (malformed env ''workflow_job.id, workflow_job.run_id, and workflow_job.run_attempt are required'')
     else
     (case resolve_repository env (rp_job_repository raw) of
        Inl e \<Rightarrow> Inl e
      | Inr (repo_id, repo_name) \<Rightarrow> Inr
          \<lparr>j_repository_id = repo_id, j_repository = repo_name, j_run_id = wj_run_id wj,
           j_run_attempt = wj_run_attempt wj, j_job_id = wj_id wj, j_name = wj_name wj,
           j_workflow_name = wj_workflow_name wj, j_status = deref (wj_status wj),
           j_conclusion = wj_conclusion wj, j_created_at = wj_created_at wj,
           j_started_at = wj_started_at wj, j_completed_at = wj_completed_at wj,
           j_runner_name = wj_runner_name wj, j_runner_group = wj_runner_group_name wj,
           j_labels = wj_labels wj, j_head_branch = wj_head_branch wj, j_head_sha = wj_head_sha wj,
           j_html_url = wj_html_url wj,
           j_steps = (case wj_steps wj of None \<Rightarrow> [] | Some ss \<Rightarrow> map step_of_raw ss)\<rparr>)))"

definition normalize :: "envelope \<Rightarrow> goerr + execution" where
  "normalize env =
     (let exec = \<lparr>x_kind = KindNone, x_run = None, x_job = None, x_envelope = env\<rparr>
      in if ev_event env = event_workflow_run then
           (case decode_run env of Inl e \<Rightarrow> Inl e
            | Inr r \<Rightarrow> Inr (exec\<lparr>x_kind := KindRun, x_run := Some r\<rparr>))
         else if ev_event env = event_workflow_job then
           (case decode_job env of Inl e \<Rightarrow> Inl e
            | Inr j \<Rightarrow> Inr (exec\<lparr>x_kind := KindJob, x_job := Some j\<rparr>))
         else Inr exec)"

section \<open>Event times\<close>

definition or_zero :: "gtime \<Rightarrow> gtime \<Rightarrow> gtime" where
  "or_zero t fallback = (if is_zero t then fallback else t)"

definition or_time :: "gtime option \<Rightarrow> gtime \<Rightarrow> gtime" where
  "or_time t fallback = (case t of None \<Rightarrow> fallback | Some x \<Rightarrow> if is_zero x then fallback else x)"

definition run_event_time :: "run \<Rightarrow> gtime \<Rightarrow> gtime" where
  "run_event_time r received =
     (if r_status r = status_completed then or_zero (r_updated_at r) received
      else if r_status r = status_in_progress then or_time (r_started_at r) received
      else or_zero (r_created_at r) received)"

definition job_event_time :: "job \<Rightarrow> gtime \<Rightarrow> gtime" where
  "job_event_time j received =
     (if j_status j = status_completed then or_time (j_completed_at j) received
      else if j_status j = status_in_progress then or_time (j_started_at j) received
      else or_zero (j_created_at j) received)"

definition event_time :: "execution \<Rightarrow> gtime" where
  "event_time exec =
     (let received = received_at (x_envelope exec) in
      case x_kind exec of
        KindRun \<Rightarrow> (case x_run exec of Some r \<Rightarrow> run_event_time r received | None \<Rightarrow> received)
      | KindJob \<Rightarrow> (case x_job exec of Some j \<Rightarrow> job_event_time j received | None \<Rightarrow> received)
      | KindNone \<Rightarrow> received)"

definition step_event_time :: "execution \<Rightarrow> step \<Rightarrow> gtime" where
  "step_event_time exec st =
     (let job_time = event_time exec in
      if x_kind exec \<noteq> KindJob \<or> x_job exec = None then job_time
      else if s_status st = status_completed then or_time (s_completed_at st) job_time
      else if s_status st = status_in_progress then or_time (s_started_at st) job_time
      else job_time)"

section \<open>Identifiers\<close>

definition ns_trace :: string where "ns_trace = ''antwatcher:trace:''"
definition ns_run :: string where "ns_run = ''antwatcher:run:''"
definition ns_job :: string where "ns_job = ''antwatcher:job:''"
definition ns_step :: string where "ns_step = ''antwatcher:step:''"
definition ns_record :: string where "ns_record = ''antwatcher:record:''"

datatype record_kind = RecordRun | RecordJob | RecordStep

fun record_kind_string :: "record_kind \<Rightarrow> string" where
  "record_kind_string RecordRun = ''run''"
| "record_kind_string RecordJob = ''job''"
| "record_kind_string RecordStep = ''step''"

definition id_join :: "int list \<Rightarrow> string" where
  "id_join ids = intercalate '':'' (map format_int ids)"

definition span_id_of :: "string \<Rightarrow> string" where
  "span_id_of s = take 8 (sha256 s)"

definition trace_id :: "int \<Rightarrow> int \<Rightarrow> int \<Rightarrow> string" where
  "trace_id repo_id run_id attempt = take 16 (sha256 (ns_trace @ id_join [repo_id, run_id, attempt]))"

definition run_span_id :: "int \<Rightarrow> int \<Rightarrow> string" where
  "run_span_id run_id attempt = span_id_of (ns_run @ id_join [run_id, attempt])"

definition job_span_id :: "int \<Rightarrow> string" where
  "job_span_id job_id = span_id_of (ns_job @ id_join [job_id])"

definition step_span_id :: "int \<Rightarrow> int \<Rightarrow> string" where
  "step_span_id job_id number = span_id_of (ns_step @ id_join [job_id, number])"

definition record_preimage :: "record_kind \<Rightarrow> int list \<Rightarrow> string" where
  "record_preimage k ids = ns_record @ record_kind_string k @ '':'' @ id_join ids"

definition record_id :: "record_kind \<Rightarrow> int list \<Rightarrow> string" where
  "record_id k ids = hex_encode (sha256 (record_preimage k ids))"

definition run_trace_id :: "run \<Rightarrow> string" where
  "run_trace_id r = trace_id (r_repository_id r) (r_run_id r) (r_run_attempt r)"
definition run_root_span_id :: "run \<Rightarrow> string" where
  "run_root_span_id r = run_span_id (r_run_id r) (r_run_attempt r)"
definition run_record_id :: "run \<Rightarrow> string" where
  "run_record_id r = record_id RecordRun [r_repository_id r, r_run_id r, r_run_attempt r]"
definition job_trace_id :: "job \<Rightarrow> string" where
  "job_trace_id j = trace_id (j_repository_id j) (j_run_id j) (j_run_attempt j)"
definition job_own_span_id :: "job \<Rightarrow> string" where
  "job_own_span_id j = job_span_id (j_job_id j)"
definition job_parent_span_id :: "job \<Rightarrow> string" where
  "job_parent_span_id j = run_span_id (j_run_id j) (j_run_attempt j)"
definition job_record_id :: "job \<Rightarrow> string" where
  "job_record_id j =
     record_id RecordJob [j_repository_id j, j_run_id j, j_run_attempt j, j_job_id j]"
definition step_own_span_id :: "step \<Rightarrow> job \<Rightarrow> string" where
  "step_own_span_id s j = step_span_id (j_job_id j) (s_number s)"
definition step_record_id :: "step \<Rightarrow> job \<Rightarrow> string" where
  "step_record_id s j = record_id RecordStep
     [j_repository_id j, j_run_id j, j_run_attempt j, j_job_id j, s_number s]"

section \<open>Lemmas\<close>

subsection \<open>Status ranks\<close>

lemma status_rank_range: "0 \<le> status_rank s \<and> status_rank s \<le> 3"
  by (simp add: status_rank_def)

lemma status_rank_simps [simp]:
  "status_rank status_completed = 3" "status_rank status_in_progress = 2"
  "status_rank status_queued = 1" "status_rank status_waiting = 1"
  "status_rank status_requested = 1" "status_rank status_pending = 1" "status_rank [] = 0"
  by (simp_all add: status_rank_def go_simps)

lemma status_rank_3: "status_rank s = 3 \<longleftrightarrow> s = status_completed"
  by (simp add: status_rank_def)

subsection \<open>Normalize\<close>

lemma err_malformed_simps [simp]:
  "is_sentinel ''malformed payload'' (malformed env r)"
  "is_sentinel ''malformed payload'' (Wrap c [err_malformed, Msg m])"
  by (simp_all add: is_sentinel_def malformed_def err_malformed_def)

lemma decode_payload_error: "decode_payload env d z = Inl e \<Longrightarrow> is_sentinel ''malformed payload'' e"
  by (auto simp: decode_payload_def split: if_splits option.splits)

lemma resolve_repository_error:
  "resolve_repository env raw = Inl e \<Longrightarrow> is_sentinel ''malformed payload'' e"
  by (auto simp: resolve_repository_def Let_def split: if_splits option.splits)

lemma resolve_repository_ok: "resolve_repository env raw = Inr (i, n) \<Longrightarrow> i \<noteq> 0"
  by (auto simp: resolve_repository_def Let_def split: if_splits option.splits)

lemma decode_run_error: "decode_run env = Inl e \<Longrightarrow> is_sentinel ''malformed payload'' e"
  by (auto simp: decode_run_def dest: decode_payload_error resolve_repository_error
      split: sum.splits option.splits if_splits)

lemma decode_job_error: "decode_job env = Inl e \<Longrightarrow> is_sentinel ''malformed payload'' e"
  by (auto simp: decode_job_def dest: decode_payload_error resolve_repository_error
      split: sum.splits option.splits if_splits)

lemma decode_run_ok:
  "decode_run env = Inr r \<Longrightarrow> r_run_id r \<noteq> 0 \<and> r_run_attempt r \<noteq> 0 \<and> r_repository_id r \<noteq> 0"
  by (auto simp: decode_run_def dest: resolve_repository_ok split: sum.splits option.splits if_splits)

lemma decode_job_ok:
  "decode_job env = Inr j \<Longrightarrow>
     j_job_id j \<noteq> 0 \<and> j_run_id j \<noteq> 0 \<and> j_run_attempt j \<noteq> 0 \<and> j_repository_id j \<noteq> 0"
  by (auto simp: decode_job_def dest: resolve_repository_ok split: sum.splits option.splits if_splits)

text \<open>What an execution that came out of \<open>Normalize\<close> looks like.\<close>

definition wf_execution :: "execution \<Rightarrow> bool" where
  "wf_execution exec \<longleftrightarrow>
     (case x_kind exec of
        KindNone \<Rightarrow> x_run exec = None \<and> x_job exec = None
      | KindRun \<Rightarrow> x_job exec = None \<and>
          (case x_run exec of None \<Rightarrow> False
           | Some r \<Rightarrow> r_run_id r \<noteq> 0 \<and> r_run_attempt r \<noteq> 0 \<and> r_repository_id r \<noteq> 0)
      | KindJob \<Rightarrow> x_run exec = None \<and>
          (case x_job exec of None \<Rightarrow> False
           | Some j \<Rightarrow> j_job_id j \<noteq> 0 \<and> j_run_id j \<noteq> 0 \<and> j_run_attempt j \<noteq> 0 \<and> j_repository_id j \<noteq> 0))"

lemma normalize_wf: "normalize env = Inr exec \<Longrightarrow> wf_execution exec \<and> x_envelope exec = env"
  by (auto simp: normalize_def wf_execution_def Let_def dest: decode_run_ok decode_job_ok
      split: if_splits sum.splits)

lemma normalize_kind:
  "normalize env = Inr exec \<Longrightarrow> x_kind exec =
     (if ev_event env = event_workflow_run then KindRun
      else if ev_event env = event_workflow_job then KindJob else KindNone)"
  by (auto simp: normalize_def Let_def split: if_splits sum.splits)

lemma normalize_error:
  "normalize env = Inl e \<Longrightarrow>
     is_sentinel ''malformed payload'' e \<and> ev_event env \<in> {event_workflow_run, event_workflow_job}"
  by (auto simp: normalize_def Let_def dest: decode_run_error decode_job_error
      split: if_splits sum.splits)

subsection \<open>Event times\<close>

lemma or_zero_nonzero: "f \<noteq> 0 \<Longrightarrow> or_zero t f \<noteq> 0"
  by (simp add: or_zero_def is_zero_def)

lemma or_time_nonzero: "f \<noteq> 0 \<Longrightarrow> or_time t f \<noteq> 0"
  by (simp add: or_time_def is_zero_def split: option.splits)

lemma event_time_nonzero: "received_at (x_envelope exec) \<noteq> 0 \<Longrightarrow> event_time exec \<noteq> 0"
  by (auto simp: event_time_def Let_def run_event_time_def job_event_time_def or_zero_nonzero
      or_time_nonzero split: exec_kind.splits option.splits)

lemma step_event_time_nonzero: "received_at (x_envelope exec) \<noteq> 0 \<Longrightarrow> step_event_time exec s \<noteq> 0"
  by (auto simp: step_event_time_def Let_def or_time_nonzero event_time_nonzero)

subsection \<open>Identifiers\<close>

lemma colon_not_in_format: "CHR '':'' \<notin> set (format_int i)"
  using format_int_chars [of "CHR '':''" i] by (auto simp: is_digit_def)

lemma id_join_inj:
  assumes "id_join xs = id_join ys" and "xs \<noteq> []" and "ys \<noteq> []"
  shows "xs = ys"
proof -
  have "map format_int xs = map format_int ys"
    by (rule intercalate_inj [of "CHR '':''"]) (use assms in \<open>auto simp: id_join_def colon_not_in_format\<close>)
  then show ?thesis by (rule map_injective [rule_format]) (simp add: inj_def format_int_inj)
qed

lemma record_tail_inj:
  assumes "record_kind_string k @ CHR '':'' # id_join xs = record_kind_string l @ CHR '':'' # id_join ys"
    and "xs \<noteq> []" and "ys \<noteq> []"
  shows "k = l \<and> xs = ys"
  using assms id_join_inj [OF _ assms(2,3)] by (cases k; cases l) auto

lemma record_preimage_inj:
  assumes "record_preimage k xs = record_preimage l ys" and "xs \<noteq> []" and "ys \<noteq> []"
  shows "k = l \<and> xs = ys"
  using assms(1) record_tail_inj [OF _ assms(2,3)] by (simp add: record_preimage_def)

text \<open>The five namespaces: what is hashed for one kind of identifier is never hashed for another.\<close>

datatype id_input =
    TraceInput int int int | RunInput int int | JobInput int | StepInput int int
  | RecordInput record_kind "int list"

fun id_preimage :: "id_input \<Rightarrow> string" where
  "id_preimage (TraceInput r i a) = ns_trace @ id_join [r, i, a]"
| "id_preimage (RunInput i a) = ns_run @ id_join [i, a]"
| "id_preimage (JobInput j) = ns_job @ id_join [j]"
| "id_preimage (StepInput j n) = ns_step @ id_join [j, n]"
| "id_preimage (RecordInput k ids) = record_preimage k ids"

fun id_input_ok :: "id_input \<Rightarrow> bool" where
  "id_input_ok (RecordInput k ids) = (ids \<noteq> [])"
| "id_input_ok _ = True"

lemmas ns_defs = ns_trace_def ns_run_def ns_job_def ns_step_def ns_record_def

lemma id_preimage_inj:
  assumes "id_preimage a = id_preimage b" and "id_input_ok a" and "id_input_ok b"
  shows "a = b"
  using assms
  by (cases a; cases b)
    (auto simp: ns_defs record_preimage_def dest: id_join_inj record_tail_inj)

section \<open>Properties\<close>

text \<open>
  C11: \<open>Normalize\<close> decides by the event name alone: a workflow_run event gives a run, a workflow_job event
  a job, every other event neither; exactly the entity of the kind is there, with non-zero identity
  fields, and the envelope is kept. It fails only for the two known events, with \<open>ErrMalformed\<close>.
\<close>

theorem normalize_classifies:
  "case normalize env of
     Inl e \<Rightarrow> is_sentinel ''malformed payload'' e \<and> ev_event env \<in> {event_workflow_run, event_workflow_job}
   | Inr exec \<Rightarrow> wf_execution exec \<and> x_envelope exec = env \<and>
       x_kind exec = (if ev_event env = event_workflow_run then KindRun
         else if ev_event env = event_workflow_job then KindJob else KindNone)"
  by (auto dest: normalize_error normalize_wf normalize_kind split: sum.splits)

text \<open>
  C12: the string hashed for an identifier determines what it identifies: no two traces, runs, jobs,
  steps or records share one, whatever their kinds, so two identifiers of one width agree only when
  the entities do or SHA-256 collides on these very strings. A job's parent span is the root span of
  its run, in its run's trace.
\<close>

theorem identifiers_determine_entities:
  assumes "id_input_ok a" and "id_input_ok b" and "a \<noteq> b"
  shows "id_preimage a \<noteq> id_preimage b \<and>
    trace_id r i n = take 16 (sha256 (id_preimage (TraceInput r i n))) \<and>
    run_span_id i n = take 8 (sha256 (id_preimage (RunInput i n))) \<and>
    job_span_id j = take 8 (sha256 (id_preimage (JobInput j))) \<and>
    step_span_id j k = take 8 (sha256 (id_preimage (StepInput j k))) \<and>
    record_id rk ids = hex_encode (sha256 (id_preimage (RecordInput rk ids))) \<and>
    (j_run_id jb = r_run_id rn \<and> j_run_attempt jb = r_run_attempt rn \<and>
      j_repository_id jb = r_repository_id rn \<longrightarrow>
      job_parent_span_id jb = run_root_span_id rn \<and> job_trace_id jb = run_trace_id rn)"
  using id_preimage_inj [OF _ assms(1,2)] assms(3)
  by (auto simp: trace_id_def run_span_id_def job_span_id_def step_span_id_def span_id_of_def
      record_id_def job_parent_span_id_def run_root_span_id_def job_trace_id_def run_trace_id_def)

theorem identifiers_determine_entities_witness:
  "id_preimage (RecordInput RecordRun [1, 23, 4]) \<noteq> id_preimage (RecordInput RecordRun [12, 3, 4])"
  by (rule conjunct1 [OF identifiers_determine_entities]) simp_all

end
