(* ===== verification/SinkCore.thy ===== *)
theory SinkCore
  imports Bus Model
begin

text \<open>
  Package \<open>sink\<close> (\<open>internal/sink\<close>): permanent errors (\<open>errors.go\<close>), the set of stalled messages of a
  sink (\<open>stalled.go\<close>), the handler that turns a sink's result into an ack or a nack (\<open>router.go\<close>), and
  the contract of a destination, as a locale.
\<close>

section \<open>Errors\<close>

definition err_skipped :: goerr where "err_skipped = Sentinel ''sink: event skipped''"

definition is_permanent :: "goerr \<Rightarrow> bool" where
  "is_permanent = err_any (\<lambda>e. \<exists>x. e = PermanentE x)"

lemma is_permanent_code [code]:
  "is_permanent = err_any (\<lambda>e. case e of PermanentE x \<Rightarrow> True | _ \<Rightarrow> False)"
  unfolding is_permanent_def by (rule arg_cong [of _ _ err_any]) (auto simp: fun_eq_iff split: goerr.splits)

definition permanent :: "goerr option \<Rightarrow> goerr option" where
  "permanent e = (case e of
     None \<Rightarrow> None
   | Some err \<Rightarrow> if is_permanent err then Some err else Some (PermanentE err))"

definition is_skipped :: "goerr \<Rightarrow> bool" where
  "is_skipped = is_sentinel ''sink: event skipped''"

lemma is_permanent_simps [simp, err_simps]:
  "is_permanent (PermanentE e)" "\<not> is_permanent (Msg s)" "\<not> is_permanent (Sentinel s)"
  "\<not> is_permanent (CtxErr c)" "is_permanent (Wrap s es) \<longleftrightarrow> list_ex is_permanent es"
  "is_permanent (JoinE es) \<longleftrightarrow> list_ex is_permanent es"
  "\<not> is_permanent (HTTPError n m d)" "\<not> is_permanent (GRPCStatus g m r)"
  by (simp_all add: is_permanent_def)

lemma permanent_marks: "permanent e = Some x \<Longrightarrow> is_permanent x"
  by (auto simp: permanent_def split: option.splits if_splits)

lemma permanent_idem: "permanent (permanent e) = permanent e"
  by (auto simp: permanent_def split: option.splits)

text \<open>\<open>errors.Is\<close> sees through the mark: only the mark itself is new.\<close>

lemma permanent_err_any:
  assumes "\<And>x. \<not> P (PermanentE x)" and "permanent (Some e) = Some x"
  shows "err_any P x = err_any P e"
  using assms by (auto simp: permanent_def split: if_splits)

section \<open>Stalled messages\<close>

definition stalled_log_every :: int where "stalled_log_every = 10"
definition max_stalled_entries :: int where "max_stalled_entries = 1000"

record stalled_info =
  st_reason :: string
  st_first_seen :: gtime
  st_last_seen :: gtime
  st_attempts :: int

text \<open>\<open>ss_gauges\<close> is what the two metrics of the set were last set to; \<open>None\<close> when it has no metrics.\<close>

record stalled_set =
  ss_entries :: "(string, stalled_info) amap"
  ss_untracked :: int
  ss_gauges :: "(int \<times> int) option"

definition amap_len :: "('k, 'v) amap \<Rightarrow> int" where "amap_len m = int (length m)"

definition publish_locked :: "stalled_set \<Rightarrow> stalled_set" where
  "publish_locked s = (case ss_gauges s of
     None \<Rightarrow> s
   | Some g \<Rightarrow> (let n = amap_len (ss_entries s)
       in s\<lparr>ss_gauges := Some (if 0 < n then 1 else 0, n)\<rparr>))"

definition new_stalled_set :: "bool \<Rightarrow> stalled_set" where
  "new_stalled_set has_metrics = publish_locked \<lparr>ss_entries = [], ss_untracked = 0,
     ss_gauges = (if has_metrics then Some (0, 0) else None)\<rparr>"

definition log_now :: "int \<Rightarrow> bool" where
  "log_now n \<longleftrightarrow> n = 1 \<or> n mod stalled_log_every = 0"

definition stalled_record :: "string \<Rightarrow> goerr \<Rightarrow> gtime \<Rightarrow> stalled_set \<Rightarrow> (int \<times> bool) \<times> stalled_set" where
  "stalled_record uid reason now s =
     (if map_of (ss_entries s) uid = None \<and> max_stalled_entries \<le> amap_len (ss_entries s)
      then let n = ss_untracked s + 1 in ((1, log_now n), s\<lparr>ss_untracked := n\<rparr>)
      else
        let info = (case map_of (ss_entries s) uid of
                Some i \<Rightarrow> i
              | None \<Rightarrow> \<lparr>st_reason = [], st_first_seen = now, st_last_seen = 0, st_attempts = 0\<rparr>);
            info = info\<lparr>st_attempts := st_attempts info + 1, st_last_seen := now, st_reason := err_text reason\<rparr>;
            s = publish_locked (s\<lparr>ss_entries := AList.update uid info (ss_entries s)\<rparr>)
        in ((st_attempts info, log_now (st_attempts info)), s))"

definition stalled_clear :: "string \<Rightarrow> stalled_set \<Rightarrow> bool \<times> stalled_set" where
  "stalled_clear uid s =
     (if map_of (ss_entries s) uid = None then (False, s)
      else (True, publish_locked (s\<lparr>ss_entries := AList.delete uid (ss_entries s)\<rparr>)))"

definition stalled_len :: "stalled_set \<Rightarrow> int" where
  "stalled_len s = amap_len (ss_entries s)"

definition entry_le :: "string \<times> stalled_info \<Rightarrow> string \<times> stalled_info \<Rightarrow> bool" where
  "entry_le a b = (if st_first_seen (snd a) \<noteq> st_first_seen (snd b)
     then st_first_seen (snd a) < st_first_seen (snd b) else str_le (fst a) (fst b))"

fun insert_entry :: "string \<times> stalled_info \<Rightarrow> (string \<times> stalled_info) list \<Rightarrow> (string \<times> stalled_info) list" where
  "insert_entry x [] = [x]"
| "insert_entry x (y # ys) = (if entry_le x y then x # y # ys else y # insert_entry x ys)"

definition stalled_list :: "stalled_set \<Rightarrow> (string \<times> stalled_info) list" where
  "stalled_list s = foldr insert_entry (ss_entries s) []"

text \<open>The set stays bounded, its keys distinct, every entry has failed at least once, and the gauges agree.\<close>

definition stalled_inv :: "stalled_set \<Rightarrow> bool" where
  "stalled_inv s \<longleftrightarrow> wf_amap (ss_entries s) \<and> stalled_len s \<le> max_stalled_entries \<and>
     (\<forall>(u, i) \<in> set (ss_entries s). 1 \<le> st_attempts i \<and> st_first_seen i \<le> st_last_seen i) \<and>
     (\<forall>a n. ss_gauges s = Some (a, n) \<longrightarrow> n = stalled_len s \<and> a = (if 0 < stalled_len s then 1 else 0))"

lemma publish_locked_simps [simp]:
  "ss_entries (publish_locked s) = ss_entries s" "ss_untracked (publish_locked s) = ss_untracked s"
  "stalled_len (publish_locked s) = stalled_len s"
  by (simp_all add: publish_locked_def stalled_len_def Let_def split: option.splits)

lemma publish_locked_gauges:
  "ss_gauges (publish_locked s) = Some (a, n) \<Longrightarrow>
     n = stalled_len s \<and> a = (if 0 < stalled_len s then 1 else 0)"
  by (auto simp: publish_locked_def stalled_len_def Let_def split: option.splits)

lemma new_stalled_set_inv: "stalled_inv (new_stalled_set m)"
  unfolding stalled_inv_def new_stalled_set_def
  by (auto simp: publish_locked_def stalled_len_def amap_len_def max_stalled_entries_def Let_def split: if_splits)

lemma update_memD: "(u, i) \<in> set (AList.update k v m) \<Longrightarrow> (u, i) = (k, v) \<or> (u, i) \<in> set m"
  by (induction m) (auto split: if_splits)

lemma delete_memD: "(u, i) \<in> set (AList.delete k m) \<Longrightarrow> (u, i) \<in> set m"
  by (induction m) (auto split: if_splits)

text \<open>Time does not run backwards between two failures of a message.\<close>

definition not_before :: "gtime \<Rightarrow> stalled_set \<Rightarrow> bool" where
  "not_before now s \<longleftrightarrow> (\<forall>(u, i) \<in> set (ss_entries s). st_first_seen i \<le> now)"

lemma stalled_record_inv:
  assumes inv: "stalled_inv s" and now: "not_before now s"
  shows "stalled_inv (snd (stalled_record uid reason now s))"
proof (cases "map_of (ss_entries s) uid = None \<and> max_stalled_entries \<le> amap_len (ss_entries s)")
  case True
  then show ?thesis using inv by (auto simp: stalled_record_def stalled_inv_def stalled_len_def Let_def)
next
  case False
  define old where "old = (case map_of (ss_entries s) uid of Some i \<Rightarrow> i
    | None \<Rightarrow> \<lparr>st_reason = [], st_first_seen = now, st_last_seen = 0, st_attempts = 0\<rparr>)"
  define info where "info = old\<lparr>st_attempts := st_attempts old + 1, st_last_seen := now, st_reason := err_text reason\<rparr>"
  define m where "m = AList.update uid info (ss_entries s)"
  have r: "snd (stalled_record uid reason now s) = publish_locked (s\<lparr>ss_entries := m\<rparr>)"
    unfolding stalled_record_def if_not_P [OF False] by (simp add: Let_def old_def info_def m_def)
  have old: "0 \<le> st_attempts old \<and> st_first_seen old \<le> now"
  proof (cases "map_of (ss_entries s) uid")
    case (Some i)
    then have "(uid, i) \<in> set (ss_entries s)" by (rule map_of_SomeD)
    then show ?thesis using inv now Some by (fastforce simp: old_def stalled_inv_def not_before_def)
  qed (simp add: old_def)
  have len: "amap_len m \<le> max_stalled_entries"
  proof (cases "map_of (ss_entries s) uid = None")
    case True
    with False have "amap_len (ss_entries s) < max_stalled_entries" by auto
    with True show ?thesis by (simp add: m_def amap_len_def length_update_new)
  next
    case False
    with inv show ?thesis by (simp add: m_def amap_len_def length_update_mem stalled_inv_def stalled_len_def)
  qed
  have entries: "\<forall>(u, i) \<in> set m. 1 \<le> st_attempts i \<and> st_first_seen i \<le> st_last_seen i"
    using inv old by (auto simp: m_def info_def stalled_inv_def dest!: update_memD)
  have "wf_amap m" using inv by (simp add: m_def stalled_inv_def)
  with len entries show ?thesis
    unfolding r stalled_inv_def
    by (auto simp: stalled_len_def dest!: publish_locked_gauges)
qed

lemma stalled_clear_inv: "stalled_inv s \<Longrightarrow> stalled_inv (snd (stalled_clear uid s))"
proof (cases "map_of (ss_entries s) uid = None")
  case False
  assume inv: "stalled_inv s"
  define m where "m = AList.delete uid (ss_entries s)"
  have r: "snd (stalled_clear uid s) = publish_locked (s\<lparr>ss_entries := m\<rparr>)"
    using False by (auto simp: stalled_clear_def m_def)
  have "amap_len m \<le> amap_len (ss_entries s)" by (simp add: m_def amap_len_def length_delete_le)
  then have "amap_len m \<le> max_stalled_entries" using inv by (simp add: stalled_inv_def stalled_len_def)
  moreover have "\<forall>(u, i) \<in> set m. 1 \<le> st_attempts i \<and> st_first_seen i \<le> st_last_seen i"
    using inv by (auto simp: m_def stalled_inv_def dest!: delete_memD)
  moreover have "wf_amap m" using inv by (simp add: m_def stalled_inv_def)
  ultimately show ?thesis
    unfolding r stalled_inv_def by (auto simp: stalled_len_def dest!: publish_locked_gauges)
qed (simp add: stalled_clear_def)

lemma stalled_clear_other:
  "uid' \<noteq> uid \<Longrightarrow> map_of (ss_entries (snd (stalled_clear uid s))) uid' = map_of (ss_entries s) uid'"
  by (simp add: stalled_clear_def)

lemma stalled_clear_same: "map_of (ss_entries (snd (stalled_clear uid s))) uid = None"
  by (simp add: stalled_clear_def)

lemma stalled_record_tracked:
  "map_of (ss_entries s) uid \<noteq> None \<or> amap_len (ss_entries s) < max_stalled_entries \<Longrightarrow>
     \<exists>i. map_of (ss_entries (snd (stalled_record uid reason now s))) uid = Some i \<and>
       st_reason i = err_text reason \<and> st_last_seen i = now \<and>
       fst (fst (stalled_record uid reason now s)) = st_attempts i"
  by (auto simp: stalled_record_def Let_def split: if_splits)

lemma stalled_record_other:
  "uid' \<noteq> uid \<Longrightarrow>
     map_of (ss_entries (snd (stalled_record uid reason now s))) uid' = map_of (ss_entries s) uid'"
  by (auto simp: stalled_record_def Let_def)

lemma entry_le_total: "entry_le a b \<or> entry_le b a"
  using str_le_total [of "fst a" "fst b"] by (auto simp: entry_le_def)

lemma entry_le_trans: "entry_le a b \<Longrightarrow> entry_le b c \<Longrightarrow> entry_le a c"
  using str_le_trans [of "fst a" "fst b" "fst c"] by (auto simp: entry_le_def split: if_splits)

lemma set_insert_entry [simp]: "set (insert_entry x ys) = insert x (set ys)"
  by (induction ys) auto

lemma length_insert_entry [simp]: "length (insert_entry x ys) = Suc (length ys)"
  by (induction ys) auto

lemma sorted_insert_entry: "sorted_wrt entry_le ys \<Longrightarrow> sorted_wrt entry_le (insert_entry x ys)"
proof (induction ys)
  case (Cons y ys)
  then show ?case using entry_le_total [of x y] entry_le_trans by auto
qed simp

lemma stalled_list_sorted:
  "sorted_wrt entry_le (stalled_list s) \<and> set (stalled_list s) = set (ss_entries s) \<and>
     length (stalled_list s) = length (ss_entries s)"
proof -
  have "sorted_wrt entry_le (foldr insert_entry xs []) \<and> set (foldr insert_entry xs []) = set xs \<and>
      length (foldr insert_entry xs []) = length xs" for xs
    by (induction xs) (auto simp: sorted_insert_entry)
  then show ?thesis by (simp add: stalled_list_def)
qed

section \<open>The handler of one sink\<close>

definition sink_ok :: string where "sink_ok = ''ok''"
definition sink_error :: string where "sink_error = ''error''"
definition sink_permanent :: string where "sink_permanent = ''permanent''"
definition sink_skipped :: string where "sink_skipped = ''skipped''"

record handler =
  h_stalled :: stalled_set
  h_last_success :: gtime
  h_counts :: "string list"

definition h_count :: "string \<Rightarrow> handler \<Rightarrow> handler" where
  "h_count result h = h\<lparr>h_counts := h_counts h @ [result]\<rparr>"

definition h_succeeded :: "string \<Rightarrow> string \<Rightarrow> gtime \<Rightarrow> handler \<Rightarrow> handler" where
  "h_succeeded uid result now h =
     (let h = (h_count result h)\<lparr>h_last_success := now\<rparr>
      in h\<lparr>h_stalled := snd (stalled_clear uid (h_stalled h))\<rparr>)"

definition h_stall :: "string \<Rightarrow> goerr \<Rightarrow> gtime \<Rightarrow> handler \<Rightarrow> goerr option \<times> handler" where
  "h_stall uid e now h =
     (let h = h_count sink_permanent h
      in (Some e, h\<lparr>h_stalled := snd (stalled_record uid e now (h_stalled h))\<rparr>))"

text \<open>
  \<open>handle\<close> over the state of the destination; \<open>None\<close> is an ack, an error a nack. \<open>proc\<close> is the sink's
  \<open>Process\<close> under its deadline.
\<close>

definition handle ::
  "(envelope \<Rightarrow> 'd \<Rightarrow> goerr option \<times> 'd) \<Rightarrow> gtime \<Rightarrow> message \<Rightarrow> handler \<Rightarrow> 'd \<Rightarrow> goerr option \<times> handler \<times> 'd" where
  "handle proc now msg h d =
     (case from_message (Some msg) of
        Inl e \<Rightarrow>
          (let (r, h) = h_stall (uuid msg) (the (permanent (Some (Wrap ''decode message'' [e])))) now h
           in (r, h, d))
      | Inr env \<Rightarrow>
          (case proc env d of
             (None, d) \<Rightarrow> (None, h_succeeded (uuid msg) sink_ok now h, d)
           | (Some e, d) \<Rightarrow>
               if is_skipped e then (None, h_succeeded (uuid msg) sink_skipped now h, d)
               else if is_permanent e then
                 (let (r, h) = h_stall (uuid msg) e now h in (r, h, d))
               else (Some e, h_count sink_error h, d)))"

text \<open>A sequence of deliveries, in whatever order the broker chose, redeliveries included.\<close>

fun handle_all ::
  "('env \<Rightarrow> envelope \<Rightarrow> 'd \<Rightarrow> goerr option \<times> 'd) \<Rightarrow> ('env \<times> gtime \<times> message) list \<Rightarrow> handler \<Rightarrow> 'd
    \<Rightarrow> goerr option list \<times> handler \<times> 'd" where
  "handle_all proc [] h d = ([], h, d)"
| "handle_all proc ((env, now, m) # ms) h d =
     (let (r, h, d) = handle (proc env) now m h d; (rs, h, d) = handle_all proc ms h d in (r # rs, h, d))"

lemma h_succeeded_simps [simp]:
  "h_stalled (h_succeeded uid r now h) = snd (stalled_clear uid (h_stalled h))"
  "h_counts (h_succeeded uid r now h) = h_counts h @ [r]"
  "h_last_success (h_succeeded uid r now h) = now"
  by (simp_all add: h_succeeded_def h_count_def Let_def)

lemma h_stall_simps [simp]:
  "fst (h_stall uid e now h) = Some e"
  "h_stalled (snd (h_stall uid e now h)) = snd (stalled_record uid e now (h_stalled h))"
  "h_counts (snd (h_stall uid e now h)) = h_counts h @ [sink_permanent]"
  by (simp_all add: h_stall_def h_count_def Let_def)

lemma handle_ack:
  assumes "handle proc now msg h d = (None, h', d')"
  shows "\<exists>env. from_message (Some msg) = Inr env \<and>
    (proc env d = (None, d') \<or> (\<exists>e. proc env d = (Some e, d') \<and> is_skipped e)) \<and>
    map_of (ss_entries (h_stalled h')) (uuid msg) = None"
  using assms
  by (auto simp: handle_def h_stall_def Let_def stalled_clear_same
      split: sum.splits option.splits prod.splits if_splits)

lemma handle_nack:
  assumes "handle proc now msg h d = (Some e, h', d')"
  shows "(\<exists>m. from_message (Some msg) = Inl m) \<or> (\<exists>env. proc env d = (Some e, d') \<and> \<not> is_skipped e)"
  using assms
  by (auto simp: handle_def h_stall_def Let_def split: sum.splits option.splits prod.splits if_splits)

text \<open>Exactly one result is counted, and it says whether the message was acked.\<close>

lemma handle_count:
  assumes "handle proc now msg h d = (r, h', d')"
  shows "\<exists>res. h_counts h' = h_counts h @ [res] \<and>
    (r = None \<longleftrightarrow> res = sink_ok \<or> res = sink_skipped) \<and>
    (res = sink_permanent \<longleftrightarrow> (\<exists>e. r = Some e \<and> is_permanent e))"
proof -
  have d [simp]: "sink_ok \<noteq> sink_error" "sink_ok \<noteq> sink_permanent" "sink_skipped \<noteq> sink_error"
    "sink_skipped \<noteq> sink_permanent" "sink_error \<noteq> sink_permanent" "sink_ok \<noteq> sink_skipped"
    by (simp_all add: sink_ok_def sink_error_def sink_permanent_def sink_skipped_def)
  show ?thesis
    using assms d [symmetric]
    by (auto simp: handle_def h_stall_def h_count_def permanent_def Let_def
        split: sum.splits option.splits prod.splits if_splits)
qed

text \<open>A permanent failure is remembered for its message, an ack forgets only its own.\<close>

lemma handle_stalled_inv:
  assumes "handle proc now msg h d = (r, h', d')" and "stalled_inv (h_stalled h)" and "not_before now (h_stalled h)"
  shows "stalled_inv (h_stalled h')"
  using assms stalled_record_inv stalled_clear_inv
  by (auto simp: handle_def h_stall_def h_count_def Let_def
      split: sum.splits option.splits prod.splits if_splits)

lemma handle_other_stalled:
  assumes "handle proc now msg h d = (r, h', d')" and "uid \<noteq> uuid msg"
  shows "map_of (ss_entries (h_stalled h')) uid = map_of (ss_entries (h_stalled h)) uid"
  using assms
  by (auto simp: handle_def h_stall_def h_count_def Let_def stalled_clear_other stalled_record_other
      split: sum.splits option.splits prod.splits if_splits)

section \<open>The destination contract\<close>

text \<open>
  What \<open>Process\<close> promises the router: nil means the event is with the destination for good, and
  \<open>ErrSkipped\<close> that the destination's projection has no place for it. Every answer of the outside
  world is in the environment argument; \<open>honest\<close> answers are those whose errors are not the program's
  own \<open>ErrSkipped\<close>.
\<close>

locale destination =
  fixes process :: "'env \<Rightarrow> envelope \<Rightarrow> 'd \<Rightarrow> goerr option \<times> 'd"
    and delivered :: "'d \<Rightarrow> envelope \<Rightarrow> bool"
    and wanted :: "envelope \<Rightarrow> bool"
    and good :: "'d \<Rightarrow> bool"
    and honest :: "'env \<Rightarrow> bool"
  assumes process_ok: "good d \<Longrightarrow> process env ev d = (None, d') \<Longrightarrow> delivered d' ev"
    and process_skip: "good d \<Longrightarrow> honest env \<Longrightarrow> process env ev d = (Some e, d') \<Longrightarrow> is_skipped e \<Longrightarrow> \<not> wanted ev"
    and process_keeps: "good d \<Longrightarrow> process env ev d = (r, d') \<Longrightarrow> delivered d ev' \<Longrightarrow> delivered d' ev'"
    and process_good: "good d \<Longrightarrow> process env ev d = (r, d') \<Longrightarrow> good d'"
begin

lemma handle_delivers:
  assumes "handle (process env) now msg h d = (None, h', d')" and "good d" and "honest env"
  shows "\<exists>ev. from_message (Some msg) = Inr ev \<and> (delivered d' ev \<or> \<not> wanted ev)"
  using handle_ack [OF assms(1)] process_ok [OF assms(2)] process_skip [OF assms(2,3)] by blast

lemma handle_keeps:
  assumes "handle (process env) now msg h d = (r, h', d')" and "good d" and "delivered d ev"
  shows "delivered d' ev"
proof (cases "from_message (Some msg)")
  case (Inl e)
  with assms show ?thesis by (auto simp: handle_def h_stall_def Let_def)
next
  case (Inr env')
  obtain r1 d1 where p: "process env env' d = (r1, d1)" by fastforce
  with assms(1) Inr have "d' = d1"
    by (auto simp: handle_def h_stall_def Let_def split: option.splits if_splits)
  with process_keeps [OF assms(2) p assms(3)] show ?thesis by simp
qed

lemma handle_good:
  assumes "handle (process env) now msg h d = (r, h', d')" and "good d"
  shows "good d'"
proof (cases "from_message (Some msg)")
  case (Inl e)
  with assms show ?thesis by (auto simp: handle_def h_stall_def Let_def)
next
  case (Inr env')
  obtain r1 d1 where p: "process env env' d = (r1, d1)" by fastforce
  with assms(1) Inr have "d' = d1"
    by (auto simp: handle_def h_stall_def Let_def split: option.splits if_splits)
  with process_good [OF assms(2) p] show ?thesis by simp
qed

lemma handle_all_keeps:
  "handle_all process ms h d = (rs, h', d') \<Longrightarrow> good d \<Longrightarrow> delivered d ev \<Longrightarrow> delivered d' ev"
proof (induction ms arbitrary: h d rs)
  case (Cons x ms)
  obtain env now m where x: "x = (env, now, m)" using prod_cases3 by blast
  obtain r h1 d1 where 1: "handle (process env) now m h d = (r, h1, d1)" using prod_cases3 by blast
  obtain rs1 h2 d2 where 2: "handle_all process ms h1 d1 = (rs1, h2, d2)" using prod_cases3 by blast
  from Cons.prems(1) x 1 2 have e: "h' = h2" "d' = d2" by simp_all
  have "handle_all process ms h1 d1 = (rs1, h', d')" using 2 e by simp
  from Cons.IH [OF this handle_good [OF 1 Cons.prems(2)] handle_keeps [OF 1 Cons.prems(2,3)]]
  show ?case .
qed simp

text \<open>Every acked message's event is delivered, or the destination has no place for it.\<close>

lemma handle_all_acked:
  assumes "handle_all process ms h d = (rs, h', d')" and "good d" and "i < length ms" and "rs ! i = None"
    and "honest (fst (ms ! i))"
  shows "\<exists>ev. from_message (Some (snd (snd (ms ! i)))) = Inr ev \<and> (delivered d' ev \<or> \<not> wanted ev)"
  using assms
proof (induction ms arbitrary: h d rs i)
  case (Cons x ms)
  obtain env now m where x: "x = (env, now, m)" using prod_cases3 by blast
  obtain r h1 d1 where 1: "handle (process env) now m h d = (r, h1, d1)" using prod_cases3 by blast
  obtain rs1 h2 d2 where 2: "handle_all process ms h1 d1 = (rs1, h2, d2)" using prod_cases3 by blast
  from Cons.prems(1) x 1 2 have e: "h' = h2" "d' = d2" and rs: "rs = r # rs1" by simp_all
  have all: "handle_all process ms h1 d1 = (rs1, h', d')" using 2 e by simp
  note g = handle_good [OF 1 Cons.prems(2)]
  show ?case
  proof (cases i)
    case 0
    with rs Cons.prems(4) 1 have "handle (process env) now m h d = (None, h1, d1)" by simp
    from handle_delivers [OF this Cons.prems(2)] Cons.prems(5) x 0
    obtain ev where "from_message (Some m) = Inr ev" "delivered d1 ev \<or> \<not> wanted ev" by auto
    with handle_all_keeps [OF all g] x 0 show ?thesis by auto
  next
    case (Suc k)
    with Cons.prems(3,4,5) rs have "k < length ms" "rs1 ! k = None" "honest (fst (ms ! k))" by simp_all
    from Cons.IH [OF all g this] Suc show ?thesis by simp
  qed
qed simp

end

section \<open>Properties\<close>

text \<open>
  C4: the router acks a message only when it decodes and the sink processed or skipped its event, and
  nacks it otherwise, an undecodable message included; nothing is dropped. Exactly one result is
  counted, ok or skipped exactly for an ack, permanent exactly for a permanent error.
\<close>

theorem handler_acks_only_processed:
  assumes "handle proc now msg h d = (r, h', d')"
  shows "(r = None \<longrightarrow> (\<exists>env. from_message (Some msg) = Inr env \<and>
      (proc env d = (None, d') \<or> (\<exists>e. proc env d = (Some e, d') \<and> is_skipped e)))) \<and>
    (\<forall>e. r = Some e \<longrightarrow> (\<exists>m. from_message (Some msg) = Inl m) \<or>
      (\<exists>env. proc env d = (Some e, d') \<and> \<not> is_skipped e)) \<and>
    (\<exists>res. h_counts h' = h_counts h @ [res] \<and>
      (r = None \<longleftrightarrow> res = sink_ok \<or> res = sink_skipped) \<and>
      (res = sink_permanent \<longleftrightarrow> (\<exists>e. r = Some e \<and> is_permanent e)))"
proof (intro conjI)
  show "r = None \<longrightarrow> (\<exists>env. from_message (Some msg) = Inr env \<and>
      (proc env d = (None, d') \<or> (\<exists>e. proc env d = (Some e, d') \<and> is_skipped e)))"
    using handle_ack [of proc now msg h d h' d'] assms by (cases r) auto
  show "\<forall>e. r = Some e \<longrightarrow> (\<exists>m. from_message (Some msg) = Inl m) \<or>
      (\<exists>env. proc env d = (Some e, d') \<and> \<not> is_skipped e)"
    using handle_nack [of proc now msg h d _ h' d'] assms by (cases r) auto
qed (rule handle_count [OF assms])

definition idle_handler :: handler where
  "idle_handler = \<lparr>h_stalled = new_stalled_set True, h_last_success = 0, h_counts = []\<rparr>"

theorem handler_acks_only_processed_witness:
  "\<exists>r h'. handle (\<lambda>env d. (Some (PermanentE (Msg ''no table'')), d)) 5
      \<lparr>uuid = ''u'', metadata = None, msg_payload = []\<rparr> idle_handler () = (r, h', ()) \<and>
    r \<noteq> None \<and> (\<exists>res. h_counts h' = [res])"
proof -
  let ?p = "\<lambda>(env :: envelope) (d :: unit). (Some (PermanentE (Msg ''no table'')), d)"
  let ?m = "\<lparr>uuid = ''u'', metadata = None, msg_payload = []\<rparr>"
  obtain r h' d' where h: "handle ?p 5 ?m idle_handler () = (r, h', d')" using prod_cases3 by blast
  have "r \<noteq> None"
    using handler_acks_only_processed [OF h]
    by (auto simp: is_skipped_def is_sentinel_def)
  moreover have "\<exists>res. h_counts h' = [res]"
    using handler_acks_only_processed [OF h] by (auto simp: idle_handler_def)
  ultimately show ?thesis using h by auto
qed

text \<open>
  C13: what a sink remembers of its stalled messages stays bounded by 1000 entries under any handling,
  keys stay distinct, every entry has failed at least once, the two gauges equal the set, an entry
  changes only when its own message is handled, and an ack forgets its message.
\<close>

theorem stalled_set_bounded:
  assumes "handle proc now msg h d = (r, h', d')" and "stalled_inv (h_stalled h)"
    and "not_before now (h_stalled h)"
  shows "stalled_inv (h_stalled h') \<and> stalled_len (h_stalled h') \<le> 1000 \<and>
    (\<forall>uid. uid \<noteq> uuid msg \<longrightarrow>
      map_of (ss_entries (h_stalled h')) uid = map_of (ss_entries (h_stalled h)) uid) \<and>
    (r = None \<longrightarrow> map_of (ss_entries (h_stalled h')) (uuid msg) = None)"
proof (intro conjI)
  show inv: "stalled_inv (h_stalled h')" by (rule handle_stalled_inv [OF assms])
  then show "stalled_len (h_stalled h') \<le> 1000" by (simp add: stalled_inv_def max_stalled_entries_def)
  show "\<forall>uid. uid \<noteq> uuid msg \<longrightarrow>
      map_of (ss_entries (h_stalled h')) uid = map_of (ss_entries (h_stalled h)) uid"
    using handle_other_stalled [OF assms(1)] by blast
  show "r = None \<longrightarrow> map_of (ss_entries (h_stalled h')) (uuid msg) = None"
    using handle_ack [of proc now msg h d h' d'] assms(1) by (cases r) auto
qed

theorem stalled_set_bounded_witness:
  "\<exists>r h'. handle (\<lambda>env d. (None, d)) 5 \<lparr>uuid = ''u'', metadata = None, msg_payload = []\<rparr> idle_handler () = (r, h', ()) \<and>
    stalled_inv (h_stalled h')"
proof -
  let ?p = "\<lambda>(env :: envelope) (d :: unit). (None, d)"
  obtain r h' d' where h: "handle ?p 5 \<lparr>uuid = ''u'', metadata = None, msg_payload = []\<rparr> idle_handler () = (r, h', d')"
    using prod_cases3 by blast
  have "stalled_inv (h_stalled idle_handler)" by (simp add: idle_handler_def new_stalled_set_inv)
  moreover have "not_before 5 (h_stalled idle_handler)"
    by (simp add: idle_handler_def new_stalled_set_def not_before_def)
  ultimately show ?thesis using stalled_set_bounded [OF h] h by auto
qed

end
