(* ===== verification/SinkRegistry.thy ===== *)
theory SinkRegistry
  imports SinkCore "HOL-Library.Multiset"
begin

text \<open>
  Package \<open>sink\<close>, continued: destination classes (\<open>sink.go\<close>), the driver registry that builds the
  configured sinks and fails closed (\<open>registry.go\<close>), and the binding of every sink to its own bus
  consumer (\<open>BuildRouter\<close> and \<open>bind\<close> in \<open>router.go\<close>).
\<close>

section \<open>Classes\<close>

definition class_trace :: int where "class_trace = 1"
definition class_log :: int where "class_log = 2"
definition class_analytics :: int where "class_analytics = 3"
definition class_archive :: int where "class_archive = 4"
definition class_forward :: int where "class_forward = 5"

lemmas class_defs [go_simps] = class_trace_def class_log_def class_analytics_def class_archive_def
  class_forward_def

definition sink_classes :: "string list" where
  "sink_classes = [''trace'', ''log'', ''analytics'', ''archive'', ''forward'']"

definition parse_class :: "string \<Rightarrow> goerr + int" where
  "parse_class s = (if s = ''trace'' then Inr class_trace else if s = ''log'' then Inr class_log
     else if s = ''analytics'' then Inr class_analytics else if s = ''archive'' then Inr class_archive
     else if s = ''forward'' then Inr class_forward else Inl (Msg ''unknown sink class''))"

definition class_string :: "int \<Rightarrow> string" where
  "class_string c = (if c = class_trace then ''trace'' else if c = class_log then ''log''
     else if c = class_analytics then ''analytics'' else if c = class_archive then ''archive''
     else if c = class_forward then ''forward'' else ''Class('' @ format_int c @ '')'')"

definition class_valid :: "int \<Rightarrow> bool" where
  "class_valid c \<longleftrightarrow> class_trace \<le> c \<and> c \<le> class_forward"

definition consumer_name :: "string \<Rightarrow> string" where
  "consumer_name sink_name = ''sink-'' @ sink_name"

section \<open>Driver registry\<close>

type_synonym 'd sink_registry = "(int, (string, 'd driver_reg) amap) amap"

definition class_drivers :: "'d sink_registry \<Rightarrow> int \<Rightarrow> (string, 'd driver_reg) amap" where
  "class_drivers r c = (case map_of r c of None \<Rightarrow> [] | Some m \<Rightarrow> m)"

text \<open>A panic of \<open>RegisterDriver\<close> is \<open>None\<close>.\<close>

definition register_driver :: "int \<Rightarrow> string \<Rightarrow> 'd driver_reg \<Rightarrow> 'd sink_registry \<Rightarrow> 'd sink_registry option" where
  "register_driver c name d r =
     (if \<not> class_valid c then None
      else if name = [] then None
      else if factory d = None then None
      else if \<not> has_describer d then None
      else if map_of (class_drivers r c) name \<noteq> None then None
      else Some (AList.update c (AList.update name d (class_drivers r c)) r))"

definition drivers_of :: "'d sink_registry \<Rightarrow> int \<Rightarrow> string list" where
  "drivers_of r c = sort_strings (map fst (class_drivers r c))"

text \<open>
  A built sink reports its name and class; \<open>bs_id\<close> tells two built sinks apart. \<open>fac\<close> is what a driver's
  factory answers for a sink name: an error, nil, or a sink.
\<close>

record built_sink =
  bs_id :: nat
  bs_name :: string
  bs_class :: int

record sink_config =
  sk_name :: string
  sk_class :: string
  sk_driver :: string
  sk_start_from :: string

record instance_of =
  in_sink :: built_sink
  in_start_from :: int
  in_driver :: string

text \<open>Building one sink: the result and the sinks opened but closed again on the way.\<close>

definition build_one ::
  "'d sink_registry \<Rightarrow> ('d \<Rightarrow> string \<Rightarrow> goerr + built_sink option) \<Rightarrow> sink_config
    \<Rightarrow> (goerr + instance_of) \<times> built_sink list" where
  "build_one r fac cfg =
     (if sk_name cfg = [] then (Inl (Msg ''name is required''), [])
      else case validate_consumer_name (consumer_name (sk_name cfg)) of Some e \<Rightarrow> (Inl e, []) | None \<Rightarrow>
      (case parse_class (sk_class cfg) of Inl e \<Rightarrow> (Inl e, []) | Inr cls \<Rightarrow>
      (case parse_start_position (sk_start_from cfg) of Inl e \<Rightarrow> (Inl (Wrap ''start_from'' [e]), []) | Inr start \<Rightarrow>
      if sk_driver cfg = [] then (Inl (Msg ''driver is required''), [])
      else case map_of (class_drivers r cls) (sk_driver cfg) of None \<Rightarrow> (Inl (Msg ''unknown driver''), [])
      | Some d \<Rightarrow>
      (case factory d of None \<Rightarrow> (Inl (Msg ''nil factory''), []) | Some f \<Rightarrow>
      (case fac f (sk_name cfg) of
         Inl e \<Rightarrow> (Inl (Wrap ''driver'' [e]), [])
       | Inr None \<Rightarrow> (Inl (Msg ''driver returned no sink''), [])
       | Inr (Some s) \<Rightarrow>
           if bs_name s \<noteq> sk_name cfg \<or> bs_class s \<noteq> cls
           then (Inl (Msg ''driver built another sink''), [s])
           else (Inr \<lparr>in_sink = s, in_start_from = start, in_driver = sk_driver cfg\<rparr>, []))))))"

text \<open>
  The loop of \<open>Build\<close>: \<open>seen\<close> holds the names built so far. The result carries the list of sinks that
  were closed.
\<close>

fun build_loop ::
  "'d sink_registry \<Rightarrow> ('d \<Rightarrow> string \<Rightarrow> goerr + built_sink option) \<Rightarrow> string list \<Rightarrow> instance_of list \<Rightarrow>
    sink_config list \<Rightarrow> (goerr + instance_of list) \<times> built_sink list" where
  "build_loop r fac seen insts [] = (Inr insts, [])"
| "build_loop r fac seen insts (cfg # cfgs) =
     (case build_one r fac cfg of
        (Inl e, closed) \<Rightarrow> (Inl (JoinE [Wrap (sk_name cfg) [e]]), closed @ map in_sink insts)
      | (Inr inst, closed) \<Rightarrow>
          if sk_name cfg \<in> set seen
          then (Inl (JoinE [Wrap (sk_name cfg) [Msg ''duplicate sink name'']]),
                closed @ [in_sink inst] @ map in_sink insts)
          else
            (let (res, later) = build_loop r fac (sk_name cfg # seen) (insts @ [inst]) cfgs
             in (res, closed @ later)))"

definition build_sinks ::
  "'d sink_registry \<Rightarrow> ('d \<Rightarrow> string \<Rightarrow> goerr + built_sink option) \<Rightarrow> sink_config list
    \<Rightarrow> (goerr + instance_of list) \<times> built_sink list" where
  "build_sinks r fac cfgs = build_loop r fac [] [] cfgs"

text \<open>The sinks the factories opened, in order, up to the one that made the build fail.\<close>

definition opened_one :: "'d sink_registry \<Rightarrow> ('d \<Rightarrow> string \<Rightarrow> goerr + built_sink option) \<Rightarrow> sink_config \<Rightarrow> built_sink list" where
  "opened_one r fac cfg =
     (case build_one r fac cfg of (Inl e, closed) \<Rightarrow> closed | (Inr inst, closed) \<Rightarrow> closed @ [in_sink inst])"

fun opened_loop ::
  "'d sink_registry \<Rightarrow> ('d \<Rightarrow> string \<Rightarrow> goerr + built_sink option) \<Rightarrow> string list \<Rightarrow> sink_config list \<Rightarrow> built_sink list" where
  "opened_loop r fac seen [] = []"
| "opened_loop r fac seen (cfg # cfgs) =
     opened_one r fac cfg @
     (case fst (build_one r fac cfg) of
        Inl e \<Rightarrow> []
      | Inr inst \<Rightarrow> if sk_name cfg \<in> set seen then [] else opened_loop r fac (sk_name cfg # seen) cfgs)"

section \<open>Binding sinks to consumers\<close>

record router_config =
  rc_process_timeout :: duration
  rc_close_timeout :: duration

record bound =
  bd_name :: string
  bd_consumer :: string
  bd_requested :: int
  bd_effective :: int
  bd_warnings :: "warning list"

text \<open>
  \<open>sub\<close> answers \<open>b.Subscribe\<close> for a consumer name and position. The result carries the consumers whose
  subscribers were closed again.
\<close>

definition bind_sink ::
  "capabilities \<Rightarrow> int \<Rightarrow> (string \<Rightarrow> int \<Rightarrow> goerr option) \<Rightarrow> instance_of \<Rightarrow> goerr + bound" where
  "bind_sink caps mode sub inst =
     (let name = bs_name (in_sink inst) in
      case resolve_consumer caps (in_start_from inst) mode of
        Inl e \<Rightarrow> Inl (Wrap ''sink'' [e])
      | Inr (effective, warnings) \<Rightarrow>
          (case sub (consumer_name name) effective of
             Some e \<Rightarrow> Inl (Wrap ''sink: create consumer'' [e])
           | None \<Rightarrow> Inr \<lparr>bd_name = name, bd_consumer = consumer_name name,
               bd_requested = in_start_from inst, bd_effective = effective, bd_warnings = warnings\<rparr>))"

fun bind_all ::
  "capabilities \<Rightarrow> int \<Rightarrow> (string \<Rightarrow> int \<Rightarrow> goerr option) \<Rightarrow> bound list \<Rightarrow> instance_of list
    \<Rightarrow> (goerr + bound list) \<times> string list" where
  "bind_all caps mode sub hs [] = (Inr hs, [])"
| "bind_all caps mode sub hs (i # is) =
     (case bind_sink caps mode sub i of
        Inl e \<Rightarrow> (Inl e, map bd_consumer hs)
      | Inr h \<Rightarrow> bind_all caps mode sub (hs @ [h]) is)"

definition build_router ::
  "bool \<Rightarrow> bool \<Rightarrow> router_config \<Rightarrow> capabilities \<Rightarrow> int \<Rightarrow> (string \<Rightarrow> int \<Rightarrow> goerr option) \<Rightarrow> instance_of list
    \<Rightarrow> (goerr + bound list) \<times> string list" where
  "build_router has_bus has_metrics cfg caps mode sub insts =
     (if \<not> has_bus then (Inl (Msg ''sink: router needs a bus''), [])
      else if \<not> has_metrics then (Inl (Msg ''sink: router needs metrics''), [])
      else if rc_process_timeout cfg \<le> 0 then (Inl (Msg ''sink: router.process_timeout must be > 0''), [])
      else if rc_close_timeout cfg \<le> 0 then (Inl (Msg ''sink: router.close_timeout must be > 0''), [])
      else bind_all caps mode sub [] insts)"

section \<open>Lemmas\<close>

lemma parse_class_sound: "parse_class s = Inr c \<Longrightarrow> class_string c = s \<and> class_valid c"
  by (auto simp: parse_class_def class_string_def class_valid_def go_simps split: if_splits)

lemma parse_class_complete: "class_valid c \<Longrightarrow> parse_class (class_string c) = Inr c"
proof -
  assume "class_valid c"
  then have "c = 1 \<or> c = 2 \<or> c = 3 \<or> c = 4 \<or> c = 5" by (auto simp: class_valid_def class_defs)
  then show ?thesis by (auto simp: parse_class_def class_string_def class_defs)
qed

lemma consumer_name_inj: "consumer_name a = consumer_name b \<longleftrightarrow> a = b"
  by (simp add: consumer_name_def)

lemma build_one_ok:
  assumes "build_one r fac cfg = (Inr inst, closed)"
  shows "closed = [] \<and> bs_name (in_sink inst) = sk_name cfg \<and> sk_name cfg \<noteq> [] \<and>
    parse_class (sk_class cfg) = Inr (bs_class (in_sink inst)) \<and>
    parse_start_position (sk_start_from cfg) = Inr (in_start_from inst) \<and> in_driver inst = sk_driver cfg \<and>
    validate_consumer_name (consumer_name (sk_name cfg)) = None"
  using assms
  by (auto simp: build_one_def split: option.splits sum.splits if_splits)

lemma build_one_closed: "build_one r fac cfg = (Inl e, closed) \<Longrightarrow> opened_one r fac cfg = closed"
  by (simp add: opened_one_def)

text \<open>
  \<open>Build\<close> fails closed: when it fails, the sinks it closed are exactly the ones opened so far, each
  once; when it succeeds it closed nothing and every sink opened is in the result.
\<close>

lemma build_loop_closes:
  "(case build_loop r fac seen insts cfgs of
      (Inl e, closed) \<Rightarrow> mset closed = mset (map in_sink insts @ opened_loop r fac seen cfgs)
    | (Inr res, closed) \<Rightarrow> closed = [] \<and> map in_sink res = map in_sink insts @ opened_loop r fac seen cfgs)"
proof (induction cfgs arbitrary: seen insts)
  case (Cons cfg cfgs)
  obtain res closed where b: "build_one r fac cfg = (res, closed)" by fastforce
  show ?case
  proof (cases res)
    case (Inl e)
    then show ?thesis using b by (simp add: opened_one_def ac_simps)
  next
    case (Inr inst)
    note closed = conjunct1 [OF build_one_ok [OF b [unfolded Inr]]]
    show ?thesis
    proof (cases "sk_name cfg \<in> set seen")
      case True
      with b Inr closed show ?thesis by (simp add: opened_one_def)
    next
      case False
      obtain res1 later where l: "build_loop r fac (sk_name cfg # seen) (insts @ [inst]) cfgs = (res1, later)"
        by fastforce
      show ?thesis
        using Cons.IH [of "insts @ [inst]" "sk_name cfg # seen"] b Inr closed False l
        by (cases res1) (simp_all add: opened_one_def)
    qed
  qed
qed simp

lemma build_loop_names:
  assumes "build_loop r fac seen insts cfgs = (Inr res, closed)"
  shows "\<exists>new. res = insts @ new \<and> map (\<lambda>i. bs_name (in_sink i)) new = map sk_name cfgs \<and>
    distinct (map sk_name cfgs) \<and> set (map sk_name cfgs) \<inter> set seen = {} \<and>
    list_all2 (\<lambda>cfg i. parse_class (sk_class cfg) = Inr (bs_class (in_sink i)) \<and>
      parse_start_position (sk_start_from cfg) = Inr (in_start_from i)) cfgs new"
  using assms
proof (induction cfgs arbitrary: seen insts closed)
  case (Cons cfg cfgs)
  obtain r1 closed1 where b: "build_one r fac cfg = (r1, closed1)" by fastforce
  obtain inst where inst: "r1 = Inr inst" and fresh: "sk_name cfg \<notin> set seen"
    using Cons.prems b by (cases r1) (auto split: if_splits prod.splits)
  obtain later where l: "build_loop r fac (sk_name cfg # seen) (insts @ [inst]) cfgs = (Inr res, later)"
    using Cons.prems b inst fresh by (auto split: prod.splits)
  from Cons.IH [OF l] obtain new where new: "res = (insts @ [inst]) @ new"
    "map (\<lambda>i. bs_name (in_sink i)) new = map sk_name cfgs" "distinct (map sk_name cfgs)"
    "set (map sk_name cfgs) \<inter> set (sk_name cfg # seen) = {}"
    "list_all2 (\<lambda>cfg i. parse_class (sk_class cfg) = Inr (bs_class (in_sink i)) \<and>
      parse_start_position (sk_start_from cfg) = Inr (in_start_from i)) cfgs new" by blast
  with build_one_ok [OF b [unfolded inst]] fresh show ?case
    by (intro exI [of _ "inst # new"]) auto
qed simp

text \<open>A failed router closes every consumer it created, a built one has one consumer per sink.\<close>

lemma bind_all_ok:
  assumes "bind_all caps mode sub hs is = (Inr res, closed)"
  shows "closed = [] \<and> (\<exists>new. res = hs @ new \<and>
    map bd_consumer new = map (\<lambda>i. consumer_name (bs_name (in_sink i))) is \<and>
    list_all2 (\<lambda>i b. resolve_consumer caps (in_start_from i) mode = Inr (bd_effective b, bd_warnings b)) is new)"
  using assms
proof (induction "is" arbitrary: hs)
  case (Cons i "is")
  then obtain h where h: "bind_sink caps mode sub i = Inr h" by (auto split: sum.splits)
  with Cons.prems have "bind_all caps mode sub (hs @ [h]) is = (Inr res, closed)" by simp
  from Cons.IH [OF this] obtain new where new: "closed = []" "res = (hs @ [h]) @ new"
    "map bd_consumer new = map (\<lambda>i. consumer_name (bs_name (in_sink i))) is"
    "list_all2 (\<lambda>i b. resolve_consumer caps (in_start_from i) mode = Inr (bd_effective b, bd_warnings b)) is new"
    by blast
  have "bd_consumer h = consumer_name (bs_name (in_sink i))"
    "resolve_consumer caps (in_start_from i) mode = Inr (bd_effective h, bd_warnings h)"
    using h by (auto simp: bind_sink_def Let_def split: sum.splits option.splits)
  with new show ?case by (intro conjI exI [of _ "h # new"]) auto
qed simp

lemma bind_all_failed:
  assumes "bind_all caps mode sub hs is = (Inl e, closed)"
  shows "\<exists>done i rest. is = done @ i # rest \<and>
    (\<exists>e'. bind_sink caps mode sub i = Inl e') \<and>
    closed = map bd_consumer hs @ map (\<lambda>i. consumer_name (bs_name (in_sink i))) done"
  using assms
proof (induction "is" arbitrary: hs)
  case (Cons i "is")
  show ?case
  proof (cases "bind_sink caps mode sub i")
    case (Inl e')
    with Cons.prems show ?thesis by (intro exI [of _ "[]"] exI [of _ i] exI [of _ "is"]) simp
  next
    case (Inr h)
    with Cons.prems have "bind_all caps mode sub (hs @ [h]) is = (Inl e, closed)" by simp
    from Cons.IH [OF this] obtain dn k rest where d: "is = dn @ k # rest"
      "\<exists>e'. bind_sink caps mode sub k = Inl e'"
      "closed = map bd_consumer (hs @ [h]) @ map (\<lambda>i. consumer_name (bs_name (in_sink i))) dn" by blast
    have "bd_consumer h = consumer_name (bs_name (in_sink i))"
      using Inr by (auto simp: bind_sink_def Let_def split: sum.splits option.splits)
    with d show ?thesis by (intro exI [of _ "i # dn"] exI [of _ k] exI [of _ rest]) simp
  qed
qed simp

section \<open>Properties\<close>


end
