(* ===== verification/SingleFlight.thy ===== *)
theory SingleFlight
  imports Prelude
begin

text \<open>
  \<open>SingleFlight\<close> (\<open>internal/sink/singleflight.go\<close>) as a step relation. Every step is what one caller
  does between two points at which another can run: a critical section, a blocking receive, the run
  of \<open>open\<close>, the close of a call's channel. Callers are numbered; a call is its channel, and \<open>sf_owner\<close> records
  which caller started it.
\<close>

section \<open>States\<close>

datatype 'v outcome = Value 'v | Failed goerr | Panicked

datatype 'v pc =
    Idle
  | AtDo | DoWaits nat | Opening nat | Closing nat "'v outcome" | DoDone "'v outcome"
  | AtPeek | PeekWaits nat | PeekDone "'v option"

record 'v flight =
  sf_ready :: bool
  sf_value :: "'v option"
  sf_call :: "nat option"
  sf_next :: nat
  sf_closed :: "nat set"
  sf_owner :: "nat \<Rightarrow> nat"
  sf_pcs :: "nat \<Rightarrow> 'v pc"

definition sf_init :: "'v flight \<Rightarrow> bool" where
  "sf_init s \<longleftrightarrow> \<not> sf_ready s \<and> sf_value s = None \<and> sf_call s = None \<and> sf_next s = 0 \<and>
     sf_closed s = {} \<and> (\<forall>t. sf_pcs s t = Idle)"

definition resting :: "'v pc \<Rightarrow> bool" where
  "resting p \<longleftrightarrow> p = Idle \<or> (\<exists>r. p = DoDone r) \<or> (\<exists>r. p = PeekDone r)"

abbreviation goto :: "nat \<Rightarrow> 'v pc \<Rightarrow> 'v flight \<Rightarrow> 'v flight" where
  "goto t p s \<equiv> s\<lparr>sf_pcs := (sf_pcs s)(t := p)\<rparr>"

section \<open>Steps\<close>

inductive sf_step :: "'v flight \<Rightarrow> 'v flight \<Rightarrow> bool" where
  call_do: "resting (sf_pcs s t) \<Longrightarrow> sf_step s (goto t AtDo s)"
| call_peek: "resting (sf_pcs s t) \<Longrightarrow> sf_step s (goto t AtPeek s)"
| do_ready: "sf_pcs s t = AtDo \<Longrightarrow> sf_ready s \<Longrightarrow> sf_value s = Some v \<Longrightarrow>
    sf_step s (goto t (DoDone (Value v)) s)"
| do_join: "sf_pcs s t = AtDo \<Longrightarrow> \<not> sf_ready s \<Longrightarrow> sf_call s = Some c \<Longrightarrow>
    sf_step s (goto t (DoWaits c) s)"
| do_start: "sf_pcs s t = AtDo \<Longrightarrow> \<not> sf_ready s \<Longrightarrow> sf_call s = None \<Longrightarrow>
    sf_step s (goto t (Opening (sf_next s)) (s\<lparr>sf_call := Some (sf_next s), sf_next := Suc (sf_next s),
      sf_owner := (sf_owner s)(sf_next s := t)\<rparr>))"
| do_wake: "sf_pcs s t = DoWaits c \<Longrightarrow> c \<in> sf_closed s \<Longrightarrow> sf_step s (goto t AtDo s)"
| do_cancel: "sf_pcs s t = DoWaits c \<Longrightarrow> sf_step s (goto t (DoDone (Failed (CtxErr e))) s)"
| open_ok: "sf_pcs s t = Opening c \<Longrightarrow>
    sf_step s (goto t (Closing c (Value v)) (s\<lparr>sf_call := None, sf_ready := True, sf_value := Some v\<rparr>))"
| open_failed: "sf_pcs s t = Opening c \<Longrightarrow>
    sf_step s (goto t (Closing c (Failed e)) (s\<lparr>sf_call := None\<rparr>))"
| open_panicked: "sf_pcs s t = Opening c \<Longrightarrow>
    sf_step s (goto t (Closing c Panicked) (s\<lparr>sf_call := None\<rparr>))"
| close_call: "sf_pcs s t = Closing c r \<Longrightarrow>
    sf_step s (goto t (DoDone r) (s\<lparr>sf_closed := insert c (sf_closed s)\<rparr>))"
| peek_ready: "sf_pcs s t = AtPeek \<Longrightarrow> sf_ready s \<Longrightarrow>
    sf_step s (goto t (PeekDone (sf_value s)) s)"
| peek_none: "sf_pcs s t = AtPeek \<Longrightarrow> \<not> sf_ready s \<Longrightarrow> sf_call s = None \<Longrightarrow>
    sf_step s (goto t (PeekDone None) s)"
| peek_join: "sf_pcs s t = AtPeek \<Longrightarrow> \<not> sf_ready s \<Longrightarrow> sf_call s = Some c \<Longrightarrow>
    sf_step s (goto t (PeekWaits c) s)"
| peek_wake: "sf_pcs s t = PeekWaits c \<Longrightarrow> c \<in> sf_closed s \<Longrightarrow> sf_step s (goto t AtPeek s)"
| peek_cancel: "sf_pcs s t = PeekWaits c \<Longrightarrow> sf_step s (goto t (PeekDone None) s)"

section \<open>The invariant\<close>

text \<open>What a program counter says: the call it runs, holds or waits for, and the value it returns.\<close>

fun pc_opens :: "'v pc \<Rightarrow> nat option" where
  "pc_opens (Opening c) = Some c"
| "pc_opens _ = None"

fun pc_holds :: "'v pc \<Rightarrow> nat option" where
  "pc_holds (Opening c) = Some c"
| "pc_holds (Closing c r) = Some c"
| "pc_holds _ = None"

fun pc_waits :: "'v pc \<Rightarrow> nat option" where
  "pc_waits (DoWaits c) = Some c"
| "pc_waits (PeekWaits c) = Some c"
| "pc_waits _ = None"

fun pc_value :: "'v pc \<Rightarrow> 'v option" where
  "pc_value (Closing c (Value v)) = Some v"
| "pc_value (DoDone (Value v)) = Some v"
| "pc_value (PeekDone w) = w"
| "pc_value _ = None"

definition pc_ok :: "'v flight \<Rightarrow> nat \<Rightarrow> 'v pc \<Rightarrow> bool" where
  "pc_ok s t p \<longleftrightarrow>
     (\<forall>c. pc_opens p = Some c \<longrightarrow> sf_call s = Some c) \<and>
     (\<forall>c. pc_holds p = Some c \<longrightarrow> sf_owner s c = t \<and> c < sf_next s) \<and>
     (\<forall>c. pc_waits p = Some c \<longrightarrow> c < sf_next s \<and>
        (c \<in> sf_closed s \<or> pc_holds (sf_pcs s (sf_owner s c)) = Some c)) \<and>
     (\<forall>v. pc_value p = Some v \<longrightarrow> sf_ready s \<and> sf_value s = Some v)"

definition sf_inv :: "'v flight \<Rightarrow> bool" where
  "sf_inv s \<longleftrightarrow> (\<forall>t. pc_ok s t (sf_pcs s t)) \<and>
     (\<forall>c. sf_call s = Some c \<longrightarrow> c < sf_next s \<and> pc_opens (sf_pcs s (sf_owner s c)) = Some c) \<and>
     (sf_ready s \<longrightarrow> sf_call s = None \<and> sf_value s \<noteq> None)"

lemma sf_init_inv: "sf_init s \<Longrightarrow> sf_inv s"
  by (auto simp: sf_init_def sf_inv_def pc_ok_def)

lemma resting_simps:
  assumes "resting p"
  shows "pc_opens p = None" "pc_holds p = None" "pc_waits p = None"
  using assms by (auto simp: resting_def)

lemma pc_opens_holds: "pc_opens p = Some c \<Longrightarrow> pc_holds p = Some c"
  by (cases p) auto

lemma sf_invD:
  assumes "sf_inv s"
  shows "pc_opens (sf_pcs s t) = Some c \<Longrightarrow> sf_call s = Some c"
    and "pc_holds (sf_pcs s t) = Some c \<Longrightarrow> sf_owner s c = t"
    and "pc_holds (sf_pcs s t) = Some c \<Longrightarrow> c < sf_next s"
    and "pc_waits (sf_pcs s t) = Some c \<Longrightarrow> c < sf_next s"
    and "pc_waits (sf_pcs s t) = Some c \<Longrightarrow> c \<in> sf_closed s \<or> pc_holds (sf_pcs s (sf_owner s c)) = Some c"
    and "pc_value (sf_pcs s t) = Some v \<Longrightarrow> sf_ready s \<and> sf_value s = Some v"
    and "sf_call s = Some c \<Longrightarrow> c < sf_next s \<and> pc_opens (sf_pcs s (sf_owner s c)) = Some c"
    and "sf_ready s \<Longrightarrow> sf_call s = None \<and> sf_value s \<noteq> None"
  using assms by (auto simp: sf_inv_def pc_ok_def)

text \<open>
  A step that moves one caller which holds no call, leaving the shared state alone.
\<close>

lemma sf_inv_move:
  assumes inv: "sf_inv s" and old: "pc_holds (sf_pcs s t) = None" and ok: "pc_ok s t p"
    and new: "pc_holds p = None"
  shows "sf_inv (goto t p s)"
proof -
  have holds: "pc_holds (((sf_pcs s)(t := p)) u) = Some c \<longleftrightarrow> pc_holds (sf_pcs s u) = Some c" for u c
    using old new by simp
  have opens: "pc_opens (((sf_pcs s)(t := p)) u) = Some c \<longleftrightarrow> pc_opens (sf_pcs s u) = Some c" for u c
    using pc_opens_holds [of "sf_pcs s t" c] pc_opens_holds [of p c] old new by auto
  have "pc_ok (goto t p s) u q \<longleftrightarrow> pc_ok s u q" for u q
    by (simp add: pc_ok_def holds del: fun_upd_apply)
  then show ?thesis
    using inv ok by (simp add: sf_inv_def opens del: fun_upd_apply) (simp add: fun_upd_apply)
qed

lemma finish_inv:
  assumes inv: "sf_inv s" and t: "sf_pcs s t = Opening c"
    and s': "s' = goto t (Closing c r) (s\<lparr>sf_call := None, sf_ready := rd, sf_value := v\<rparr>)"
    and res: "\<And>w. r = Value w \<Longrightarrow> rd \<and> v = Some w"
    and rd: "rd \<Longrightarrow> v \<noteq> None" and old: "\<not> rd \<Longrightarrow> \<not> sf_ready s"
  shows "sf_inv s'"
proof -
  have call: "sf_call s = Some c" using sf_invD(1) [OF inv, of t c] t by simp
  then have notready: "\<not> sf_ready s" using sf_invD(8) [OF inv] by auto
  have own: "sf_owner s c = t" "c < sf_next s" using sf_invD(2,3) [OF inv, of t c] t by simp_all
  have holds: "pc_holds (sf_pcs s' u) = pc_holds (sf_pcs s u)" for u
    using t by (simp add: s')
  have others: "pc_ok s' u (sf_pcs s u)" if "u \<noteq> t" for u
  proof -
    have "pc_opens (sf_pcs s u) \<noteq> Some d" for d
      using sf_invD(1) [OF inv, of u d] pc_opens_holds [of "sf_pcs s u" d] sf_invD(2) [OF inv, of u d]
        call own that by auto
    moreover have "pc_value (sf_pcs s u) \<noteq> Some w" for w
      using sf_invD(6) [OF inv, of u w] notready by auto
    ultimately show ?thesis
      using sf_invD(2-5) [OF inv, of u] holds by (auto simp: pc_ok_def s' simp del: fun_upd_apply)
  qed
  have me: "pc_ok s' t (Closing c r)"
    using own res by (cases r) (auto simp: pc_ok_def s')
  show ?thesis
    using others me rd by (auto simp: sf_inv_def s')
qed

lemma start_inv:
  assumes inv: "sf_inv s" and t: "sf_pcs s t = AtDo" and idle: "\<not> sf_ready s" "sf_call s = None"
    and s': "s' = goto t (Opening (sf_next s)) (s\<lparr>sf_call := Some (sf_next s), sf_next := Suc (sf_next s),
      sf_owner := (sf_owner s)(sf_next s := t)\<rparr>)"
  shows "sf_inv s'"
proof -
  have "pc_ok s' u (sf_pcs s u)" if "u \<noteq> t" for u
  proof -
    have "pc_opens (sf_pcs s u) \<noteq> Some d" for d
      using sf_invD(1) [OF inv, of u d] idle by auto
    moreover have "pc_value (sf_pcs s u) \<noteq> Some w" for w
      using sf_invD(6) [OF inv, of u w] idle by auto
    moreover have "d < Suc (sf_next s) \<and> (d \<in> sf_closed s \<or> pc_holds (sf_pcs s' (sf_owner s' d)) = Some d)"
      if "pc_waits (sf_pcs s u) = Some d" for d
      using sf_invD(4,5) [OF inv that] t by (auto simp: s')
    moreover have "sf_owner s' d = u \<and> d < Suc (sf_next s)" if "pc_holds (sf_pcs s u) = Some d" for d
      using sf_invD(2,3) [OF inv that] by (auto simp: s')
    ultimately show ?thesis by (auto simp: pc_ok_def s')
  qed
  then show ?thesis by (auto simp: sf_inv_def pc_ok_def s' idle)
qed

lemma close_inv:
  assumes inv: "sf_inv s" and t: "sf_pcs s t = Closing c r"
    and s': "s' = goto t (DoDone r) (s\<lparr>sf_closed := insert c (sf_closed s)\<rparr>)"
  shows "sf_inv s'"
proof -
  have own: "sf_owner s c = t" using sf_invD(2) [OF inv, of t c] t by simp
  have "pc_ok s' u (sf_pcs s u)" if "u \<noteq> t" for u
  proof -
    have "d < sf_next s \<and> (d \<in> insert c (sf_closed s) \<or> pc_holds (sf_pcs s' (sf_owner s d)) = Some d)"
      if "pc_waits (sf_pcs s u) = Some d" for d
      using sf_invD(4,5) [OF inv that] t by (cases "sf_owner s d = t") (auto simp: s')
    then show ?thesis
      using sf_invD(1,2,3,6) [OF inv, of u] by (auto simp: pc_ok_def s')
  qed
  moreover have "pc_ok s' t (DoDone r)"
    using sf_invD(6) [OF inv, of t] t by (cases r) (auto simp: pc_ok_def s')
  moreover have "pc_opens (sf_pcs s' u) = pc_opens (sf_pcs s u)" for u
    using t by (simp add: s')
  ultimately show ?thesis
    using sf_invD(7,8) [OF inv] by (auto simp: sf_inv_def s' split: if_splits)
qed

lemma wait_ok:
  assumes "sf_inv s" and "sf_call s = Some c" and "pc_opens p = None" "pc_holds p = None"
    "pc_waits p = Some c" "pc_value p = None"
  shows "pc_ok s t p"
  using sf_invD(7) [OF assms(1,2)] assms(3-) pc_opens_holds by (auto simp: pc_ok_def)

lemma opening_call:
  assumes "sf_inv s" and "sf_pcs s t = Opening c"
  shows "sf_call s = Some c \<and> sf_owner s c = t \<and> \<not> sf_ready s"
  using sf_invD(1,2) [OF assms(1), of t c] sf_invD(8) [OF assms(1)] assms(2) by auto

lemma finish_failed_inv:
  assumes inv: "sf_inv s" and t: "sf_pcs s t = Opening c" and r: "\<And>w. r \<noteq> Value w"
  shows "sf_inv (goto t (Closing c r) (s\<lparr>sf_call := None\<rparr>))"
proof (rule finish_inv [OF inv t, where rd = "sf_ready s" and v = "sf_value s"])
  show "sf_ready s \<Longrightarrow> sf_value s \<noteq> None" using sf_invD(8) [OF inv] by simp
  show "\<And>w. r = Value w \<Longrightarrow> sf_ready s \<and> sf_value s = Some w" using r by blast
qed simp_all

lemma sf_step_inv: "sf_step s s' \<Longrightarrow> sf_inv s \<Longrightarrow> sf_inv s'"
proof (induction rule: sf_step.induct)
  case (call_do s t)
  show ?case by (rule sf_inv_move [OF call_do(2)]; use call_do in \<open>simp add: resting_simps pc_ok_def\<close>)
next
  case (call_peek s t)
  show ?case by (rule sf_inv_move [OF call_peek(2)]; use call_peek in \<open>simp add: resting_simps pc_ok_def\<close>)
next
  case (do_ready s t v)
  show ?case by (rule sf_inv_move [OF do_ready(4)]; use do_ready in \<open>simp add: resting_simps pc_ok_def\<close>)
next
  case (do_join s t c)
  show ?case by (rule sf_inv_move [OF do_join(4)], use do_join in \<open>simp_all add: wait_ok\<close>)
next
  case (do_start s t)
  show ?case by (rule start_inv [OF do_start(4) do_start(1-3) refl])
next
  case (do_wake s t c)
  show ?case by (rule sf_inv_move [OF do_wake(3)]; use do_wake in \<open>simp add: resting_simps pc_ok_def\<close>)
next
  case (do_cancel s t c e)
  show ?case by (rule sf_inv_move [OF do_cancel(2)]; use do_cancel in \<open>simp add: resting_simps pc_ok_def\<close>)
next
  case (open_ok s t c v)
  show ?case by (rule finish_inv [OF open_ok(2) open_ok(1) refl]) simp_all
next
  case (open_failed s t c e)
  show ?case by (rule finish_failed_inv [OF open_failed(2) open_failed(1)]) simp
next
  case (open_panicked s t c)
  show ?case by (rule finish_failed_inv [OF open_panicked(2) open_panicked(1)]) simp
next
  case (close_call s t c r)
  show ?case by (rule close_inv [OF close_call(2) close_call(1) refl])
next
  case (peek_ready s t)
  show ?case by (rule sf_inv_move [OF peek_ready(3)]; use peek_ready in \<open>simp add: resting_simps pc_ok_def\<close>)
next
  case (peek_none s t)
  show ?case by (rule sf_inv_move [OF peek_none(4)]; use peek_none in \<open>simp add: resting_simps pc_ok_def\<close>)
next
  case (peek_join s t c)
  show ?case by (rule sf_inv_move [OF peek_join(4)], use peek_join in \<open>simp_all add: wait_ok\<close>)
next
  case (peek_wake s t c)
  show ?case by (rule sf_inv_move [OF peek_wake(3)]; use peek_wake in \<open>simp add: resting_simps pc_ok_def\<close>)
next
  case (peek_cancel s t c)
  show ?case by (rule sf_inv_move [OF peek_cancel(2)]; use peek_cancel in \<open>simp add: resting_simps pc_ok_def\<close>)
qed

interpretation sf: invariant_system sf_init sf_step sf_inv
  by unfold_locales (auto intro: sf_init_inv sf_step_inv)

section \<open>What callers may rely on\<close>

text \<open>At most one \<open>open\<close> runs at any time, and none once a value is there.\<close>

lemma one_open:
  assumes "reachable sf_init sf_step s" "sf_pcs s t = Opening c" "sf_pcs s u = Opening d"
  shows "t = u \<and> c = d"
proof -
  have inv: "sf_inv s" by (rule sf.reachable_inv [OF assms(1)])
  show ?thesis using opening_call [OF inv assms(2)] opening_call [OF inv assms(3)] by simp
qed

lemma no_open_when_ready:
  assumes "reachable sf_init sf_step s" "sf_ready s"
  shows "sf_pcs s t \<noteq> Opening c"
  using opening_call [OF sf.reachable_inv [OF assms(1)]] assms(2) by blast

text \<open>Once ready, the value never changes.\<close>

lemma ready_stable_step:
  assumes "sf_inv s" "sf_step s s'" "sf_ready s"
  shows "sf_ready s' \<and> sf_value s' = sf_value s"
  using assms(2)
proof (cases rule: sf_step.cases)
  case (open_ok t c v)
  then show ?thesis using opening_call [OF assms(1)] assms(3) by blast
qed (use assms(3) in simp_all)

lemma ready_stable:
  assumes "sf_step\<^sup>*\<^sup>* s s'" and "sf_inv s" and "sf_ready s"
  shows "sf_ready s' \<and> sf_value s' = sf_value s"
  using assms
proof (induction rule: rtranclp_induct)
  case (step s1 s2)
  then have "sf_inv s1" using sf.steps_inv by blast
  with step ready_stable_step show ?case by metis
qed simp

lemma values_agree:
  assumes "reachable sf_init sf_step s"
    and "pc_value (sf_pcs s t) = Some v" and "pc_value (sf_pcs s u) = Some w"
  shows "v = w"
  using sf_invD(6) [OF sf.reachable_inv [OF assms(1)] assms(2)]
    sf_invD(6) [OF sf.reachable_inv [OF assms(1)] assms(3)] by simp

text \<open>
  Nobody waits for nothing: the call a caller waits for is closed, so it can go on, or its owner is
  still running and can take a step towards closing it.
\<close>

lemma waiter_can_go_on:
  assumes "reachable sf_init sf_step s" and "pc_waits (sf_pcs s t) = Some c" and "c \<notin> sf_closed s"
  shows "\<exists>u r. (sf_pcs s u = Opening c \<or> sf_pcs s u = Closing c r) \<and> u \<noteq> t"
proof -
  let ?u = "sf_owner s c"
  have "pc_holds (sf_pcs s ?u) = Some c"
    using sf_invD(5) [OF sf.reachable_inv [OF assms(1)] assms(2)] assms(3) by simp
  then have "sf_pcs s ?u = Opening c \<or> (\<exists>r. sf_pcs s ?u = Closing c r)"
    by (cases "sf_pcs s ?u") auto
  moreover from this have "?u \<noteq> t" using assms(2) by auto
  ultimately show ?thesis by blast
qed

text \<open>A failed attempt is not cached: with no call in flight the next \<open>Do\<close> opens again.\<close>

lemma retry_possible:
  assumes "sf_pcs s t = AtDo" "\<not> sf_ready s" "sf_call s = None"
  shows "\<exists>s' c. sf_step s s' \<and> sf_pcs s' t = Opening c"
  using do_start [OF assms] by fastforce

section \<open>Properties\<close>

text \<open>
  C9: in every interleaving of callers of \<open>Do\<close> and \<open>Peek\<close>, cancellations, failures and panics, at most
  one caller runs \<open>open\<close>, none does once a value is there, all callers that return a value return the
  same one, and it is the one that stays cached; whoever waits, waits for a call that is closed or
  whose owner is another caller still on its way to close it.
\<close>

theorem single_flight_safe:
  assumes "reachable sf_init sf_step s"
  shows "(\<forall>t u c d. sf_pcs s t = Opening c \<and> sf_pcs s u = Opening d \<longrightarrow> t = u \<and> c = d) \<and>
    (sf_ready s \<longrightarrow> (\<forall>t c. sf_pcs s t \<noteq> Opening c)) \<and>
    (\<forall>t u v w. pc_value (sf_pcs s t) = Some v \<and> pc_value (sf_pcs s u) = Some w \<longrightarrow> v = w) \<and>
    (\<forall>s'. sf_step\<^sup>*\<^sup>* s s' \<and> sf_ready s \<longrightarrow> sf_ready s' \<and> sf_value s' = sf_value s) \<and>
    (\<forall>t c. pc_waits (sf_pcs s t) = Some c \<and> c \<notin> sf_closed s \<longrightarrow>
      (\<exists>u r. (sf_pcs s u = Opening c \<or> sf_pcs s u = Closing c r) \<and> u \<noteq> t))"
proof (intro conjI)
  show "\<forall>t u c d. sf_pcs s t = Opening c \<and> sf_pcs s u = Opening d \<longrightarrow> t = u \<and> c = d"
    using one_open [OF assms] by blast
  show "sf_ready s \<longrightarrow> (\<forall>t c. sf_pcs s t \<noteq> Opening c)"
    using no_open_when_ready [OF assms] by blast
  show "\<forall>t u v w. pc_value (sf_pcs s t) = Some v \<and> pc_value (sf_pcs s u) = Some w \<longrightarrow> v = w"
    using values_agree [OF assms] by blast
  show "\<forall>s'. sf_step\<^sup>*\<^sup>* s s' \<and> sf_ready s \<longrightarrow> sf_ready s' \<and> sf_value s' = sf_value s"
    using ready_stable [OF _ sf.reachable_inv [OF assms]] by blast
  show "\<forall>t c. pc_waits (sf_pcs s t) = Some c \<and> c \<notin> sf_closed s \<longrightarrow>
      (\<exists>u r. (sf_pcs s u = Opening c \<or> sf_pcs s u = Closing c r) \<and> u \<noteq> t)"
    using waiter_can_go_on [OF assms] by blast
qed

definition flight_start :: "string flight" where
  "flight_start = \<lparr>sf_ready = False, sf_value = None, sf_call = None, sf_next = 0, sf_closed = {},
     sf_owner = (\<lambda>c. 0), sf_pcs = (\<lambda>t. Idle)\<rparr>"

definition flight_two :: "string flight" where
  "flight_two = goto 1 (Opening 0) ((goto 2 AtDo (goto 1 AtDo flight_start))\<lparr>sf_call := Some 0,
     sf_next := Suc 0, sf_owner := (\<lambda>c. 0)(0 := 1)\<rparr>)"

lemma flight_two_reachable: "reachable sf_init sf_step flight_two"
proof -
  have "reachable sf_init sf_step flight_start"
    by (rule reachable_init) (simp add: sf_init_def flight_start_def)
  then have "reachable sf_init sf_step (goto 1 AtDo flight_start)"
    by (rule reachable_step) (rule call_do, simp add: flight_start_def resting_def)
  then have 2: "reachable sf_init sf_step (goto 2 AtDo (goto 1 AtDo flight_start))"
    by (rule reachable_step) (rule call_do, simp add: flight_start_def resting_def)
  have "sf_step (goto 2 AtDo (goto 1 AtDo flight_start)) flight_two"
    using do_start [of "goto 2 AtDo (goto 1 AtDo flight_start)" 1]
    by (simp add: flight_start_def flight_two_def)
  with 2 show ?thesis by (rule reachable_step)
qed

theorem single_flight_safe_witness:
  "sf_pcs flight_two 2 = AtDo \<and> {u. \<exists>d. sf_pcs flight_two u = Opening d} = {1}"
proof (intro conjI)
  have o1: "sf_pcs flight_two 1 = Opening 0" by (simp add: flight_two_def)
  show "sf_pcs flight_two 2 = AtDo" by (simp add: flight_two_def)
  show "{u. \<exists>d. sf_pcs flight_two u = Opening d} = {1}"
    using conjunct1 [OF single_flight_safe [OF flight_two_reachable]] o1 by blast
qed

end
