(* ===== verification/GhClient.thy ===== *)
theory GhClient
  imports GoStd
begin

text \<open>
  Package \<open>ghclient\<close> (\<open>client.go\<close> and \<open>auth.go\<close> of \<open>internal/ghclient\<close>): scan targets, delivery attempts, the
  paginated listing of attempts, the redelivery request, the discovery of a hook id, and authentication. The answers of the
  go-github client are arguments; URL normalisation is an argument of the discovery.
\<close>

section \<open>Targets and deliveries\<close>

record target =
  t_owner :: string
  t_repo :: string
  t_org :: string
  t_hook_id :: int

record target_config =
  tc_repo :: string
  tc_org :: string
  tc_hook_id :: int

definition is_org :: "target \<Rightarrow> bool" where "is_org t \<longleftrightarrow> t_org t \<noteq> []"

definition target_from_config :: "target_config \<Rightarrow> goerr + target" where
  "target_from_config cfg =
     (let t = \<lparr>t_owner = [], t_repo = [], t_org = tc_org cfg, t_hook_id = tc_hook_id cfg\<rparr>;
          parsed = (if tc_repo cfg = [] then Inr t
            else case cut_at (CHR ''/'') (tc_repo cfg) of
                None \<Rightarrow> Inl (Msg ''ghclient: repo must be owner/name'')
              | Some (owner, name) \<Rightarrow>
                  if owner = [] \<or> name = [] \<or> CHR ''/'' \<in> set name
                  then Inl (Msg ''ghclient: repo must be owner/name'')
                  else Inr (t\<lparr>t_owner := owner, t_repo := name\<rparr>))
      in case parsed of
          Inl e \<Rightarrow> Inl e
        | Inr t \<Rightarrow> if is_org t = (t_repo t \<noteq> [])
            then Inl (Msg ''ghclient: target needs exactly one of repo or org'') else Inr t)"

definition target_name :: "target \<Rightarrow> string" where
  "target_name t = (if is_org t then ''org:'' @ t_org t else t_owner t @ ''/'' @ t_repo t)"

definition target_string :: "target \<Rightarrow> string" where
  "target_string t = (if t_hook_id t = 0 then target_name t
     else target_name t @ ''#'' @ format_int (t_hook_id t))"

record delivery =
  d_id :: int
  d_guid :: string
  d_at :: gtime
  d_status :: int
  d_redelivery :: bool
  d_event :: string
  d_action :: string

definition d_succeeded :: "delivery \<Rightarrow> bool" where
  "d_succeeded d \<longleftrightarrow> 200 \<le> d_status d \<and> d_status d \<le> 299"

section \<open>Authentication\<close>

text \<open>\<open>auth.go\<close>: only token authentication is implemented. \<open>ans\<close> is what go-github's constructor answers.\<close>

definition auth_type_token :: string where "auth_type_token = ''token''"
definition auth_type_github_app :: string where "auth_type_github_app = ''github_app''"
definition err_unsupported_auth :: goerr where "err_unsupported_auth = Sentinel ''ghclient: unsupported auth type''"
definition gh_default_timeout :: duration where "gh_default_timeout = 30 * second"

record gh_auth =
  au_type :: string
  au_token :: string

record gh_options =
  go_api_base_url :: string
  go_timeout :: duration
  go_user_agent :: string

definition auth_validate :: "gh_auth \<Rightarrow> goerr option" where
  "auth_validate a =
     (if au_type a = auth_type_token
      then (if au_token a = [] then Some (Msg ''ghclient: auth token is empty'') else None)
      else if au_type a = auth_type_github_app then Some (Wrap ''reserved and not implemented yet'' [err_unsupported_auth])
      else if au_type a = [] then Some (Msg ''ghclient: auth type is required'')
      else Some (Wrap [] [err_unsupported_auth]))"

text \<open>The options handed to go-github: the token, the timeout, the user agent and the enterprise API, if any.\<close>

record gh_client =
  gc_token :: string
  gc_timeout :: duration
  gc_user_agent :: string
  gc_enterprise :: "string option"

definition new_gh_client :: "goerr option \<Rightarrow> gh_auth \<Rightarrow> gh_options \<Rightarrow> goerr + gh_client" where
  "new_gh_client ans a o' = (case auth_validate a of
     Some e \<Rightarrow> Inl e
   | None \<Rightarrow>
       (case ans of
          Some e \<Rightarrow> Inl (Wrap ''ghclient'' [e])
        | None \<Rightarrow> Inr \<lparr>gc_token = au_token a,
            gc_timeout = (if go_timeout o' = 0 then gh_default_timeout else go_timeout o'),
            gc_user_agent = (if go_user_agent o' = [] then ''antwatcher'' else go_user_agent o'),
            gc_enterprise = (if go_api_base_url o' = [] then None else Some (go_api_base_url o'))\<rparr>))"

lemma new_gh_client_ok:
  "(\<exists>c. new_gh_client ans a o' = Inr c) \<longleftrightarrow> ans = None \<and> au_type a = auth_type_token \<and> au_token a \<noteq> []"
  by (auto simp: new_gh_client_def auth_validate_def auth_type_token_def auth_type_github_app_def split: option.splits)

section \<open>Errors\<close>

definition is_rate_limited :: "goerr \<Rightarrow> bool" where
  "is_rate_limited = err_any (\<lambda>e. case e of RateLimited d x \<Rightarrow> True | _ \<Rightarrow> False)"

text \<open>
  An error of the GitHub client, as far as \<open>classify\<close> looks at it: a primary rate limit with its
  reset time, a secondary one with the wait asked for, or anything else. \<open>wall\<close> is the time now.
\<close>

datatype gh_error = PrimaryLimit gtime goerr | AbuseLimit duration goerr | OtherError goerr

fun gh_classify :: "gtime \<Rightarrow> gh_error \<Rightarrow> goerr" where
  "gh_classify wall (PrimaryLimit reset e) =
     RateLimited (if is_zero reset then 0 else max (time_sub reset wall) 0) e"
| "gh_classify wall (AbuseLimit retry e) = RateLimited (max retry 0) e"
| "gh_classify wall (OtherError e) = e"

definition err_hook_not_found :: goerr where
  "err_hook_not_found = Sentinel ''ghclient: no hook matches the webhook url''"

section \<open>Calls\<close>

definition max_pages :: nat where "max_pages = 500"

text \<open>
  One page of attempts by cursor: the items and the next cursor. The loop gives up after its page
  budget.
\<close>

type_synonym page_fetch = "string \<Rightarrow> gh_error + delivery list \<times> string"

fun list_pages :: "page_fetch \<Rightarrow> gtime \<Rightarrow> gtime \<Rightarrow> nat \<Rightarrow> string \<Rightarrow> delivery list \<Rightarrow> goerr + delivery list" where
  "list_pages fetch wall since 0 cursor out = Inl (Msg ''ghclient: pagination did not end'')"
| "list_pages fetch wall since (Suc n) cursor out =
     (case fetch cursor of
        Inl e \<Rightarrow> Inl (Wrap ''ghclient: list deliveries'' [gh_classify wall e])
      | Inr (items, next) \<Rightarrow>
          let fresh = takeWhile (\<lambda>d. \<not> d_at d < since) items
          in if length fresh < length items then Inr (out @ fresh)
             else if items = [] \<or> next = [] \<or> next = cursor then Inr (out @ fresh)
             else list_pages fetch wall since n next (out @ fresh))"

definition list_deliveries :: "page_fetch \<Rightarrow> gtime \<Rightarrow> target \<Rightarrow> gtime \<Rightarrow> goerr + delivery list" where
  "list_deliveries fetch wall t since =
     (if t_hook_id t = 0 then Inl (Msg ''ghclient: hook id is unknown'')
      else list_pages fetch wall since max_pages [] [])"

text \<open>\<open>accepted\<close>: go-github reports GitHub's 202 as an error of its own, which is a success here.\<close>

datatype redeliver_answer = RedeliverOk | RedeliverAccepted | RedeliverError gh_error

definition gh_redeliver :: "gtime \<Rightarrow> target \<Rightarrow> redeliver_answer \<Rightarrow> goerr option" where
  "gh_redeliver wall t ans =
     (if t_hook_id t = 0 then Some (Msg ''ghclient: hook id is unknown'')
      else case ans of
          RedeliverOk \<Rightarrow> None
        | RedeliverAccepted \<Rightarrow> None
        | RedeliverError e \<Rightarrow> Some (Wrap ''ghclient: redeliver'' [gh_classify wall e]))"

text \<open>Hooks come in pages of \<open>(url, id)\<close> with the next page's number, 0 at the end.\<close>

type_synonym hook_fetch = "int \<Rightarrow> gh_error + (string \<times> int) list \<times> int"

fun hook_pages :: "hook_fetch \<Rightarrow> (string \<Rightarrow> string option) \<Rightarrow> gtime \<Rightarrow> string \<Rightarrow> nat \<Rightarrow> int \<Rightarrow> int list
    \<Rightarrow> goerr + int list \<times> bool" where
  "hook_pages fetch norm wall want 0 page matches = Inr (matches, False)"
| "hook_pages fetch norm wall want (Suc n) page matches =
     (case fetch page of
        Inl e \<Rightarrow> Inl (Wrap ''ghclient: discover hook'' [gh_classify wall e])
      | Inr (hooks, next) \<Rightarrow>
          let matches = matches @ map snd (filter (\<lambda>(u, i). norm u = Some want) hooks)
          in if next = 0 \<or> next = page then Inr (matches, True)
             else hook_pages fetch norm wall want n next matches)"

definition discover_hook_id ::
  "hook_fetch \<Rightarrow> (string \<Rightarrow> string option) \<Rightarrow> gtime \<Rightarrow> string \<Rightarrow> goerr + int" where
  "discover_hook_id fetch norm wall webhook_url =
     (case norm webhook_url of
        None \<Rightarrow> Inl (Msg ''ghclient: discover hook: webhook url'')
      | Some want \<Rightarrow>
          (case hook_pages fetch norm wall want max_pages 0 [] of
             Inl e \<Rightarrow> Inl e
           | Inr (matches, ended) \<Rightarrow>
               if \<not> ended \<and> matches = [] then Inl (Msg ''ghclient: pagination did not end'')
               else (case matches of
                   [] \<Rightarrow> Inl (Wrap ''ghclient: discover hook'' [err_hook_not_found])
                 | [i] \<Rightarrow> Inr i
                 | _ \<Rightarrow> Inl (Wrap ''ghclient: discover hook'' [HookAmbiguous matches]))))"

section \<open>Lemmas\<close>

lemma target_from_config_ok:
  assumes "target_from_config cfg = Inr t"
  shows "(t_org t = [] \<and> t_owner t \<noteq> [] \<and> t_repo t \<noteq> [] \<and> tc_repo cfg = t_owner t @ ''/'' @ t_repo t \<and>
      CHR ''/'' \<notin> set (t_repo t)) \<or>
    (t_org t \<noteq> [] \<and> t_repo t = [] \<and> tc_repo cfg = [] \<and> t_org t = tc_org cfg)"
proof -
  have cut: "cut_at c s = Some (a, b) \<Longrightarrow> s = a @ c # b" for c s a b
    by (induction s arbitrary: a) (auto split: if_splits)
  show ?thesis
    using assms cut
    by (auto simp: target_from_config_def is_org_def Let_def split: if_splits option.splits sum.splits)
qed

lemma is_rate_limited_classify [simp]:
  "is_rate_limited (gh_classify wall (PrimaryLimit r e))" "is_rate_limited (gh_classify wall (AbuseLimit w e))"
  by (simp_all add: is_rate_limited_def)

lemma gh_classify_wait_nonneg:
  "gh_classify wall (PrimaryLimit r e) = RateLimited d x \<Longrightarrow> 0 \<le> d"
  "gh_classify wall (AbuseLimit w e) = RateLimited d x \<Longrightarrow> 0 \<le> d"
  by (auto split: if_splits)

text \<open>The pages a listing reads, in order.\<close>

fun read_pages :: "page_fetch \<Rightarrow> nat \<Rightarrow> string \<Rightarrow> delivery list list" where
  "read_pages fetch 0 cursor = []"
| "read_pages fetch (Suc n) cursor = (case fetch cursor of
     Inl e \<Rightarrow> []
   | Inr (items, next) \<Rightarrow> items # (if items = [] \<or> next = [] \<or> next = cursor then [] else read_pages fetch n next))"

lemma takeWhile_full: "length (takeWhile P xs) < length xs \<or> takeWhile P xs = xs"
  by (metis length_takeWhile_le less_le takeWhile_eq_take take_all_iff order_refl)

lemma takeWhile_cut_append: "length (takeWhile P xs) < length xs \<Longrightarrow> takeWhile P (xs @ ys) = takeWhile P xs"
  by (induction xs) auto

lemma takeWhile_all_append: "takeWhile P xs = xs \<Longrightarrow> takeWhile P (xs @ ys) = xs @ takeWhile P ys"
  by (metis takeWhile_append2 takeWhile_eq_all_conv)

text \<open>A listing is the longest prefix of what GitHub lists that is not older than the window.\<close>

lemma list_pages_prefix:
  "list_pages fetch wall since n cursor out = Inr res \<Longrightarrow>
     res = out @ takeWhile (\<lambda>d. \<not> d_at d < since) (concat (read_pages fetch n cursor))"
proof (induction n arbitrary: cursor out)
  case (Suc n)
  let ?P = "\<lambda>d. \<not> d_at d < since"
  obtain items nxt where f: "fetch cursor = Inr (items, nxt)"
    using Suc.prems by (auto split: sum.splits)
  show ?case
  proof (cases "length (takeWhile ?P items) < length items")
    case True
    with Suc.prems f takeWhile_cut_append [OF True] show ?thesis by (simp add: Let_def)
  next
    case False
    then have all: "takeWhile ?P items = items" using takeWhile_full by blast
    show ?thesis
    proof (cases "items = [] \<or> nxt = [] \<or> nxt = cursor")
      case True
      with Suc.prems f show ?thesis by (simp add: all Let_def)
    next
      case more: False
      with False Suc.prems f all have "list_pages fetch wall since n nxt (out @ items) = Inr res"
        by (simp only: list_pages.simps) (simp add: Let_def)
      from Suc.IH [OF this] more f show ?thesis by (simp add: takeWhile_all_append [OF all])
    qed
  qed
qed simp

lemma list_deliveries_window:
  assumes "list_deliveries fetch wall t since = Inr res"
  shows "res = takeWhile (\<lambda>d. \<not> d_at d < since) (concat (read_pages fetch max_pages []))"
    and "\<forall>d \<in> set res. since \<le> d_at d"
proof -
  show r: "res = takeWhile (\<lambda>d. \<not> d_at d < since) (concat (read_pages fetch max_pages []))"
    using list_pages_prefix [of fetch wall since max_pages "[]" "[]" res] assms
    by (simp add: list_deliveries_def split: if_splits)
  show "\<forall>d \<in> set res. since \<le> d_at d"
    unfolding r by (auto dest: set_takeWhileD)
qed

text \<open>GitHub lists newest first, and then nothing in the window is missed.\<close>

lemma takeWhile_sorted_filter:
  "sorted_wrt (\<lambda>a b. d_at b \<le> d_at a) xs \<Longrightarrow>
     takeWhile (\<lambda>d. \<not> d_at d < since) xs = filter (\<lambda>d. since \<le> d_at d) xs"
proof (induction xs)
  case (Cons x xs)
  show ?case
  proof (cases "d_at x < since")
    case True
    with Cons.prems have "filter (\<lambda>d. since \<le> d_at d) xs = []" by (auto simp: filter_empty_conv)
    with True show ?thesis by simp
  next
    case False
    with Cons show ?thesis by simp
  qed
qed simp

lemma list_deliveries_complete:
  assumes "list_deliveries fetch wall t since = Inr res"
    and "sorted_wrt (\<lambda>a b. d_at b \<le> d_at a) (concat (read_pages fetch max_pages []))"
  shows "res = filter (\<lambda>d. since \<le> d_at d) (concat (read_pages fetch max_pages []))"
  using list_deliveries_window(1) [OF assms(1)] takeWhile_sorted_filter [OF assms(2)] by simp

lemma discover_hook_id_unique:
  assumes "discover_hook_id fetch norm wall url = Inr i"
  shows "\<exists>want b. norm url = Some want \<and> hook_pages fetch norm wall want max_pages 0 [] = Inr ([i], b)"
  using assms
  by (auto simp: discover_hook_id_def split: option.splits sum.splits list.splits if_splits)

lemma hook_pages_match:
  "hook_pages fetch norm wall want n page ms = Inr (res, b) \<Longrightarrow>
     \<exists>new. res = ms @ new \<and> (\<forall>i \<in> set new. \<exists>p hooks nxt u. fetch p = Inr (hooks, nxt) \<and>
       (u, i) \<in> set hooks \<and> norm u = Some want)"
proof (induction n arbitrary: page ms)
  case (Suc n)
  obtain hooks nxt where f: "fetch page = Inr (hooks, nxt)"
    using Suc.prems by (auto split: sum.splits)
  let ?new = "map snd (filter (\<lambda>(u, i). norm u = Some want) hooks)"
  have new: "\<forall>i \<in> set ?new. \<exists>p hooks nxt u. fetch p = Inr (hooks, nxt) \<and> (u, i) \<in> set hooks \<and> norm u = Some want"
    using f by fastforce
  show ?case
  proof (cases "nxt = 0 \<or> nxt = page")
    case True
    with Suc.prems f have "res = ms @ ?new" by (auto simp: Let_def)
    with new show ?thesis by blast
  next
    case False
    with Suc.prems f have "hook_pages fetch norm wall want n nxt (ms @ ?new) = Inr (res, b)"
      by (auto simp: Let_def)
    from Suc.IH [OF this] obtain more where "res = (ms @ ?new) @ more"
      "\<forall>i \<in> set more. \<exists>p hooks nxt u. fetch p = Inr (hooks, nxt) \<and> (u, i) \<in> set hooks \<and> norm u = Some want"
      by blast
    with new show ?thesis by (intro exI [of _ "?new @ more"]) (auto simp del: set_map)
  qed
qed simp

section \<open>Properties\<close>

text \<open>
  C14: a listing that returns has read GitHub's pages up to the end or to the first attempt older than
  the window; when GitHub lists newest first, it holds exactly the attempts of those pages that lie in
  the window, in that order.
\<close>

theorem listing_complete:
  assumes "list_deliveries fetch wall t since = Inr res"
    and "sorted_wrt (\<lambda>a b. d_at b \<le> d_at a) (concat (read_pages fetch max_pages []))"
  shows "res = filter (\<lambda>d. since \<le> d_at d) (concat (read_pages fetch max_pages []))"
  by (rule list_deliveries_complete [OF assms])

definition one_attempt :: "int \<Rightarrow> gtime \<Rightarrow> delivery" where
  "one_attempt i at = \<lparr>d_id = i, d_guid = ''g'', d_at = at, d_status = 502, d_redelivery = False,
     d_event = ''push'', d_action = []\<rparr>"

theorem listing_complete_witness:
  "list_deliveries (\<lambda>c. if c = [] then Inr ([one_attempt 3 30, one_attempt 2 20], ''p2'')
       else Inr ([one_attempt 1 10], [])) 0 \<lparr>t_owner = ''o'', t_repo = ''r'', t_org = [], t_hook_id = 7\<rparr> 15 =
     Inr [one_attempt 3 30, one_attempt 2 20]"
proof -
  let ?f = "\<lambda>c. if c = [] then Inr ([one_attempt 3 30, one_attempt 2 20], ''p2'')
       else Inr ([one_attempt 1 10], [])"
  let ?t = "\<lparr>t_owner = ''o'', t_repo = ''r'', t_org = [], t_hook_id = 7\<rparr>"
  have "\<exists>n. max_pages = Suc (Suc n)" by (intro exI [of _ 498]) (simp add: max_pages_def)
  then obtain n where m: "max_pages = Suc (Suc n)" by blast
  have pages: "concat (read_pages ?f max_pages []) = [one_attempt 3 30, one_attempt 2 20, one_attempt 1 10]"
    by (simp add: m)
  have "\<exists>res. list_deliveries ?f 0 ?t 15 = Inr res"
    by (simp add: list_deliveries_def m one_attempt_def)
  then obtain res where res: "list_deliveries ?f 0 ?t 15 = Inr res" by blast
  have "sorted_wrt (\<lambda>a b. d_at b \<le> d_at a) (concat (read_pages ?f max_pages []))"
    unfolding pages by (simp add: one_attempt_def)
  from listing_complete [OF res this] show ?thesis
    unfolding res pages by (simp add: one_attempt_def)
qed

end
