(* ===== verification/Recovery.thy ===== *)
theory Recovery
  imports GhClient
begin

text \<open>
  Package \<open>recovery\<close> (\<open>internal/recovery\<close>): the loop that lists the delivery attempts of a hook, keeps
  the GUIDs no attempt of which succeeded, and asks GitHub to redeliver them, within the limits of
  grace, lookback and the cap per scan. Scans are serialised by \<open>scanMu\<close>, so one scan is one step of
  the target's state. The answers of GitHub and the context's state are arguments.
\<close>

section \<open>Attempts of a scan\<close>

record attempts =
  at_latest_id :: int
  at_latest_at :: gtime
  at_succeeded :: bool

definition no_attempts :: attempts where
  "no_attempts = \<lparr>at_latest_id = 0, at_latest_at = 0, at_succeeded = False\<rparr>"

definition add_attempt :: "delivery \<Rightarrow> attempts \<Rightarrow> attempts" where
  "add_attempt d a =
     (let a = (if d_succeeded d then a\<lparr>at_succeeded := True\<rparr> else a)
      in if at_latest_id a = 0 \<or> at_latest_at a < d_at d \<or> (d_at d = at_latest_at a \<and> at_latest_id a < d_id d)
         then a\<lparr>at_latest_id := d_id d, at_latest_at := d_at d\<rparr> else a)"

definition group_step :: "(string, attempts) amap \<Rightarrow> delivery \<Rightarrow> (string, attempts) amap" where
  "group_step out d = (if d_guid d = [] then out
     else AList.update (d_guid d)
       (add_attempt d (case map_of out (d_guid d) of None \<Rightarrow> no_attempts | Some a \<Rightarrow> a)) out)"

definition group :: "delivery list \<Rightarrow> (string, attempts) amap" where
  "group ds = foldl group_step [] ds"

section \<open>Options and state\<close>

record options =
  o_targets :: "target list"
  o_has_client :: bool
  o_webhook_url :: string
  o_interval :: duration
  o_lookback :: duration
  o_overlap :: duration
  o_grace :: duration
  o_max_per_scan :: int
  o_redeliver_delay :: duration

definition max_lookback :: duration where "max_lookback = 72 * hour"

record pending_info =
  p_latest_id :: int
  p_latest_at :: gtime
  p_requested_at :: gtime

definition no_pending :: pending_info where
  "no_pending = \<lparr>p_latest_id = 0, p_latest_at = 0, p_requested_at = 0\<rparr>"

text \<open>\<open>ts_requests\<close> is the history of accepted redelivery requests, \<open>(time, guid, delivery id)\<close>.\<close>

record target_state =
  ts_target :: target
  ts_last_scan :: gtime
  ts_pending :: "(string, pending_info) amap"
  ts_degraded :: string
  ts_redelivered :: int
  ts_last_result :: string
  ts_scanned :: bool
  ts_requests :: "(gtime \<times> string \<times> int) list"

definition init_target :: "target \<Rightarrow> target_state" where
  "init_target t = \<lparr>ts_target = t, ts_last_scan = 0, ts_pending = [], ts_degraded = [],
     ts_redelivered = 0, ts_last_result = [], ts_scanned = False, ts_requests = []\<rparr>"

definition options_errors :: "options \<Rightarrow> goerr list" where
  "options_errors o' =
     (if o_has_client o' then [] else [Msg ''recovery: client is required''])
     @ (if o_targets o' = [] then [Msg ''recovery: at least one target is required''] else [])
     @ concat (map (\<lambda>t.
         (if is_org t = (t_repo t \<noteq> []) \<or> (t_repo t \<noteq> [] \<and> t_owner t = [])
          then [Msg ''recovery: exactly one of repo or org is required''] else [])
         @ (if t_hook_id t = 0 \<and> o_webhook_url o' = []
            then [Msg ''recovery: hook_id is not set and server.public_url is empty''] else [])) (o_targets o'))
     @ (if o_interval o' \<le> 0 then [Msg ''recovery: interval must be > 0''] else [])
     @ (if o_lookback o' \<le> 0 \<or> max_lookback < o_lookback o' then [Msg ''recovery: lookback''] else [])
     @ (if o_overlap o' < 0 then [Msg ''recovery: overlap must be >= 0''] else [])
     @ (if o_grace o' < 0 then [Msg ''recovery: grace must be >= 0''] else [])
     @ (if o_max_per_scan o' \<le> 0 then [Msg ''recovery: max_per_scan must be > 0''] else [])
     @ (if o_redeliver_delay o' < 0 then [Msg ''recovery: redeliver delay must be >= 0''] else [])"

definition new_loop :: "options \<Rightarrow> goerr + target_state list" where
  "new_loop o' = (case join_errs (options_errors o') of
     Some e \<Rightarrow> Inl e | None \<Rightarrow> Inr (map init_target (o_targets o')))"

section \<open>Merging a scan\<close>

definition merge_one :: "(string, pending_info) amap \<Rightarrow> string \<times> attempts \<Rightarrow> (string, pending_info) amap" where
  "merge_one pending ga = (case ga of (guid, a) \<Rightarrow>
     if at_succeeded a then AList.delete guid pending
     else
       let p = (case map_of pending guid of None \<Rightarrow> no_pending | Some p \<Rightarrow> p);
           p = (if at_latest_id a \<noteq> p_latest_id p
                then p\<lparr>p_latest_id := at_latest_id a, p_latest_at := at_latest_at a\<rparr> else p)
       in AList.update guid p pending)"

definition merge :: "options \<Rightarrow> delivery list \<Rightarrow> gtime \<Rightarrow> (string, pending_info) amap \<Rightarrow> (string, pending_info) amap" where
  "merge o' ds now pending =
     filter (\<lambda>(guid, p). \<not> p_latest_at p < time_add now (- o_lookback o')) (foldl merge_one pending (group ds))"

section \<open>Redelivering\<close>

definition is_due :: "options \<Rightarrow> gtime \<Rightarrow> pending_info \<Rightarrow> bool" where
  "is_due o' now p \<longleftrightarrow> \<not> time_sub now (p_latest_at p) < o_grace o' \<and>
     \<not> (\<not> is_zero (p_requested_at p) \<and> time_sub now (p_requested_at p) < o_grace o')"

definition due_before :: "pending_info \<Rightarrow> pending_info \<Rightarrow> bool" where
  "due_before a b =
     (if p_requested_at a \<noteq> p_requested_at b then p_requested_at a < p_requested_at b
      else if p_latest_at a \<noteq> p_latest_at b then p_latest_at a < p_latest_at b
      else p_latest_id a < p_latest_id b)"

fun insert_due :: "string \<times> pending_info \<Rightarrow> (string \<times> pending_info) list \<Rightarrow> (string \<times> pending_info) list" where
  "insert_due x [] = [x]"
| "insert_due x (y # ys) = (if due_before (snd y) (snd x) then y # insert_due x ys else x # y # ys)"

definition sort_due :: "(string \<times> pending_info) list \<Rightarrow> (string \<times> pending_info) list" where
  "sort_due xs = foldr insert_due xs []"

definition candidates :: "options \<Rightarrow> gtime \<Rightarrow> (string, pending_info) amap \<Rightarrow> (string \<times> pending_info) list" where
  "candidates o' now pending =
     take (nat (o_max_per_scan o')) (sort_due (filter (\<lambda>(guid, p). is_due o' now p) pending))"

definition scan_ok :: string where "scan_ok = ''ok''"
definition scan_error :: string where "scan_error = ''error''"
definition scan_rate_limited :: string where "scan_rate_limited = ''rate_limited''"

definition result_of :: "goerr \<Rightarrow> string" where
  "result_of e = (if is_rate_limited e then scan_rate_limited else scan_error)"

text \<open>
  What happens around one request: whether the context ends during the pause before it, the answer
  to it, and whether the context has ended after it.
\<close>

record request_answer =
  ra_interrupted :: bool
  ra_answer :: redeliver_answer
  ra_ctx_done :: bool

definition mark_requested :: "gtime \<Rightarrow> string \<Rightarrow> int \<Rightarrow> target_state \<Rightarrow> target_state" where
  "mark_requested now guid i st =
     (let st = (case map_of (ts_pending st) guid of
            None \<Rightarrow> st
          | Some p \<Rightarrow> st\<lparr>ts_pending := AList.update guid (p\<lparr>p_requested_at := now\<rparr>) (ts_pending st)\<rparr>)
      in st\<lparr>ts_redelivered := ts_redelivered st + 1, ts_requests := ts_requests st @ [(now, guid, i)]\<rparr>)"

fun redeliver_loop ::
  "options \<Rightarrow> gtime \<Rightarrow> gtime \<Rightarrow> (nat \<Rightarrow> request_answer) \<Rightarrow> nat \<Rightarrow> goerr option \<Rightarrow>
    (string \<times> pending_info) list \<Rightarrow> target_state \<Rightarrow> (string \<times> string) \<times> target_state" where
  "redeliver_loop o' wall now ans n first_err [] st =
     ((case first_err of Some e \<Rightarrow> (scan_error, err_text e) | None \<Rightarrow> (scan_ok, [])), st)"
| "redeliver_loop o' wall now ans n first_err ((guid, p) # cs) st =
     (if 0 < n \<and> 0 < o_redeliver_delay o' \<and> ra_interrupted (ans n)
      then ((scan_error, ''interrupted''), st)
      else case gh_redeliver wall (ts_target st) (ra_answer (ans n)) of
          None \<Rightarrow> redeliver_loop o' wall now ans (Suc n) first_err cs (mark_requested now guid (p_latest_id p) st)
        | Some e \<Rightarrow>
            if is_rate_limited e \<or> ra_ctx_done (ans n)
            then ((result_of e, ''redeliver: '' @ err_text e), st)
            else redeliver_loop o' wall now ans (Suc n)
              (case first_err of None \<Rightarrow> Some (Wrap ''redeliver'' [e]) | Some f \<Rightarrow> Some f) cs st)"

definition redeliver ::
  "options \<Rightarrow> gtime \<Rightarrow> gtime \<Rightarrow> (nat \<Rightarrow> request_answer) \<Rightarrow> target_state \<Rightarrow> (string \<times> string) \<times> target_state" where
  "redeliver o' wall now ans st =
     redeliver_loop o' wall now ans 0 None (candidates o' now (ts_pending st)) st"

section \<open>Scans\<close>

definition scan_since :: "options \<Rightarrow> gtime \<Rightarrow> target_state \<Rightarrow> gtime" where
  "scan_since o' now st =
     (let since = time_add now (- o_lookback o')
      in if ts_scanned st
         then (let inc = time_add (ts_last_scan st) (- o_overlap o') in if since < inc then inc else since)
         else since)"

text \<open>The metrics \<open>finish\<close> sets are the pending and degraded gauges and the counter's label.\<close>

record scan_metrics =
  sm_result :: string
  sm_pending :: int
  sm_degraded :: int

definition finish_scan :: "bool \<Rightarrow> string \<Rightarrow> string \<Rightarrow> target_state \<Rightarrow> scan_metrics option \<times> target_state" where
  "finish_scan ctx_done result reason st =
     (if ctx_done then (None, st)
      else (Some \<lparr>sm_result = result, sm_pending = int (length (ts_pending st)),
                  sm_degraded = (if reason \<noteq> [] then 1 else 0)\<rparr>,
            st\<lparr>ts_last_result := result, ts_degraded := reason\<rparr>))"

record scan_answers =
  sa_wall :: gtime
  sa_discover :: "goerr + int"
  sa_list :: "target \<Rightarrow> gtime \<Rightarrow> goerr + delivery list"
  sa_requests :: "nat \<Rightarrow> request_answer"
  sa_ctx_done :: bool

definition scan :: "options \<Rightarrow> gtime \<Rightarrow> scan_answers \<Rightarrow> target_state \<Rightarrow> scan_metrics option \<times> target_state" where
  "scan o' now ans st =
     (let found = (if t_hook_id (ts_target st) \<noteq> 0 then Inr st
            else (case sa_discover ans of
                Inl e \<Rightarrow> Inl e
              | Inr i \<Rightarrow> Inr (st\<lparr>ts_target := (ts_target st)\<lparr>t_hook_id := i\<rparr>\<rparr>)))
      in case found of
          Inl e \<Rightarrow> finish_scan (sa_ctx_done ans) scan_error (''hook discovery: '' @ err_text e) st
        | Inr st \<Rightarrow>
            (case sa_list ans (ts_target st) (scan_since o' now st) of
               Inl e \<Rightarrow> finish_scan (sa_ctx_done ans) (result_of e) (''list deliveries: '' @ err_text e) st
             | Inr ds \<Rightarrow>
                 let st = st\<lparr>ts_scanned := True, ts_last_scan := now, ts_pending := merge o' ds now (ts_pending st)\<rparr>;
                     ((result, reason), st) = redeliver o' (sa_wall ans) now (sa_requests ans) st
                 in finish_scan (sa_ctx_done ans) result reason st))"

text \<open>\<open>ScanAll\<close>: every target in order, until the context has ended before one.\<close>

fun scan_all :: "options \<Rightarrow> (gtime \<times> scan_answers \<times> bool) list \<Rightarrow> target_state list \<Rightarrow> target_state list" where
  "scan_all o' [] sts = sts"
| "scan_all o' (a # as) [] = []"
| "scan_all o' ((now, ans, ended) # as) (st # sts) =
     (if ended then st # sts else snd (scan o' now ans st) # scan_all o' as sts)"

section \<open>Status\<close>

record target_status =
  tst_target :: string
  tst_hook_id :: int
  tst_degraded :: bool
  tst_reason :: string
  tst_last_scan :: "gtime option"
  tst_last_result :: string
  tst_pending :: int
  tst_redeliveries :: int

definition status_of :: "target_state \<Rightarrow> target_status" where
  "status_of st = \<lparr>tst_target = target_name (ts_target st), tst_hook_id = t_hook_id (ts_target st),
     tst_degraded = (ts_degraded st \<noteq> []), tst_reason = ts_degraded st,
     tst_last_scan = (if ts_scanned st then Some (ts_last_scan st) else None),
     tst_last_result = ts_last_result st, tst_pending = int (length (ts_pending st)),
     tst_redeliveries = ts_redelivered st\<rparr>"

end
