(* ===== verification/RecoveryFacts.thy ===== *)
theory RecoveryFacts
  imports Recovery
begin

text \<open>
  Facts about the recovery loop: what a scan concludes from the attempts it lists, which GUIDs it asks
  for and in which order, what it never asks for, and two situations in which it does not do what
  its comments say.
\<close>

section \<open>Grouping\<close>

lemma group_snoc: "group (ds @ [d]) = group_step (group ds) d"
  by (simp add: group_def)

lemma group_Nil [simp]: "group [] = []"
  by (simp add: group_def)

lemma group_wf [simp, intro]: "wf_amap (group ds)"
  by (induction ds rule: rev_induct) (auto simp: group_snoc group_step_def)

definition of_guid :: "string \<Rightarrow> delivery list \<Rightarrow> delivery list" where
  "of_guid g ds = filter (\<lambda>d. d_guid d = g) ds"

lemma of_guid_snoc [simp]:
  "of_guid g (ds @ [d]) = (if d_guid d = g then of_guid g ds @ [d] else of_guid g ds)"
  by (simp add: of_guid_def)

lemma group_lookup:
  "map_of (group ds) g = (if g = [] \<or> of_guid g ds = [] then None
     else Some (foldl (\<lambda>a d. add_attempt d a) no_attempts (of_guid g ds)))"
proof (induction ds rule: rev_induct)
  case Nil
  show ?case by (simp add: of_guid_def)
next
  case (snoc d ds)
  show ?case
  proof (cases "d_guid d = g \<and> g \<noteq> []")
    case True
    then show ?thesis using snoc by (auto simp: group_snoc group_step_def)
  next
    case False
    then show ?thesis using snoc by (auto simp: group_snoc group_step_def)
  qed
qed

lemma add_attempt_succeeded [simp]: "at_succeeded (add_attempt d a) \<longleftrightarrow> at_succeeded a \<or> d_succeeded d"
  by (simp add: add_attempt_def Let_def)

lemma fold_succeeded:
  "at_succeeded (foldl (\<lambda>a d. add_attempt d a) a ds) \<longleftrightarrow> at_succeeded a \<or> (\<exists>d \<in> set ds. d_succeeded d)"
  by (induction ds arbitrary: a) auto

definition not_later :: "delivery \<Rightarrow> delivery \<Rightarrow> bool" where
  "not_later d e \<longleftrightarrow> d_at d < d_at e \<or> (d_at d = d_at e \<and> d_id d \<le> d_id e)"

lemma not_later_trans: "not_later a b \<Longrightarrow> not_later b c \<Longrightarrow> not_later a c"
  by (auto simp: not_later_def)

lemma fold_latest:
  assumes "ds \<noteq> []" and "\<forall>d \<in> set ds. 0 < d_id d"
  shows "\<exists>e \<in> set ds. at_latest_id (foldl (\<lambda>a d. add_attempt d a) no_attempts ds) = d_id e \<and>
    at_latest_at (foldl (\<lambda>a d. add_attempt d a) no_attempts ds) = d_at e \<and> (\<forall>d \<in> set ds. not_later d e)"
  using assms
proof (induction ds rule: rev_nonempty_induct)
  case (single d)
  then show ?case by (simp add: add_attempt_def no_attempts_def Let_def not_later_def)
next
  case (snoc d ds)
  let ?a = "foldl (\<lambda>a d. add_attempt d a) no_attempts ds"
  from snoc obtain e where e: "e \<in> set ds" "at_latest_id ?a = d_id e" "at_latest_at ?a = d_at e"
    "\<forall>d \<in> set ds. not_later d e" by auto
  have pos: "0 < d_id e" using snoc.prems e(1) by simp
  show ?case
  proof (cases "d_at e < d_at d \<or> (d_at d = d_at e \<and> d_id e < d_id d)")
    case True
    have "\<forall>x \<in> set (ds @ [d]). not_later x d"
      using e(4) True not_later_trans [of _ e d] by (auto simp: not_later_def)
    with True e pos show ?thesis
      by (intro bexI [of _ d]) (auto simp: add_attempt_def Let_def)
  next
    case False
    then have "not_later d e" by (auto simp: not_later_def)
    with e have "\<forall>x \<in> set (ds @ [d]). not_later x e" by simp
    with False e pos show ?thesis
      by (intro bexI [of _ e]) (auto simp: add_attempt_def Let_def)
  qed
qed

text \<open>
  A GUID counts as delivered as soon as one attempt got a 2xx, and the attempt to redeliver is the
  newest one, the higher id among attempts of the same time.
\<close>

lemma group_spec:
  assumes "\<forall>d \<in> set ds. 0 < d_id d"
  shows "map_of (group ds) g = None \<longleftrightarrow> g = [] \<or> (\<forall>d \<in> set ds. d_guid d \<noteq> g)"
    and "map_of (group ds) g = Some a \<Longrightarrow>
      (at_succeeded a \<longleftrightarrow> (\<exists>d \<in> set ds. d_guid d = g \<and> d_succeeded d)) \<and>
      (\<exists>e \<in> set ds. d_guid e = g \<and> at_latest_id a = d_id e \<and> at_latest_at a = d_at e \<and>
        (\<forall>d \<in> set ds. d_guid d = g \<longrightarrow> not_later d e))"
proof -
  show "map_of (group ds) g = None \<longleftrightarrow> g = [] \<or> (\<forall>d \<in> set ds. d_guid d \<noteq> g)"
    by (auto simp: group_lookup of_guid_def filter_empty_conv)
  assume "map_of (group ds) g = Some a"
  then have ne: "of_guid g ds \<noteq> []" and a: "a = foldl (\<lambda>a d. add_attempt d a) no_attempts (of_guid g ds)"
    by (auto simp: group_lookup split: if_splits)
  have set: "set (of_guid g ds) = {d \<in> set ds. d_guid d = g}" by (auto simp: of_guid_def)
  have "\<forall>d \<in> set (of_guid g ds). 0 < d_id d" using assms set by auto
  from fold_latest [OF ne this] obtain e where "e \<in> set (of_guid g ds)" "at_latest_id a = d_id e"
    "at_latest_at a = d_at e" "\<forall>d \<in> set (of_guid g ds). not_later d e"
    unfolding a by blast
  moreover have "at_succeeded a \<longleftrightarrow> (\<exists>d \<in> set (of_guid g ds). d_succeeded d)"
    unfolding a by (simp add: fold_succeeded no_attempts_def)
  ultimately show "(at_succeeded a \<longleftrightarrow> (\<exists>d \<in> set ds. d_guid d = g \<and> d_succeeded d)) \<and>
      (\<exists>e \<in> set ds. d_guid e = g \<and> at_latest_id a = d_id e \<and> at_latest_at a = d_at e \<and>
        (\<forall>d \<in> set ds. d_guid d = g \<longrightarrow> not_later d e))"
    unfolding set by blast
qed

section \<open>Merging\<close>

definition refreshed :: "attempts \<Rightarrow> pending_info option \<Rightarrow> pending_info" where
  "refreshed a po =
     (let p = (case po of None \<Rightarrow> no_pending | Some p \<Rightarrow> p)
      in if at_latest_id a \<noteq> p_latest_id p
         then p\<lparr>p_latest_id := at_latest_id a, p_latest_at := at_latest_at a\<rparr> else p)"

lemma merge_one_lookup:
  "map_of (merge_one pending (guid, a)) g =
     (if g = guid then (if at_succeeded a then None else Some (refreshed a (map_of pending g)))
      else map_of pending g)"
  by (simp add: merge_one_def refreshed_def Let_def)

lemma merge_one_wf [simp]: "wf_amap pending \<Longrightarrow> wf_amap (merge_one pending ga)"
  by (cases ga) (simp add: merge_one_def Let_def)

lemma merge_fold_wf: "wf_amap pending \<Longrightarrow> wf_amap (foldl merge_one pending gs)"
  by (induction gs arbitrary: pending) auto

lemma merge_fold_lookup:
  "wf_amap gs \<Longrightarrow> map_of (foldl merge_one pending gs) g =
     (case map_of gs g of
        None \<Rightarrow> map_of pending g
      | Some a \<Rightarrow> if at_succeeded a then None else Some (refreshed a (map_of pending g)))"
proof (induction gs arbitrary: pending)
  case (Cons x gs)
  obtain guid a where x: "x = (guid, a)" by fastforce
  from Cons.prems have wf: "wf_amap gs" and new: "map_of gs guid = None"
    by (auto simp: wf_amap_def x map_of_eq_None_iff)
  show ?case
    using new by (auto simp: Cons.IH [OF wf] x merge_one_lookup split: option.splits)
qed simp

lemma merge_wf: "wf_amap pending \<Longrightarrow> wf_amap (merge o' ds now pending)"
  by (simp add: merge_def merge_fold_wf)

lemma merge_lookup:
  assumes "wf_amap pending"
  shows "map_of (merge o' ds now pending) g =
    (let found = (case map_of (group ds) g of
            None \<Rightarrow> map_of pending g
          | Some a \<Rightarrow> if at_succeeded a then None else Some (refreshed a (map_of pending g)))
     in case found of None \<Rightarrow> None
        | Some p \<Rightarrow> if p_latest_at p < now - o_lookback o' then None else Some p)"
proof -
  have "map_of (merge o' ds now pending) g =
      (case map_of (foldl merge_one pending (group ds)) g of None \<Rightarrow> None
       | Some p \<Rightarrow> if \<not> p_latest_at p < time_add now (- o_lookback o') then Some p else None)"
    unfolding merge_def by (rule map_of_filter [OF merge_fold_wf [OF assms]])
  then show ?thesis
    by (simp add: merge_fold_lookup [OF group_wf] Let_def time_add_def split: option.splits)
qed

text \<open>A GUID with a 2xx in the scan is never pending after it; every other listed one is, with its newest attempt.\<close>

lemma merge_succeeded:
  assumes "wf_amap pending" and "\<forall>d \<in> set ds. 0 < d_id d"
    and "d \<in> set ds" "d_guid d = g" "d_succeeded d" "g \<noteq> []"
  shows "map_of (merge o' ds now pending) g = None"
proof -
  obtain a where a: "map_of (group ds) g = Some a"
    using group_spec(1) [OF assms(2), of g] assms(3-6) by (cases "map_of (group ds) g") auto
  with group_spec(2) [OF assms(2) a] assms have "at_succeeded a" by blast
  with a show ?thesis by (simp add: merge_lookup [OF assms(1)] Let_def)
qed

lemma refreshed_latest:
  assumes "at_latest_id a \<noteq> p_latest_id (case po of None \<Rightarrow> no_pending | Some p \<Rightarrow> p)"
  shows "p_latest_id (refreshed a po) = at_latest_id a \<and> p_latest_at (refreshed a po) = at_latest_at a"
  using assms by (simp add: refreshed_def Let_def)

lemma refreshed_requested:
  "p_requested_at (refreshed a po) = (case po of None \<Rightarrow> 0 | Some p \<Rightarrow> p_requested_at p)"
  by (auto simp: refreshed_def Let_def no_pending_def split: option.splits)

lemma merge_failed:
  assumes "wf_amap pending" and ids: "\<forall>d \<in> set ds. 0 < d_id d"
    and d: "d \<in> set ds" "d_guid d = g" "g \<noteq> []"
    and fails: "\<forall>e \<in> set ds. d_guid e = g \<longrightarrow> \<not> d_succeeded e"
    and fresh: "\<forall>e \<in> set ds. now - o_lookback o' \<le> d_at e"
    and new: "map_of pending g = None"
  shows "\<exists>p e. map_of (merge o' ds now pending) g = Some p \<and> p_requested_at p = 0 \<and>
    e \<in> set ds \<and> d_guid e = g \<and> p_latest_id p = d_id e \<and> p_latest_at p = d_at e \<and>
    (\<forall>d' \<in> set ds. d_guid d' = g \<longrightarrow> not_later d' e)"
proof -
  obtain a where a: "map_of (group ds) g = Some a"
    using group_spec(1) [OF ids, of g] d by (cases "map_of (group ds) g") auto
  from group_spec(2) [OF ids a] obtain e where e: "e \<in> set ds" "d_guid e = g" "at_latest_id a = d_id e"
    "at_latest_at a = d_at e" "\<forall>d' \<in> set ds. d_guid d' = g \<longrightarrow> not_later d' e" by blast
  have "\<not> at_succeeded a" using group_spec(2) [OF ids a] fails by blast
  moreover have "p_latest_id (refreshed a None) = d_id e \<and> p_latest_at (refreshed a None) = d_at e"
    using refreshed_latest [of a None] ids e(1,3,4) by (auto simp: no_pending_def)
  moreover have "\<not> d_at e < now - o_lookback o'" using fresh e(1) by fastforce
  ultimately have "map_of (merge o' ds now pending) g = Some (refreshed a None)"
    by (simp add: merge_lookup [OF assms(1)] Let_def a new)
  then show ?thesis
    using e \<open>p_latest_id (refreshed a None) = d_id e \<and> p_latest_at (refreshed a None) = d_at e\<close>
      refreshed_requested [of a None] by auto
qed

section \<open>Choosing\<close>

lemma set_insert_due [simp]: "set (insert_due x ys) = insert x (set ys)"
  by (induction ys) auto

lemma set_sort_due [simp]: "set (sort_due xs) = set xs"
  by (induction xs) (auto simp: sort_due_def)

lemma due_before_trans: "\<not> due_before b a \<Longrightarrow> \<not> due_before c b \<Longrightarrow> \<not> due_before c a"
  by (auto simp: due_before_def split: if_splits)

lemma due_before_asym: "due_before a b \<Longrightarrow> \<not> due_before b a"
  by (auto simp: due_before_def split: if_splits)

abbreviation due_sorted :: "(string \<times> pending_info) list \<Rightarrow> bool" where
  "due_sorted \<equiv> sorted_wrt (\<lambda>x y. \<not> due_before (snd y) (snd x))"

lemma sorted_insert_due: "due_sorted ys \<Longrightarrow> due_sorted (insert_due x ys)"
proof (induction ys)
  case (Cons y ys)
  show ?case
  proof (cases "due_before (snd y) (snd x)")
    case True
    with Cons due_before_asym [OF True] show ?thesis by auto
  next
    case False
    with Cons.prems show ?thesis using due_before_trans [OF False] by auto
  qed
qed simp

lemma sort_due_sorted: "due_sorted (sort_due xs)"
  by (induction xs) (auto simp: sort_due_def sorted_insert_due)

lemma distinct_insert_due: "distinct (map fst (x # ys)) \<Longrightarrow> distinct (map fst (insert_due x ys))"
  by (induction ys) (auto simp: image_iff)

lemma distinct_sort_due: "distinct (map fst xs) \<Longrightarrow> distinct (map fst (sort_due xs))"
proof (induction xs)
  case (Cons x xs)
  then have "distinct (map fst (x # sort_due xs))" by simp
  then show ?case using distinct_insert_due by (simp add: sort_due_def)
qed (simp add: sort_due_def)

lemma candidates_mem:
  assumes "(g, p) \<in> set (candidates o' now pending)" and "wf_amap pending"
  shows "map_of pending g = Some p \<and> is_due o' now p"
  using assms set_take_subset [of "nat (o_max_per_scan o')"]
  by (fastforce simp: candidates_def wf_amap_mem)

lemma candidates_length: "0 \<le> o_max_per_scan o' \<Longrightarrow> int (length (candidates o' now pending)) \<le> o_max_per_scan o'"
  by (simp add: candidates_def)

lemma candidates_distinct: "wf_amap pending \<Longrightarrow> distinct (map fst (candidates o' now pending))"
  using distinct_sort_due [of "filter (\<lambda>(g, p). is_due o' now p) pending"]
  by (simp add: candidates_def wf_amap_def distinct_map_filter flip: take_map)

text \<open>
  The cap cuts at the end of the order: whatever is left out is not before anything that is kept, so
  a GUID never asked for is left out only when all the kept ones were never asked for either.
\<close>

lemma candidates_order:
  assumes wf: "wf_amap pending" and x: "(g, p) \<in> set (candidates o' now pending)"
    and y: "map_of pending h = Some q" "is_due o' now q" "(h, q) \<notin> set (candidates o' now pending)"
  shows "\<not> due_before q p"
proof -
  let ?s = "sort_due (filter (\<lambda>(g, p). is_due o' now p) pending)" and ?n = "nat (o_max_per_scan o')"
  have all: "?s = take ?n ?s @ drop ?n ?s" by simp
  have "(h, q) \<in> set ?s" using wf y(1,2) by (simp add: wf_amap_mem)
  then have "(h, q) \<in> set (drop ?n ?s)"
    using y(3) all unfolding candidates_def by (metis Un_iff set_append)
  moreover have "(g, p) \<in> set (take ?n ?s)" using x by (simp add: candidates_def)
  moreover have "due_sorted (take ?n ?s @ drop ?n ?s)" using sort_due_sorted by simp
  ultimately show ?thesis unfolding sorted_wrt_append by fastforce
qed

lemma candidates_never_requested_first:
  assumes "wf_amap pending" and "(g, p) \<in> set (candidates o' now pending)" and "0 < p_requested_at p"
    and "map_of pending h = Some q" "is_due o' now q" "p_requested_at q = 0"
  shows "(h, q) \<in> set (candidates o' now pending)"
proof (rule ccontr)
  assume "(h, q) \<notin> set (candidates o' now pending)"
  from candidates_order [OF assms(1,2,4,5) this] assms(3,6) show False
    by (simp add: due_before_def)
qed

section \<open>Requesting\<close>

lemma mark_requested_simps [simp]:
  "ts_requests (mark_requested now g i st) = ts_requests st @ [(now, g, i)]"
  "ts_redelivered (mark_requested now g i st) = ts_redelivered st + 1"
  "ts_target (mark_requested now g i st) = ts_target st"
  "ts_scanned (mark_requested now g i st) = ts_scanned st"
  "ts_last_scan (mark_requested now g i st) = ts_last_scan st"
  "map_of (ts_pending (mark_requested now g i st)) h =
     (if h = g then map_option (\<lambda>p. p\<lparr>p_requested_at := now\<rparr>) (map_of (ts_pending st) g)
      else map_of (ts_pending st) h)"
  by (auto simp: mark_requested_def Let_def split: option.splits)

lemma mark_requested_wf: "wf_amap (ts_pending st) \<Longrightarrow> wf_amap (ts_pending (mark_requested now g i st))"
  by (simp add: mark_requested_def Let_def split: option.splits)

definition req_of :: "gtime \<Rightarrow> string \<times> pending_info \<Rightarrow> gtime \<times> string \<times> int" where
  "req_of now c = (now, fst c, p_latest_id (snd c))"

text \<open>A run of requests: some of the candidates, in order, and only those become requested.\<close>

lemma redeliver_loop_effect:
  assumes "redeliver_loop o' wall now ans n fe cs st = (res, st')"
  shows "\<exists>xs. set xs \<subseteq> set cs \<and> length xs \<le> length cs \<and> (distinct (map fst cs) \<longrightarrow> distinct (map fst xs)) \<and>
    ts_requests st' = ts_requests st @ map (req_of now) xs \<and>
    ts_redelivered st' = ts_redelivered st + int (length xs) \<and>
    (\<forall>h. map_of (ts_pending st') h = (if h \<in> fst ` set xs
       then map_option (\<lambda>p. p\<lparr>p_requested_at := now\<rparr>) (map_of (ts_pending st) h)
       else map_of (ts_pending st) h)) \<and>
    ts_target st' = ts_target st \<and> ts_scanned st' = ts_scanned st \<and> ts_last_scan st' = ts_last_scan st"
  using assms
proof (induction cs arbitrary: n fe st)
  case Nil
  then show ?case by (intro exI [of _ "[]"]) (simp add: redeliver_loop.simps)
next
  case (Cons c cs)
  obtain g p where c: "c = (g, p)" by fastforce
  show ?case
  proof (cases "0 < n \<and> 0 < o_redeliver_delay o' \<and> ra_interrupted (ans n)")
    case True
    then show ?thesis using Cons.prems c by (intro exI [of _ "[]"]) simp
  next
    case go: False
    show ?thesis
    proof (cases "gh_redeliver wall (ts_target st) (ra_answer (ans n))")
      case None
      with go Cons.prems c have "redeliver_loop o' wall now ans (Suc n) fe cs
          (mark_requested now g (p_latest_id p) st) = (res, st')" by auto
      from Cons.IH [OF this] obtain xs where xs: "set xs \<subseteq> set cs" "length xs \<le> length cs"
        "distinct (map fst cs) \<longrightarrow> distinct (map fst xs)"
        "ts_requests st' = ts_requests (mark_requested now g (p_latest_id p) st) @ map (req_of now) xs"
        "ts_redelivered st' = ts_redelivered (mark_requested now g (p_latest_id p) st) + int (length xs)"
        "\<forall>h. map_of (ts_pending st') h = (if h \<in> fst ` set xs
           then map_option (\<lambda>p. p\<lparr>p_requested_at := now\<rparr>) (map_of (ts_pending (mark_requested now g (p_latest_id p) st)) h)
           else map_of (ts_pending (mark_requested now g (p_latest_id p) st)) h)"
        "ts_target st' = ts_target st" "ts_scanned st' = ts_scanned st" "ts_last_scan st' = ts_last_scan st"
        by auto
      have look: "\<forall>h. map_of (ts_pending st') h = (if h \<in> fst ` set (c # xs)
           then map_option (\<lambda>p. p\<lparr>p_requested_at := now\<rparr>) (map_of (ts_pending st) h)
           else map_of (ts_pending st) h)"
        using xs(6) c by (auto simp: option.map_comp o_def)
      have "distinct (map fst (c # cs)) \<longrightarrow> distinct (map fst (c # xs))" using xs(1,3) by auto
      with look xs c show ?thesis by (intro exI [of _ "c # xs"]) (auto simp: req_of_def)
    next
      case (Some e)
      show ?thesis
      proof (cases "is_rate_limited e \<or> ra_ctx_done (ans n)")
        case True
        with go Some Cons.prems c show ?thesis by (intro exI [of _ "[]"]) auto
      next
        case False
        with go Some Cons.prems c have "\<exists>fe'. redeliver_loop o' wall now ans (Suc n) fe' cs st = (res, st')"
          by auto
        then obtain fe' where "redeliver_loop o' wall now ans (Suc n) fe' cs st = (res, st')" by blast
        from Cons.IH [OF this] obtain xs where "set xs \<subseteq> set cs" "length xs \<le> length cs"
          "distinct (map fst cs) \<longrightarrow> distinct (map fst xs)"
          "ts_requests st' = ts_requests st @ map (req_of now) xs"
          "ts_redelivered st' = ts_redelivered st + int (length xs)"
          "\<forall>h. map_of (ts_pending st') h = (if h \<in> fst ` set xs
             then map_option (\<lambda>p. p\<lparr>p_requested_at := now\<rparr>) (map_of (ts_pending st) h)
             else map_of (ts_pending st) h)"
          "ts_target st' = ts_target st" "ts_scanned st' = ts_scanned st" "ts_last_scan st' = ts_last_scan st"
          by blast
        then show ?thesis by (intro exI [of _ xs]) auto
      qed
    qed
  qed
qed

section \<open>A scan\<close>

lemma finish_scan_simps [simp]:
  "ts_requests (snd (finish_scan c r x st)) = ts_requests st"
  "ts_pending (snd (finish_scan c r x st)) = ts_pending st"
  "ts_last_scan (snd (finish_scan c r x st)) = ts_last_scan st"
  "ts_scanned (snd (finish_scan c r x st)) = ts_scanned st"
  "ts_redelivered (snd (finish_scan c r x st)) = ts_redelivered st"
  by (simp_all add: finish_scan_def)

definition with_hook :: "scan_answers \<Rightarrow> target_state \<Rightarrow> target_state option" where
  "with_hook ans st = (if t_hook_id (ts_target st) \<noteq> 0 then Some st
     else case sa_discover ans of Inl e \<Rightarrow> None
       | Inr i \<Rightarrow> Some (st\<lparr>ts_target := (ts_target st)\<lparr>t_hook_id := i\<rparr>\<rparr>))"

definition listed :: "options \<Rightarrow> gtime \<Rightarrow> scan_answers \<Rightarrow> target_state \<Rightarrow> delivery list option" where
  "listed o' now ans st = (case with_hook ans st of None \<Rightarrow> None
     | Some st1 \<Rightarrow> (case sa_list ans (ts_target st1) (scan_since o' now st) of Inl e \<Rightarrow> None | Inr ds \<Rightarrow> Some ds))"

lemma with_hook_same:
  assumes "with_hook ans st = Some st1"
  shows "ts_pending st1 = ts_pending st" "ts_requests st1 = ts_requests st" "ts_scanned st1 = ts_scanned st"
    "ts_last_scan st1 = ts_last_scan st" "ts_redelivered st1 = ts_redelivered st"
    "scan_since o' now st1 = scan_since o' now st"
  using assms by (auto simp: with_hook_def scan_since_def Let_def split: sum.splits if_splits)

lemma scan_no_hook:
  assumes "with_hook ans st = None"
  shows "\<exists>r x. scan o' now ans st = finish_scan (sa_ctx_done ans) r x st"
proof -
  have h: "t_hook_id (ts_target st) = 0" using assms by (auto simp: with_hook_def split: if_splits)
  with assms obtain e where "sa_discover ans = Inl e" by (auto simp: with_hook_def split: sum.splits)
  with h have "scan o' now ans st = finish_scan (sa_ctx_done ans) scan_error (''hook discovery: '' @ err_text e) st"
    by (simp add: scan_def)
  then show ?thesis by blast
qed

lemma scan_hook:
  assumes "with_hook ans st = Some st1"
  shows "scan o' now ans st =
    (case sa_list ans (ts_target st1) (scan_since o' now st1) of
       Inl e \<Rightarrow> finish_scan (sa_ctx_done ans) (result_of e) (''list deliveries: '' @ err_text e) st1
     | Inr ds \<Rightarrow>
         let st2 = st1\<lparr>ts_scanned := True, ts_last_scan := now, ts_pending := merge o' ds now (ts_pending st1)\<rparr>;
             ((result, reason), st3) = redeliver o' (sa_wall ans) now (sa_requests ans) st2
         in finish_scan (sa_ctx_done ans) result reason st3)"
proof -
  have "(if t_hook_id (ts_target st) \<noteq> 0 then Inr st
      else (case sa_discover ans of Inl e \<Rightarrow> Inl e
        | Inr i \<Rightarrow> Inr (st\<lparr>ts_target := (ts_target st)\<lparr>t_hook_id := i\<rparr>\<rparr>))) = Inr st1"
    using assms by (cases "t_hook_id (ts_target st) \<noteq> 0"; cases "sa_discover ans") (simp_all add: with_hook_def)
  then show ?thesis unfolding scan_def by (simp only: Let_def sum.case)
qed

text \<open>A scan that could not list the attempts changes nothing the next one depends on.\<close>

lemma scan_not_listed:
  assumes "listed o' now ans st = None" and "scan o' now ans st = (m, st')"
  shows "ts_pending st' = ts_pending st \<and> ts_requests st' = ts_requests st \<and>
    ts_last_scan st' = ts_last_scan st \<and> ts_scanned st' = ts_scanned st"
proof (cases "with_hook ans st")
  case None
  then obtain r x where "scan o' now ans st = finish_scan (sa_ctx_done ans) r x st"
    using scan_no_hook by blast
  then have "st' = snd (finish_scan (sa_ctx_done ans) r x st)" using assms(2) by (metis snd_conv)
  then show ?thesis by simp
next
  case (Some st1)
  note same = with_hook_same [OF Some]
  obtain e where e: "sa_list ans (ts_target st1) (scan_since o' now st1) = Inl e"
    using assms(1) Some same(6) [of o' now] by (auto simp: listed_def split: sum.splits)
  have "st' = snd (finish_scan (sa_ctx_done ans) (result_of e) (''list deliveries: '' @ err_text e) st1)"
    using assms(2) scan_hook [OF Some] e by simp
  then show ?thesis using same by simp
qed

lemma scan_listed:
  assumes "listed o' now ans st = Some ds" and "scan o' now ans st = (m, st')"
    and "wf_amap (ts_pending st)" and "0 \<le> o_max_per_scan o'"
  obtains xs where
    "\<forall>(g, p) \<in> set xs. map_of (merge o' ds now (ts_pending st)) g = Some p \<and> is_due o' now p"
    "int (length xs) \<le> o_max_per_scan o'" "distinct (map fst xs)"
    "ts_requests st' = ts_requests st @ map (req_of now) xs"
    "\<forall>h. map_of (ts_pending st') h = (if h \<in> fst ` set xs
       then map_option (\<lambda>p. p\<lparr>p_requested_at := now\<rparr>) (map_of (merge o' ds now (ts_pending st)) h)
       else map_of (merge o' ds now (ts_pending st)) h)"
    "ts_scanned st'" "ts_last_scan st' = now"
proof -
  let ?pend = "merge o' ds now (ts_pending st)"
  obtain st1 where st1: "with_hook ans st = Some st1"
    and ds: "sa_list ans (ts_target st1) (scan_since o' now st) = Inr ds"
    using assms(1) by (auto simp: listed_def split: option.splits sum.splits)
  note same = with_hook_same [OF st1]
  define st2 where "st2 = st1\<lparr>ts_scanned := True, ts_last_scan := now, ts_pending := ?pend\<rparr>"
  obtain res st3 where r: "redeliver o' (sa_wall ans) now (sa_requests ans) st2 = (res, st3)" by fastforce
  have "redeliver o' (sa_wall ans) now (sa_requests ans)
      (st1\<lparr>ts_scanned := True, ts_last_scan := now, ts_pending := merge o' ds now (ts_pending st1)\<rparr>) = (res, st3)"
    using r same(1) by (simp add: st2_def)
  then have "st' = snd (finish_scan (sa_ctx_done ans) (fst res) (snd res) st3)"
    using assms(2) scan_hook [OF st1, of o' now] ds same(6) [of o' now] by (simp add: Let_def split_beta)
  then have st': "ts_requests st' = ts_requests st3" "ts_pending st' = ts_pending st3"
    "ts_scanned st' = ts_scanned st3" "ts_last_scan st' = ts_last_scan st3" by simp_all
  have pend2: "ts_pending st2 = ?pend" by (simp add: st2_def)
  have wf: "wf_amap ?pend" by (rule merge_wf [OF assms(3)])
  from redeliver_loop_effect [OF r [unfolded redeliver_def pend2]] obtain xs where
    xs: "set xs \<subseteq> set (candidates o' now ?pend)" "length xs \<le> length (candidates o' now ?pend)"
      "distinct (map fst (candidates o' now ?pend)) \<longrightarrow> distinct (map fst xs)"
      "ts_requests st3 = ts_requests st2 @ map (req_of now) xs"
      "\<forall>h. map_of (ts_pending st3) h = (if h \<in> fst ` set xs
         then map_option (\<lambda>p. p\<lparr>p_requested_at := now\<rparr>) (map_of ?pend h) else map_of ?pend h)"
      "ts_scanned st3 = ts_scanned st2" "ts_last_scan st3 = ts_last_scan st2"
    unfolding pend2 by blast
  show thesis
  proof (rule that)
    show "\<forall>(g, p) \<in> set xs. map_of ?pend g = Some p \<and> is_due o' now p"
      using xs(1) candidates_mem [OF _ wf] by fastforce
    show "int (length xs) \<le> o_max_per_scan o'"
      using candidates_length [OF assms(4), of now ?pend] xs(2) by linarith
    show "distinct (map fst xs)" using xs(3) candidates_distinct [OF wf] by simp
    show "ts_requests st' = ts_requests st @ map (req_of now) xs"
      using xs(4) st' same by (simp add: st2_def)
    show "\<forall>h. map_of (ts_pending st') h = (if h \<in> fst ` set xs
       then map_option (\<lambda>p. p\<lparr>p_requested_at := now\<rparr>) (map_of ?pend h) else map_of ?pend h)"
      using xs(5) st' by simp
    show "ts_scanned st'" "ts_last_scan st' = now" using xs(6,7) st' by (simp_all add: st2_def)
  qed
qed

text \<open>The windows of two scans leave no gap: what happened since the last listing is listed again.\<close>

lemma scan_since_covers:
  assumes "ts_scanned st" and "now - o_lookback o' \<le> t" and "ts_last_scan st - o_overlap o' \<le> t"
  shows "scan_since o' now st \<le> t"
  using assms by (simp add: scan_since_def time_add_def Let_def)

lemma scan_since_lookback: "now - o_lookback o' \<le> scan_since o' now st"
  by (simp add: scan_since_def time_add_def Let_def)

text \<open>What one scan asked for, the next one does not ask for again within grace.\<close>

lemma is_due_grace:
  assumes "is_due o' now p" and "p_requested_at p \<noteq> 0"
    and "o_grace o' \<le> max_duration" "0 < o_grace o'"
  shows "o_grace o' \<le> now - p_requested_at p"
proof -
  have "\<not> time_sub now (p_requested_at p) < o_grace o'"
    using assms(1,2) by (simp add: is_due_def is_zero_def)
  then show ?thesis
    using time_sub_less_iff [of "o_grace o'" now "p_requested_at p"] assms(3,4)
    by (auto simp: min_duration_def)
qed

lemma two_scans_grace:
  assumes first: "scan o' t1 ans1 st = (m1, st1)" and second: "scan o' t2 ans2 st1 = (m2, st2)"
    and wf: "wf_amap (ts_pending st)" "wf_amap (ts_pending st1)" and cap: "0 \<le> o_max_per_scan o'"
    and t1: "0 < t1" and soon: "t2 - t1 < o_grace o'" and grace: "o_grace o' \<le> max_duration" "0 < o_grace o'"
    and asked: "ts_requests st1 = ts_requests st @ rs1" "(t1, g, i) \<in> set rs1"
    and again: "ts_requests st2 = ts_requests st1 @ rs2"
  shows "(t2, g, j) \<notin> set rs2"
proof
  assume bad: "(t2, g, j) \<in> set rs2"
  obtain ds1 where l1: "listed o' t1 ans1 st = Some ds1"
  proof (cases "listed o' t1 ans1 st")
    case None
    from scan_not_listed [OF this first] asked show thesis by simp
  qed
  obtain ds2 where l2: "listed o' t2 ans2 st1 = Some ds2"
  proof (cases "listed o' t2 ans2 st1")
    case None
    from scan_not_listed [OF this second] again bad show thesis by simp
  qed
  obtain xs1 where x1: "ts_requests st1 = ts_requests st @ map (req_of t1) xs1"
    and p1: "\<forall>h. map_of (ts_pending st1) h = (if h \<in> fst ` set xs1
       then map_option (\<lambda>p. p\<lparr>p_requested_at := t1\<rparr>) (map_of (merge o' ds1 t1 (ts_pending st)) h)
       else map_of (merge o' ds1 t1 (ts_pending st)) h)"
    and d1: "\<forall>(g, p) \<in> set xs1. map_of (merge o' ds1 t1 (ts_pending st)) g = Some p \<and> is_due o' t1 p"
    by (rule scan_listed [OF l1 first wf(1) cap])
  obtain xs2 where x2: "ts_requests st2 = ts_requests st1 @ map (req_of t2) xs2"
    and d2: "\<forall>(g, p) \<in> set xs2. map_of (merge o' ds2 t2 (ts_pending st1)) g = Some p \<and> is_due o' t2 p"
    by (rule scan_listed [OF l2 second wf(2) cap])
  from x1 asked(1) have rs1: "rs1 = map (req_of t1) xs1" by simp
  from x2 again have rs2: "rs2 = map (req_of t2) xs2" by simp
  from asked(2) rs1 have g1: "g \<in> fst ` set xs1" by (force simp: req_of_def)
  from bad rs2 obtain q where q: "(g, q) \<in> set xs2" by (force simp: req_of_def)
  have m: "map_of (merge o' ds2 t2 (ts_pending st1)) g = Some q" "is_due o' t2 q" using d2 q by auto
  from g1 obtain p0 where "(g, p0) \<in> set xs1" by force
  with d1 have "map_of (merge o' ds1 t1 (ts_pending st)) g = Some p0" by auto
  then have p: "map_of (ts_pending st1) g = Some (p0\<lparr>p_requested_at := t1\<rparr>)"
    using p1 [rule_format, of g] g1 by simp
  have "p_requested_at q = t1"
  proof (cases "map_of (group ds2) g")
    case None
    with m(1) p show ?thesis by (auto simp: merge_lookup [OF wf(2)] Let_def split: if_splits)
  next
    case (Some a)
    with m(1) p show ?thesis
      by (auto simp: merge_lookup [OF wf(2)] Let_def refreshed_requested split: if_splits)
  qed
  with is_due_grace [OF m(2) _ grace] t1 soon show False by simp
qed

section \<open>Two situations the comments exclude\<close>

text \<open>
  A request GitHub refuses leaves no trace in the pending set, so a candidate that keeps being
  refused keeps its place at the head of the order.
\<close>

lemma redeliver_loop_all_refused:
  assumes "\<forall>k. \<exists>e. gh_redeliver wall (ts_target st) (ra_answer (ans k)) = Some e"
  shows "snd (redeliver_loop o' wall now ans n fe cs st) = st"
  using assms
proof (induction cs arbitrary: n fe)
  case Nil
  show ?case by simp
next
  case (Cons c cs)
  obtain g p where c: "c = (g, p)" by fastforce
  obtain e where e: "gh_redeliver wall (ts_target st) (ra_answer (ans n)) = Some e" using Cons.prems by blast
  show ?case using Cons c e by simp
qed

lemma redeliver_all_refused:
  assumes "\<forall>k. \<exists>e. gh_redeliver wall (ts_target st) (ra_answer (ans k)) = Some e"
  shows "snd (redeliver o' wall now ans st) = st"
  using redeliver_loop_all_refused [OF assms] by (simp add: redeliver_def)

text \<open>
  Three attempts of one GUID: it failed, it succeeded, it failed again. A loop that listed the first
  two in one scan and the third in the next has the GUID pending, and will ask for it; the full scan
  after a restart does not, since one attempt got a 2xx.
\<close>

lemma incremental_differs_from_full:
  assumes wf: "wf_amap pending" and g: "g \<noteq> []"
    and ids: "\<forall>d \<in> set (ds2 @ ds1). 0 < d_id d"
    and ok: "d1 \<in> set ds1" "d_guid d1 = g" "d_succeeded d1"
    and failed: "d2 \<in> set ds2" "d_guid d2 = g" "\<forall>e \<in> set ds2. d_guid e = g \<longrightarrow> \<not> d_succeeded e"
    and fresh: "\<forall>e \<in> set ds2. t2 - o_lookback o' \<le> d_at e"
  shows "map_of (merge o' ds2 t2 (merge o' ds1 t1 pending)) g \<noteq> None"
    and "map_of (merge o' (ds2 @ ds1) t2 []) g = None"
proof -
  have "map_of (merge o' ds1 t1 pending) g = None"
    by (rule merge_succeeded [OF wf _ ok g]) (use ids in simp)
  from merge_failed [OF merge_wf [OF wf] _ failed(1,2) g failed(3) fresh this]
  show "map_of (merge o' ds2 t2 (merge o' ds1 t1 pending)) g \<noteq> None"
    using ids by auto
  show "map_of (merge o' (ds2 @ ds1) t2 []) g = None"
    by (rule merge_succeeded [OF wf_amap_Nil ids _ ok(2,3) g]) (use ok(1) in simp)
qed

section \<open>Properties\<close>


definition sample_options :: options where
  "sample_options = \<lparr>o_targets = [], o_has_client = True, o_webhook_url = [], o_interval = hour,
     o_lookback = max_lookback, o_overlap = 0, o_grace = minute, o_max_per_scan = 1, o_redeliver_delay = 0\<rparr>"


text \<open>
  C6: what one scan asks GitHub for. If the attempts could not be listed it asks for nothing and keeps
  the pending set and the window for the next scan. Otherwise it asks for at most the cap of distinct
  GUIDs, each pending after the merge and past grace, naming its newest attempt, and exactly those
  are marked as requested now.
\<close>

theorem scan_within_limits:
  assumes "scan o' now ans st = (m, st')" and "wf_amap (ts_pending st)" and "0 \<le> o_max_per_scan o'"
  shows "case listed o' now ans st of
      None \<Rightarrow> ts_pending st' = ts_pending st \<and> ts_requests st' = ts_requests st \<and>
        ts_last_scan st' = ts_last_scan st \<and> ts_scanned st' = ts_scanned st
    | Some ds \<Rightarrow> \<exists>xs. ts_requests st' = ts_requests st @ map (req_of now) xs \<and>
        int (length xs) \<le> o_max_per_scan o' \<and> distinct (map fst xs) \<and>
        (\<forall>(g, p) \<in> set xs. map_of (merge o' ds now (ts_pending st)) g = Some p \<and> is_due o' now p) \<and>
        (\<forall>h. map_of (ts_pending st') h = (if h \<in> fst ` set xs
           then map_option (\<lambda>p. p\<lparr>p_requested_at := now\<rparr>) (map_of (merge o' ds now (ts_pending st)) h)
           else map_of (merge o' ds now (ts_pending st)) h)) \<and>
        ts_scanned st' \<and> ts_last_scan st' = now"
proof (cases "listed o' now ans st")
  case None
  with scan_not_listed [OF None assms(1)] show ?thesis by simp
next
  case (Some ds)
  obtain xs where
    "\<forall>(g, p) \<in> set xs. map_of (merge o' ds now (ts_pending st)) g = Some p \<and> is_due o' now p"
    "int (length xs) \<le> o_max_per_scan o'" "distinct (map fst xs)"
    "ts_requests st' = ts_requests st @ map (req_of now) xs"
    "\<forall>h. map_of (ts_pending st') h = (if h \<in> fst ` set xs
       then map_option (\<lambda>p. p\<lparr>p_requested_at := now\<rparr>) (map_of (merge o' ds now (ts_pending st)) h)
       else map_of (merge o' ds now (ts_pending st)) h)"
    "ts_scanned st'" "ts_last_scan st' = now"
    by (rule scan_listed [OF Some assms])
  then show ?thesis unfolding Some option.case by (intro exI [of _ xs] conjI)
qed

definition sample_answers :: "delivery list \<Rightarrow> scan_answers" where
  "sample_answers ds = \<lparr>sa_wall = 0, sa_discover = Inr 7, sa_list = (\<lambda>t since. Inr ds),
     sa_requests = (\<lambda>n. \<lparr>ra_interrupted = False, ra_answer = RedeliverAccepted, ra_ctx_done = False\<rparr>),
     sa_ctx_done = False\<rparr>"

definition sample_target :: target_state where
  "sample_target = init_target \<lparr>t_owner = ''o'', t_repo = ''r'', t_org = [], t_hook_id = 7\<rparr>"

definition sample_scanned :: target_state where
  "sample_scanned = snd (scan sample_options (81 * hour) (sample_answers [one_attempt 3 (80 * hour)]) sample_target)"

lemma sample_scanned_requests: "ts_requests sample_scanned = [(81 * hour, ''g'', 3)]"
  by code_simp

theorem scan_within_limits_witness:
  "\<exists>xs. ts_requests sample_scanned = map (req_of (81 * hour)) xs \<and> length xs \<le> 1 \<and> ts_scanned sample_scanned"
proof -
  let ?ans = "sample_answers [one_attempt 3 (80 * hour)]"
  have l: "listed sample_options (81 * hour) ?ans sample_target = Some [one_attempt 3 (80 * hour)]"
    by (simp add: listed_def with_hook_def sample_target_def init_target_def sample_answers_def)
  have s: "scan sample_options (81 * hour) ?ans sample_target = (fst (scan sample_options (81 * hour) ?ans sample_target), sample_scanned)"
    by (simp add: sample_scanned_def)
  have "wf_amap (ts_pending sample_target)" "0 \<le> o_max_per_scan sample_options"
    "ts_requests sample_target = []" "o_max_per_scan sample_options = 1"
    by (simp_all add: sample_target_def init_target_def sample_options_def)
  with scan_within_limits [OF s] l show ?thesis by auto
qed



text \<open>
  Under the cap, GUIDs never asked for go first: when one that was asked for before is among the
  candidates, no due GUID that was never asked for is left out.
\<close>

theorem never_requested_first:
  assumes "wf_amap pending" and "(g, p) \<in> set (candidates o' now pending)" and "0 < p_requested_at p"
    and "map_of pending h = Some q" "is_due o' now q" "p_requested_at q = 0"
  shows "(h, q) \<in> set (candidates o' now pending)"
  by (rule candidates_never_requested_first [OF assms])

theorem never_requested_first_witness:
  "(''B'', \<lparr>p_latest_id = 2, p_latest_at = 2 * hour, p_requested_at = 0\<rparr>) \<in>
    set (candidates (sample_options\<lparr>o_max_per_scan := 2\<rparr>) (80 * hour)
      [(''A'', \<lparr>p_latest_id = 1, p_latest_at = hour, p_requested_at = 3 * hour\<rparr>),
       (''B'', \<lparr>p_latest_id = 2, p_latest_at = 2 * hour, p_requested_at = 0\<rparr>)])"
proof (rule never_requested_first [where g = "''A''" and p = "\<lparr>p_latest_id = 1, p_latest_at = hour, p_requested_at = 3 * hour\<rparr>"])
  show "wf_amap [(''A'', \<lparr>p_latest_id = 1, p_latest_at = hour, p_requested_at = 3 * hour\<rparr>),
       (''B'', \<lparr>p_latest_id = 2, p_latest_at = 2 * hour, p_requested_at = 0\<rparr>)]" by code_simp
  show "(''A'', \<lparr>p_latest_id = 1, p_latest_at = hour, p_requested_at = 3 * hour\<rparr>) \<in>
    set (candidates (sample_options\<lparr>o_max_per_scan := 2\<rparr>) (80 * hour)
      [(''A'', \<lparr>p_latest_id = 1, p_latest_at = hour, p_requested_at = 3 * hour\<rparr>),
       (''B'', \<lparr>p_latest_id = 2, p_latest_at = 2 * hour, p_requested_at = 0\<rparr>)])" by code_simp
  show "is_due (sample_options\<lparr>o_max_per_scan := 2\<rparr>) (80 * hour)
    \<lparr>p_latest_id = 2, p_latest_at = 2 * hour, p_requested_at = 0\<rparr>" by code_simp
qed (simp_all add: go_simps)

text \<open>
  C16: incremental scans do not always reach the decision of a full scan: a GUID that failed, succeeded
  and failed again is pending for a loop that saw the success in an earlier scan, and is not for a
  loop that was restarted, although one of its attempts got a 2xx.
\<close>

theorem incremental_scan_differs:
  assumes "wf_amap pending" and "g \<noteq> []" and "\<forall>d \<in> set (ds2 @ ds1). 0 < d_id d"
    and "d1 \<in> set ds1" "d_guid d1 = g" "d_succeeded d1"
    and "d2 \<in> set ds2" "d_guid d2 = g" "\<forall>e \<in> set ds2. d_guid e = g \<longrightarrow> \<not> d_succeeded e"
    and "\<forall>e \<in> set ds2. t2 - o_lookback o' \<le> d_at e"
  shows "map_of (merge o' ds2 t2 (merge o' ds1 t1 pending)) g \<noteq> None \<and>
    map_of (merge o' (ds2 @ ds1) t2 []) g = None"
  using incremental_differs_from_full [OF assms] by blast

theorem incremental_scan_differs_witness:
  "map_of (merge sample_options [one_attempt 3 (82 * hour)] (83 * hour)
      (merge sample_options [(one_attempt 2 (80 * hour))\<lparr>d_status := 200\<rparr>, one_attempt 1 (79 * hour)] (81 * hour) [])) ''g'' \<noteq> None \<and>
   map_of (merge sample_options ([one_attempt 3 (82 * hour)] @
      [(one_attempt 2 (80 * hour))\<lparr>d_status := 200\<rparr>, one_attempt 1 (79 * hour)]) (83 * hour) []) ''g'' = None"
  by (rule incremental_scan_differs [where ?d1.0 = "(one_attempt 2 (80 * hour))\<lparr>d_status := 200\<rparr>"
        and ?d2.0 = "one_attempt 3 (82 * hour)"])
    (simp_all add: one_attempt_def d_succeeded_def sample_options_def max_lookback_def go_simps)

text \<open>
  C17: a request GitHub refuses is not remembered, so under the cap a GUID whose redelivery keeps being
  refused keeps the others out: with a cap of one, at any time in the lookback window only A is asked
  for although B is due as well, and a scan in which A is refused leaves the state as it was.
\<close>

theorem refused_request_starves:
  assumes "2 * hour + minute \<le> now" and "now \<le> 73 * hour"
    and "\<forall>k. \<exists>e. gh_redeliver wall (ts_target st) (ra_answer (ans k)) = Some e"
    and "ts_pending st = [(''A'', \<lparr>p_latest_id = 1, p_latest_at = hour, p_requested_at = 0\<rparr>),
      (''B'', \<lparr>p_latest_id = 2, p_latest_at = 2 * hour, p_requested_at = 0\<rparr>)]"
  shows "map fst (candidates sample_options now (ts_pending st)) = [''A''] \<and>
    is_due sample_options now \<lparr>p_latest_id = 2, p_latest_at = 2 * hour, p_requested_at = 0\<rparr> \<and>
    snd (redeliver sample_options wall now ans st) = st \<and> merge sample_options [] now (ts_pending st) = ts_pending st"
proof -
  have d: "\<not> time_sub now t < minute" if "t = hour \<or> t = 2 * hour" for t
    using assms(1,2) that time_sub_less_iff [of minute now t] by (auto simp: go_simps)
  have "is_due sample_options now \<lparr>p_latest_id = 2, p_latest_at = 2 * hour, p_requested_at = 0\<rparr>"
    using d by (simp add: is_due_def sample_options_def is_zero_def)
  moreover have "map fst (candidates sample_options now (ts_pending st)) = [''A'']"
    using d unfolding assms(4)
    by (simp add: candidates_def is_due_def sample_options_def is_zero_def sort_due_def due_before_def)
      (simp add: go_simps)
  moreover have "merge sample_options [] now (ts_pending st) = ts_pending st"
    using assms(2) unfolding assms(4)
    by (simp add: merge_def time_add_def sample_options_def max_lookback_def go_simps)
  ultimately show ?thesis using redeliver_all_refused [OF assms(3)] by blast
qed

theorem refused_request_starves_witness:
  "map fst (candidates sample_options (50 * hour) (ts_pending (sample_target\<lparr>ts_pending :=
      [(''A'', \<lparr>p_latest_id = 1, p_latest_at = hour, p_requested_at = 0\<rparr>),
       (''B'', \<lparr>p_latest_id = 2, p_latest_at = 2 * hour, p_requested_at = 0\<rparr>)]\<rparr>))) = [''A'']"
proof (rule conjunct1 [OF refused_request_starves
    [where ans = "\<lambda>k. \<lparr>ra_interrupted = False, ra_answer = RedeliverError (OtherError (Msg ''404'')), ra_ctx_done = False\<rparr>"]])
  show "2 * hour + minute \<le> 50 * hour" "50 * hour \<le> 73 * hour" by (simp_all add: go_simps)
qed (simp_all add: gh_redeliver_def sample_target_def init_target_def)

end
