(* ===== verification/Otlp.thy ===== *)
theory Otlp
  imports SinkCore
begin

text \<open>
  Package \<open>otlp\<close> (\<open>internal/otlp\<close>): the classification of failed exports, the delays between retries,
  the export loop, the conversion of values, spans and records to OTLP, and the rules of the
  configuration. The transport, the clock and the deadline are arguments.
\<close>

section \<open>Classification\<close>

record verdict =
  v_retryable :: bool
  v_wait :: duration

definition http_of :: "goerr \<Rightarrow> (int \<times> duration) option" where
  "http_of = err_find (\<lambda>e. case e of HTTPError n m d \<Rightarrow> Some (n, d) | _ \<Rightarrow> None)"

definition grpc_of :: "goerr \<Rightarrow> (grpc_code \<times> duration option) option" where
  "grpc_of = err_find (\<lambda>e. case e of GRPCStatus c m r \<Rightarrow> Some (c, r) | _ \<Rightarrow> None)"

definition retry_info_delay :: "duration option \<Rightarrow> duration option" where
  "retry_info_delay r = map_option (\<lambda>d. max d 0) r"

definition retry_info :: "duration option \<Rightarrow> duration" where
  "retry_info r = (case retry_info_delay r of None \<Rightarrow> 0 | Some d \<Rightarrow> d)"

definition grpc_retryable :: "grpc_code list" where
  "grpc_retryable = [CanceledC, DeadlineExceededC, Aborted, OutOfRange, Unavailable, DataLoss]"

definition otlp_classify :: "goerr \<Rightarrow> verdict" where
  "otlp_classify e =
     (case http_of e of
        Some (code, retry_after) \<Rightarrow>
          if code = 429 \<or> code = 502 \<or> code = 503 \<or> code = 504
          then \<lparr>v_retryable = True, v_wait = retry_after\<rparr>
          else \<lparr>v_retryable = False, v_wait = 0\<rparr>
      | None \<Rightarrow>
          (case grpc_of e of
             Some (code, info) \<Rightarrow>
               if code = OK then \<lparr>v_retryable = True, v_wait = 0\<rparr>
               else if code \<in> set grpc_retryable then \<lparr>v_retryable = True, v_wait = retry_info info\<rparr>
               else if code = ResourceExhausted then
                 (case retry_info_delay info of
                    Some wait \<Rightarrow> \<lparr>v_retryable = True, v_wait = wait\<rparr>
                  | None \<Rightarrow> \<lparr>v_retryable = False, v_wait = 0\<rparr>)
               else \<lparr>v_retryable = False, v_wait = 0\<rparr>
           | None \<Rightarrow> \<lparr>v_retryable = True, v_wait = 0\<rparr>))"

text \<open>
  \<open>http_date\<close> is \<open>http.ParseTime\<close>. The product of seconds is the 64-bit product of the source.
\<close>

definition parse_retry_after :: "(string \<Rightarrow> gtime option) \<Rightarrow> string \<Rightarrow> gtime \<Rightarrow> duration" where
  "parse_retry_after http_date h now =
     (if h = [] then 0
      else case parse_int64 h of
          Some secs \<Rightarrow> max (wrap64 (secs * second)) 0
        | None \<Rightarrow> (case http_date h of Some at \<Rightarrow> max (time_sub at now) 0 | None \<Rightarrow> 0))"

definition otlp_finalize :: "ctx_err option \<Rightarrow> goerr \<Rightarrow> goerr" where
  "otlp_finalize ctx_err e =
     (case ctx_err of
        Some c \<Rightarrow> CtxErr c
      | None \<Rightarrow>
          let wrapped = Wrap ''otlp export'' [e]
          in if v_retryable (otlp_classify e) then wrapped else the (permanent (Some wrapped)))"

text \<open>The loop of \<open>backoffDelay\<close>: \<open>k\<close> doublings are left.\<close>

fun backoff_loop :: "nat \<Rightarrow> duration \<Rightarrow> duration" where
  "backoff_loop 0 d = d"
| "backoff_loop (Suc k) d = (let d = wrap64 (d * 2) in if minute < d then minute else backoff_loop k d)"

definition backoff_delay :: "duration \<Rightarrow> int \<Rightarrow> duration" where
  "backoff_delay base n = (if base \<le> 0 \<or> n \<le> 0 then 0 else backoff_loop (nat (n - 1)) base)"

section \<open>The export loop\<close>

record retry_config =
  rt_attempts :: int
  rt_backoff :: duration

record tls_config =
  tl_ca_file :: string
  tl_cert_file :: string
  tl_key_file :: string
  tl_server_name :: string

record otlp_config =
  oc_endpoint :: string
  oc_protocol :: string
  oc_insecure :: bool
  oc_tls :: tls_config
  oc_headers :: "(string, string) amap"
  oc_timeout :: duration
  oc_compression :: string
  oc_retry :: retry_config

text \<open>
  What happens around attempt \<open>n\<close>: the context's error before it, its outcome (\<open>Inr\<close> the rejected count
  and message of a partial success), the context's error when it is reported, the time left to the
  deadline, and the error of the pause after it.
\<close>

record export_answer =
  ea_before :: "ctx_err option"
  ea_outcome :: "goerr + int \<times> string"
  ea_ctx :: "ctx_err option"
  ea_deadline :: "duration option"
  ea_sleep :: "ctx_err option"

text \<open>The result also lists the pauses made and the items rejected.\<close>

function export_loop ::
  "otlp_config \<Rightarrow> (int \<Rightarrow> export_answer) \<Rightarrow> int \<Rightarrow> goerr option \<times> duration list \<times> int" where
  "export_loop cfg ans n =
     (case ea_before (ans n) of
        Some c \<Rightarrow> (Some (CtxErr c), [], 0)
      | None \<Rightarrow>
          (case ea_outcome (ans n) of
             Inr (rejected, message) \<Rightarrow> (None, [], max rejected 0)
           | Inl e \<Rightarrow>
               let v = otlp_classify e in
               if \<not> v_retryable v \<or> rt_attempts (oc_retry cfg) \<le> n
               then (Some (otlp_finalize (ea_ctx (ans n)) e), [], 0)
               else
                 let delay = (if v_wait v = 0 then backoff_delay (rt_backoff (oc_retry cfg)) (n + 1) else v_wait v)
                 in if (case ea_deadline (ans n) of None \<Rightarrow> False | Some left \<Rightarrow> left \<le> delay) \<or> oc_timeout cfg < delay
                    then (Some (otlp_finalize (ea_ctx (ans n)) e), [], 0)
                    else (case ea_sleep (ans n) of
                        Some c \<Rightarrow> (Some (CtxErr c), [delay], 0)
                      | None \<Rightarrow> (let (r, ds, rej) = export_loop cfg ans (n + 1) in (r, delay # ds, rej)))))"
  by pat_completeness auto
termination
  by (relation "measure (\<lambda>(cfg, ans, n). nat (rt_attempts (oc_retry cfg) - n))") (auto simp: Let_def)

declare export_loop.simps [simp del]

definition otlp_export :: "otlp_config \<Rightarrow> (int \<Rightarrow> export_answer) \<Rightarrow> goerr option \<times> duration list \<times> int" where
  "otlp_export cfg ans = export_loop cfg ans 0"

text \<open>\<open>ExportSpans\<close> and \<open>ExportLogs\<close>: an empty batch is not sent.\<close>

definition export_items :: "otlp_config \<Rightarrow> (int \<Rightarrow> export_answer) \<Rightarrow> 'a list \<Rightarrow> goerr option \<times> duration list \<times> int" where
  "export_items cfg ans items = (if items = [] then (None, [], 0) else otlp_export cfg ans)"

section \<open>The HTTP transport\<close>

definition max_error_message :: nat where "max_error_message = 512"

definition truncate_msg :: "string \<Rightarrow> string" where
  "truncate_msg s = (if length s \<le> max_error_message then s
     else take max_error_message s @ [CHR 0xE2, CHR 0x80, CHR 0xA6])"

text \<open>
  \<open>is_pb\<close> tells whether the content type is protobuf, \<open>status_msg\<close> decodes a \<open>google.rpc.Status\<close> and gives
  its message.
\<close>

definition error_message :: "bool \<Rightarrow> (string \<Rightarrow> string option) \<Rightarrow> string \<Rightarrow> string" where
  "error_message is_pb status_msg data =
     (if data = [] then []
      else if is_pb then (case status_msg data of Some m \<Rightarrow> if m \<noteq> [] then truncate_msg m else [] | None \<Rightarrow> [])
      else truncate_msg (trim_space data))"

record http_answer =
  ha_status :: int
  ha_data :: string
  ha_read_error :: "string option"
  ha_protobuf :: bool
  ha_retry_after :: string

text \<open>
  \<open>post\<close> once the request is sent: an error, or the partial-success fields of the response. \<open>decode\<close> is
  what they are after \<open>proto.Unmarshal\<close> of the body, whose own error the code ignores.
\<close>

definition http_post ::
  "(string \<Rightarrow> gtime option) \<Rightarrow> (string \<Rightarrow> string option) \<Rightarrow> (string \<Rightarrow> int \<times> string) \<Rightarrow> gtime \<Rightarrow>
    goerr + http_answer \<Rightarrow> goerr + int \<times> string" where
  "http_post http_date status_msg decode now ans =
     (case ans of
        Inl e \<Rightarrow> Inl e
      | Inr a \<Rightarrow>
          if ha_status a < 200 \<or> 299 < ha_status a then
            (let msg = error_message (ha_protobuf a) status_msg (ha_data a);
                 msg = (case ha_read_error a of None \<Rightarrow> msg
                   | Some r \<Rightarrow> trim_space (msg @ ''; response body: '' @ r))
             in Inl (HTTPError (ha_status a) msg (parse_retry_after http_date (ha_retry_after a) now)))
          else if ha_read_error a \<noteq> None then Inr (0, [])
          else if ha_data a \<noteq> [] \<and> ha_protobuf a then Inr (decode (ha_data a))
          else Inr (0, []))"

section \<open>Values\<close>

text \<open>
  A Go value of the kinds \<open>AnyValue\<close> tells apart; integers of every signed width are \<open>GInt\<close>, small
  unsigned ones too, \<open>GUint\<close> is \<open>uint\<close> and \<open>uint64\<close>. A float is its bits. \<open>GText\<close> is a value rendered as
  its \<open>String()\<close> or \<open>%v\<close> text.
\<close>

datatype goval =
    GNil | GStr string | GBool bool | GInt int | GUint int | GFloat int | GBytes string
  | GTime gtime | GStrs "string list" | GList "goval list" | GMap "(string \<times> goval) list" | GText string

datatype anyval =
    AEmpty | AStr string | ABool bool | AInt int | ADouble int | ABytes string
  | AArr "anyval list" | AKv "(string \<times> anyval) list"

definition uint_value :: "int \<Rightarrow> anyval" where
  "uint_value u = (if 2 ^ 63 - 1 < u then AStr (format_int u) else AInt u)"

fun insert_kv :: "string \<times> 'a \<Rightarrow> (string \<times> 'a) list \<Rightarrow> (string \<times> 'a) list" where
  "insert_kv x [] = [x]"
| "insert_kv x (y # ys) = (if str_le (fst x) (fst y) then x # y # ys else y # insert_kv x ys)"

definition sort_kv :: "(string \<times> 'a) list \<Rightarrow> (string \<times> 'a) list" where
  "sort_kv xs = foldr insert_kv xs []"

fun any_value :: "goval \<Rightarrow> anyval" where
  "any_value GNil = AEmpty"
| "any_value (GStr s) = AStr s"
| "any_value (GBool b) = ABool b"
| "any_value (GInt i) = AInt i"
| "any_value (GUint u) = uint_value u"
| "any_value (GFloat f) = ADouble f"
| "any_value (GBytes s) = ABytes s"
| "any_value (GTime t) = AStr (format_rfc3339 t)"
| "any_value (GStrs ss) = AArr (map AStr ss)"
| "any_value (GList vs) = AArr (map any_value vs)"
| "any_value (GMap kvs) = AKv (sort_kv (map (\<lambda>(k, v). (k, any_value v)) kvs))"
| "any_value (GText s) = AStr s"

definition attributes :: "(string \<times> goval) list \<Rightarrow> (string \<times> anyval) list" where
  "attributes m = sort_kv (map (\<lambda>(k, v). (k, any_value v)) m)"

text \<open>\<open>UnixNano\<close> of an instant after 1970, as a \<open>uint64\<close>.\<close>

definition unix_epoch :: gtime where "unix_epoch = 62135596800 * second"

definition unix_nano :: "gtime \<Rightarrow> int" where
  "unix_nano t = (if is_zero t then 0 else wrap64 (t - unix_epoch) mod 2 ^ 64)"

section \<open>Spans and records\<close>

record span =
  sp_trace_id :: string
  sp_span_id :: string
  sp_parent_id :: string
  sp_name :: string
  sp_kind :: int
  sp_start :: gtime
  sp_end :: gtime
  sp_attrs :: "(string \<times> goval) list"
  sp_status_code :: int
  sp_status_msg :: string

definition status_unset :: int where "status_unset = 0"
definition status_ok :: int where "status_ok = 1"
definition status_error :: int where "status_error = 2"
definition span_kind_internal :: int where "span_kind_internal = 1"

record log_record =
  lr_time :: gtime
  lr_observed :: gtime
  lr_severity :: int
  lr_severity_text :: string
  lr_body :: string
  lr_attrs :: "(string \<times> goval) list"
  lr_trace_id :: string
  lr_span_id :: string

definition severity_unspecified :: int where "severity_unspecified = 0"
definition otlp_debug :: int where "otlp_debug = 5"
definition otlp_info :: int where "otlp_info = 9"
definition otlp_warn :: int where "otlp_warn = 13"
definition otlp_error :: int where "otlp_error = 17"

record proto_span =
  ps_trace_id :: string
  ps_span_id :: string
  ps_parent_id :: "string option"
  ps_name :: string
  ps_kind :: int
  ps_start :: int
  ps_end :: int
  ps_attrs :: "(string \<times> anyval) list"
  ps_status :: "int \<times> string"

text \<open>An identifier of zero bytes only is absent.\<close>

definition zero_id :: "string \<Rightarrow> bool" where "zero_id s \<longleftrightarrow> list_all (\<lambda>c. c = CHR 0x00) s"

definition span_proto :: "span \<Rightarrow> proto_span" where
  "span_proto s = \<lparr>ps_trace_id = sp_trace_id s, ps_span_id = sp_span_id s,
     ps_parent_id = (if zero_id (sp_parent_id s) then None else Some (sp_parent_id s)),
     ps_name = sp_name s, ps_kind = sp_kind s, ps_start = unix_nano (sp_start s),
     ps_end = unix_nano (sp_end s), ps_attrs = attributes (sp_attrs s),
     ps_status = (sp_status_code s, sp_status_msg s)\<rparr>"

record proto_log =
  pl_time :: int
  pl_observed :: int
  pl_severity :: int
  pl_severity_text :: string
  pl_body :: anyval
  pl_attrs :: "(string \<times> anyval) list"
  pl_trace_id :: "string option"
  pl_span_id :: "string option"

definition log_proto :: "log_record \<Rightarrow> proto_log" where
  "log_proto r = \<lparr>pl_time = unix_nano (lr_time r), pl_observed = unix_nano (lr_observed r),
     pl_severity = lr_severity r, pl_severity_text = lr_severity_text r, pl_body = any_value (GStr (lr_body r)),
     pl_attrs = attributes (lr_attrs r),
     pl_trace_id = (if zero_id (lr_trace_id r) then None else Some (lr_trace_id r)),
     pl_span_id = (if zero_id (lr_span_id r) then None else Some (lr_span_id r))\<rparr>"

definition default_resource :: "string \<Rightarrow> (string \<times> goval) list" where
  "default_resource version = [(''service.name'', GStr ''antwatcher''), (''service.version'', GStr version)]"

definition scope_version :: "(string \<times> goval) list \<Rightarrow> string" where
  "scope_version attrs = (case map_of attrs ''service.version'' of Some (GStr v) \<Rightarrow> v | _ \<Rightarrow> [])"

record 'a proto_batch =
  pb_resource :: "(string \<times> anyval) list"
  pb_scope :: "string \<times> string"
  pb_items :: "'a list"

definition resource_spans :: "(string \<times> goval) list \<Rightarrow> span list \<Rightarrow> proto_span proto_batch" where
  "resource_spans res spans = \<lparr>pb_resource = attributes res, pb_scope = (''antwatcher'', scope_version res),
     pb_items = map span_proto spans\<rparr>"

definition resource_logs :: "(string \<times> goval) list \<Rightarrow> log_record list \<Rightarrow> proto_log proto_batch" where
  "resource_logs res records = \<lparr>pb_resource = attributes res, pb_scope = (''antwatcher'', scope_version res),
     pb_items = map log_proto records\<rparr>"

end
