(* ===== verification/OtlpFacts.thy ===== *)
theory OtlpFacts
  imports Otlp "HOL-Library.Multiset"
begin

text \<open>
  What the OTLP client promises: which failures are retried, how long the pauses are, how an export can
  end, and what arrives at the collector.
\<close>

section \<open>Classification and delays\<close>

lemma parse_retry_after_nonneg: "0 \<le> parse_retry_after pd h now"
  by (auto simp: parse_retry_after_def split: option.splits)

lemma parse_retry_after_seconds:
  assumes "h \<noteq> []" and "parse_int64 h = Some secs" and "0 \<le> secs" and "secs * second \<le> max_duration"
  shows "parse_retry_after pd h now = secs * second"
  using assms by (simp add: parse_retry_after_def wrap64_id duration_defs)

lemma backoff_loop_le: "0 < k \<Longrightarrow> backoff_loop k d \<le> minute"
proof (induction k arbitrary: d)
  case (Suc k)
  show ?case
  proof (cases "minute < wrap64 (d * 2)")
    case False
    then show ?thesis using Suc.IH [of "wrap64 (d * 2)"] by (cases k) (auto simp: Let_def)
  qed (simp add: Let_def)
qed simp

lemma backoff_loop_eq: "0 < d \<Longrightarrow> d \<le> minute \<Longrightarrow> backoff_loop k d = min minute (d * 2 ^ k)"
proof (induction k arbitrary: d)
  case (Suc k)
  have w: "wrap64 (d * 2) = d * 2" using Suc.prems by (intro wrap64_id) (simp_all add: duration_defs)
  show ?case
  proof (cases "minute < d * 2")
    case True
    have "d * 2 * 1 \<le> d * 2 * 2 ^ k" using Suc.prems by (intro mult_left_mono) simp_all
    then have "minute \<le> d * 2 ^ Suc k" using True by simp
    then show ?thesis using w True by (simp add: Let_def)
  next
    case False
    then show ?thesis using w Suc.IH [of "d * 2"] Suc.prems by (simp add: Let_def mult.assoc)
  qed
qed simp

lemma backoff_delay_eq:
  "0 < base \<Longrightarrow> base \<le> minute \<Longrightarrow> 0 < n \<Longrightarrow> backoff_delay base n = min minute (base * 2 ^ nat (n - 1))"
  by (simp add: backoff_delay_def backoff_loop_eq)

lemma finalize_ctx [simp]: "otlp_finalize (Some c) e = CtxErr c"
  by (simp add: otlp_finalize_def)

lemma finalize_permanent:
  "\<not> is_permanent e \<Longrightarrow> is_permanent (otlp_finalize c e) \<longleftrightarrow> c = None \<and> \<not> v_retryable (otlp_classify e)"
  by (auto simp: otlp_finalize_def permanent_def Let_def split: option.splits)

lemma finalize_skipped: "\<not> is_skipped e \<Longrightarrow> \<not> is_skipped (otlp_finalize c e)"
  by (auto simp: otlp_finalize_def permanent_def is_skipped_def is_sentinel_def Let_def split: option.splits)

lemma finalize_cause:
  "err_any P e \<Longrightarrow> err_any P (otlp_finalize None e)"
  by (auto simp: otlp_finalize_def permanent_def Let_def)

section \<open>The export loop\<close>

text \<open>The delay of the pause after attempt \<open>n\<close> failed with \<open>e\<close>.\<close>

definition pause_after :: "otlp_config \<Rightarrow> int \<Rightarrow> goerr \<Rightarrow> duration" where
  "pause_after cfg n e = (let w = v_wait (otlp_classify e) in
     if w = 0 then backoff_delay (rt_backoff (oc_retry cfg)) (n + 1) else w)"

text \<open>Whether attempt \<open>n\<close> is followed by another one.\<close>

definition tries_again :: "otlp_config \<Rightarrow> (int \<Rightarrow> export_answer) \<Rightarrow> int \<Rightarrow> bool" where
  "tries_again cfg ans n \<longleftrightarrow> n < rt_attempts (oc_retry cfg) \<and> ea_before (ans n) = None \<and>
     (case ea_outcome (ans n) of
        Inr p \<Rightarrow> False
      | Inl e \<Rightarrow> v_retryable (otlp_classify e) \<and> pause_after cfg n e \<le> oc_timeout cfg \<and>
          (\<forall>left. ea_deadline (ans n) = Some left \<longrightarrow> pause_after cfg n e < left)) \<and>
     ea_sleep (ans n) = None"

text \<open>How the last attempt \<open>n\<close> decides the result.\<close>

definition ends_with :: "otlp_config \<Rightarrow> (int \<Rightarrow> export_answer) \<Rightarrow> int \<Rightarrow> goerr option \<Rightarrow> int \<Rightarrow> bool" where
  "ends_with cfg ans n r rej \<longleftrightarrow>
     (case r of
        None \<Rightarrow> ea_before (ans n) = None \<and> (\<exists>k m. ea_outcome (ans n) = Inr (k, m) \<and> rej = max k 0)
      | Some e \<Rightarrow> rej = 0 \<and>
          ((\<exists>c. ea_before (ans n) = Some c \<and> e = CtxErr c) \<or>
           (\<exists>x. ea_before (ans n) = None \<and> ea_outcome (ans n) = Inl x \<and>
             (e = otlp_finalize (ea_ctx (ans n)) x \<or>
              v_retryable (otlp_classify x) \<and> (\<exists>c. ea_sleep (ans n) = Some c \<and> e = CtxErr c)))))"

text \<open>A pause is never longer than the timeout of an attempt and ends before the deadline.\<close>

definition pause_ok :: "otlp_config \<Rightarrow> (int \<Rightarrow> export_answer) \<Rightarrow> int \<Rightarrow> duration \<Rightarrow> bool" where
  "pause_ok cfg ans n d \<longleftrightarrow> d \<le> oc_timeout cfg \<and> (\<forall>left. ea_deadline (ans n) = Some left \<longrightarrow> d < left) \<and>
     (\<exists>e. ea_outcome (ans n) = Inl e \<and> d = pause_after cfg n e)"

lemma tries_againD:
  "tries_again cfg ans n \<Longrightarrow> ea_before (ans n) = None \<and> n < rt_attempts (oc_retry cfg) \<and>
     (\<exists>e. ea_outcome (ans n) = Inl e \<and> v_retryable (otlp_classify e))"
  by (cases "ea_outcome (ans n)") (auto simp: tries_again_def)

lemma export_loop_next:
  "tries_again cfg ans n \<Longrightarrow> ea_outcome (ans n) = Inl e \<Longrightarrow>
     export_loop cfg ans n =
       (let (r, ds, rej) = export_loop cfg ans (n + 1) in (r, pause_after cfg n e # ds, rej))"
  by (subst export_loop.simps)
    (auto simp: tries_again_def pause_after_def Let_def not_le not_less split: option.splits if_splits)

lemma export_loop_last:
  assumes "\<not> tries_again cfg ans n" and "export_loop cfg ans n = (r, ds, rej)"
  shows "ends_with cfg ans n r rej \<and> (ds = [] \<or> (\<exists>d. ds = [d] \<and> pause_ok cfg ans n d))"
proof -
  note l = assms(2) [unfolded export_loop.simps [of cfg ans n]]
  show ?thesis
  proof (cases "ea_before (ans n)")
    case None
    show ?thesis
    proof (cases "ea_outcome (ans n)")
      case (Inl e)
      show ?thesis
      proof (cases "v_retryable (otlp_classify e) \<and> n < rt_attempts (oc_retry cfg) \<and>
          pause_after cfg n e \<le> oc_timeout cfg \<and>
          (\<forall>left. ea_deadline (ans n) = Some left \<longrightarrow> pause_after cfg n e < left)")
        case True
        with assms(1) None Inl obtain c where "ea_sleep (ans n) = Some c"
          by (cases "ea_sleep (ans n)") (auto simp: tries_again_def)
        with l None Inl True show ?thesis
          by (auto simp: ends_with_def pause_ok_def pause_after_def Let_def not_le not_less split: option.splits if_splits)
      next
        case False
        with l None Inl show ?thesis
          by (auto simp: ends_with_def pause_after_def Let_def not_le not_less split: option.splits if_splits)
      qed
    next
      case (Inr p)
      with l None show ?thesis by (cases p) (auto simp: ends_with_def)
    qed
  qed (use l in \<open>auto simp: ends_with_def\<close>)
qed

lemma export_loop_outcome:
  "export_loop cfg ans n = (r, ds, rej) \<Longrightarrow>
     \<exists>j. (\<forall>k<j. tries_again cfg ans (n + int k)) \<and> \<not> tries_again cfg ans (n + int j) \<and> ends_with cfg ans (n + int j) r rej \<and>
       j \<le> length ds \<and> length ds \<le> j + 1 \<and> (\<forall>k<length ds. pause_ok cfg ans (n + int k) (ds ! k))"
proof (induction "nat (rt_attempts (oc_retry cfg) - n)" arbitrary: n r ds rej rule: less_induct)
  case less
  show ?case
  proof (cases "tries_again cfg ans n")
    case False
    from this export_loop_last [OF this less.prems] show ?thesis by (intro exI [of _ 0]) auto
  next
    case True
    then obtain e where e: "ea_outcome (ans n) = Inl e" by (cases "ea_outcome (ans n)") (auto simp: tries_again_def)
    obtain r' ds' rej' where rec: "export_loop cfg ans (n + 1) = (r', ds', rej')" using prod_cases3 by blast
    from less.prems export_loop_next [OF True e] rec
    have eq: "r = r'" "ds = pause_after cfg n e # ds'" "rej = rej'" by auto
    have step: "\<exists>j. (\<forall>k<j. tries_again cfg ans (n + 1 + int k)) \<and>
        \<not> tries_again cfg ans (n + 1 + int j) \<and> ends_with cfg ans (n + 1 + int j) r' rej' \<and> j \<le> length ds' \<and> length ds' \<le> j + 1 \<and> (\<forall>k<length ds'. pause_ok cfg ans (n + 1 + int k) (ds' ! k))"
      using True by (intro less.hyps [OF _ rec]) (simp add: tries_again_def)
    then obtain j where j: "\<forall>k<j. tries_again cfg ans (n + 1 + int k)"
        "\<not> tries_again cfg ans (n + 1 + int j)" "ends_with cfg ans (n + 1 + int j) r' rej'"
        "j \<le> length ds'" "length ds' \<le> j + 1" "\<forall>k<length ds'. pause_ok cfg ans (n + 1 + int k) (ds' ! k)"
      by blast
    have p: "pause_ok cfg ans n (pause_after cfg n e)" using True e by (auto simp: pause_ok_def tries_again_def)
    show ?thesis
    proof (intro exI [of _ "Suc j"] conjI allI impI)
      fix k assume "k < Suc j"
      then show "tries_again cfg ans (n + int k)" using True j(1) by (cases k) (auto simp: algebra_simps)
    next
      fix k assume "k < length ds"
      then show "pause_ok cfg ans (n + int k) (ds ! k)" using p j(6) eq by (cases k) (auto simp: algebra_simps)
    qed (use j eq in \<open>auto simp: algebra_simps\<close>)
  qed
qed

text \<open>The last attempt is determined, and whether it makes the result permanent.\<close>

lemma last_attempt_unique:
  assumes "\<forall>k<j. tries_again cfg ans (int k)" and "\<not> tries_again cfg ans (int j)"
    and "\<forall>k<j'. tries_again cfg ans (int k)" and "ea_outcome (ans (int j')) = Inl x"
    and "\<not> v_retryable (otlp_classify x)"
  shows "j' = j"
proof (rule ccontr)
  assume "j' \<noteq> j"
  then consider "j < j'" | "j' < j" by linarith
  then show False
  proof cases
    case 2
    with assms(1,4,5) tries_againD [of cfg ans "int j'"] show False by auto
  qed (use assms(2,3) in simp)
qed

lemma ends_permanent:
  assumes "ends_with cfg ans n (Some e) rej"
    and "\<forall>n x. ea_outcome (ans n) = Inl x \<longrightarrow> \<not> is_permanent x \<and> \<not> is_skipped x"
  shows "is_permanent e \<longleftrightarrow> ea_before (ans n) = None \<and>
    (\<exists>x. ea_outcome (ans n) = Inl x \<and> \<not> v_retryable (otlp_classify x) \<and> ea_ctx (ans n) = None)"
proof -
  have "is_permanent (otlp_finalize c x) \<longleftrightarrow> c = None \<and> \<not> v_retryable (otlp_classify x)"
    if "ea_outcome (ans n) = Inl x" for c x
    using assms(2) that by (simp add: finalize_permanent)
  with assms(1) show ?thesis by (auto simp: ends_with_def)
qed

lemma ends_not_skipped:
  assumes "ends_with cfg ans n (Some e) rej"
    and "\<forall>n x. ea_outcome (ans n) = Inl x \<longrightarrow> \<not> is_permanent x \<and> \<not> is_skipped x"
  shows "\<not> is_skipped e"
proof -
  from assms(1) consider c where "e = CtxErr c"
    | x where "ea_outcome (ans n) = Inl x" "e = otlp_finalize (ea_ctx (ans n)) x"
    by (auto simp: ends_with_def)
  then show ?thesis
    by cases (use assms(2) finalize_skipped in \<open>auto simp: is_skipped_def is_sentinel_def\<close>)
qed

section \<open>Values\<close>

lemma str_le_antisym: "str_le a b \<Longrightarrow> str_le b a \<Longrightarrow> a = b"
proof -
  let ?R = "{(x :: char, y). (of_char x :: nat) < of_char y}"
  have "asym ?R" by (rule asymI) simp
  then have "(a, b) \<in> lexord ?R \<Longrightarrow> (b, a) \<notin> lexord ?R" by (rule lexord_asymmetric)
  then show "str_le a b \<Longrightarrow> str_le b a \<Longrightarrow> a = b" unfolding str_le_def by blast
qed

definition kv_le :: "string \<times> 'a \<Rightarrow> string \<times> 'a \<Rightarrow> bool" where "kv_le x y \<longleftrightarrow> str_le (fst x) (fst y)"

lemma set_insert_kv [simp]: "set (insert_kv x ys) = insert x (set ys)"
  by (induction ys) auto

lemma mset_insert_kv [simp]: "mset (insert_kv x ys) = add_mset x (mset ys)"
  by (induction ys) auto

lemma sorted_insert_kv: "sorted_wrt kv_le ys \<Longrightarrow> sorted_wrt kv_le (insert_kv x ys)"
proof (induction ys)
  case (Cons y ys)
  have "kv_le x y \<Longrightarrow> kv_le y z \<Longrightarrow> kv_le x z" for z unfolding kv_le_def by (rule str_le_trans)
  moreover have "kv_le x y \<or> kv_le y x" unfolding kv_le_def by (rule str_le_total)
  ultimately show ?case using Cons by (auto simp: kv_le_def [of x y, symmetric])
qed simp

lemma mset_sort_kv [simp]: "mset (sort_kv xs) = mset xs"
  by (induction xs) (simp_all add: sort_kv_def)

lemma sorted_sort_kv: "sorted_wrt kv_le (sort_kv xs)"
  by (induction xs) (simp_all add: sort_kv_def sorted_insert_kv)

text \<open>Two sorted lists of the same entries with distinct keys are the same list.\<close>

lemma kv_sorted_unique:
  "sorted_wrt kv_le xs \<Longrightarrow> sorted_wrt kv_le ys \<Longrightarrow> mset xs = mset ys \<Longrightarrow> distinct (map fst xs) \<Longrightarrow> xs = ys"
proof (induction xs arbitrary: ys)
  case (Cons x xs)
  then obtain y zs where ys: "ys = y # zs" by (cases ys) auto
  have mem: "set (x # xs) = set ys" using Cons.prems(3) by (metis set_mset_mset)
  have "x = y"
  proof (rule ccontr)
    assume ne: "x \<noteq> y"
    with mem ys have "y \<in> set xs" "x \<in> set zs" by auto
    with Cons.prems(1,2) ys have "kv_le x y" "kv_le y x" by auto
    then have "fst x = fst y" by (auto simp: kv_le_def intro: str_le_antisym)
    with \<open>y \<in> set xs\<close> Cons.prems(4) show False by (force simp: image_iff)
  qed
  with Cons.IH [of zs] Cons.prems ys show ?case by simp
qed simp

lemma attributes_mset: "mset (attributes m) = image_mset (\<lambda>(k, v). (k, any_value v)) (mset m)"
  by (simp add: attributes_def)

lemma attributes_sorted: "sorted_wrt kv_le (attributes m)"
  by (simp add: attributes_def sorted_sort_kv)

lemma unix_nano_exact:
  "unix_epoch < t \<Longrightarrow> t - unix_epoch \<le> max_duration \<Longrightarrow> unix_nano t = t - unix_epoch"
  by (simp add: unix_nano_def is_zero_def unix_epoch_def wrap64_id duration_defs)

section \<open>Properties\<close>


definition local_config :: otlp_config where
  "local_config = \<lparr>oc_endpoint = ''localhost:4317'', oc_protocol = ''grpc'', oc_insecure = True,
     oc_tls = \<lparr>tl_ca_file = [], tl_cert_file = [], tl_key_file = [], tl_server_name = []\<rparr>, oc_headers = [], oc_timeout = 10 * second, oc_compression = ''gzip'',
     oc_retry = \<lparr>rt_attempts = 3, rt_backoff = second\<rparr>\<rparr>"

text \<open>The collector is busy once and then takes the batch but for two items.\<close>

definition busy_once :: "int \<Rightarrow> export_answer" where
  "busy_once n = \<lparr>ea_before = None, ea_outcome = (if n = 0 then Inl (HTTPError 503 [] 0) else Inr (2, ''late'')),
     ea_ctx = None, ea_deadline = Some (30 * second), ea_sleep = None\<rparr>"

lemma busy_once_export: "otlp_export local_config busy_once = (None, [second], 2)"
  by code_simp


text \<open>
  C26: an export comes back permanent, so that the router stops redelivering at pace, exactly when its last
  attempt failed with an error the OTLP specification calls not retryable and the caller was still
  waiting; exhausting the retries, a long pause or a finished context are never permanent, and no export
  reports the event as skipped.
\<close>

theorem export_permanent_exact:
  assumes "otlp_export cfg ans = (Some e, ds, rej)"
    and "\<And>n x. ea_outcome (ans n) = Inl x \<Longrightarrow> \<not> is_permanent x \<and> \<not> is_skipped x"
  shows "(is_permanent e \<longleftrightarrow> (\<exists>j x. (\<forall>k<j. tries_again cfg ans (int k)) \<and> ea_before (ans (int j)) = None \<and>
      ea_outcome (ans (int j)) = Inl x \<and> \<not> v_retryable (otlp_classify x) \<and> ea_ctx (ans (int j)) = None)) \<and>
    \<not> is_skipped e"
proof -
  obtain j where j: "\<forall>k<j. tries_again cfg ans (int k)" "\<not> tries_again cfg ans (int j)"
      "ends_with cfg ans (int j) (Some e) rej"
    using export_loop_outcome [OF assms(1) [unfolded otlp_export_def]] by auto
  have clean: "\<forall>n x. ea_outcome (ans n) = Inl x \<longrightarrow> \<not> is_permanent x \<and> \<not> is_skipped x"
    using assms(2) by blast
  note ends = ends_permanent [OF j(3) clean] ends_not_skipped [OF j(3) clean]
  show ?thesis
  proof (intro conjI iffI ends(2))
    assume "is_permanent e"
    with ends(1) obtain x where x: "ea_before (ans (int j)) = None" "ea_outcome (ans (int j)) = Inl x"
        "\<not> v_retryable (otlp_classify x)" "ea_ctx (ans (int j)) = None"
      by metis
    show "\<exists>j x. (\<forall>k<j. tries_again cfg ans (int k)) \<and> ea_before (ans (int j)) = None \<and>
        ea_outcome (ans (int j)) = Inl x \<and> \<not> v_retryable (otlp_classify x) \<and> ea_ctx (ans (int j)) = None"
      by (intro exI [of _ j] exI [of _ x] conjI j(1) x)
  next
    assume "\<exists>j x. (\<forall>k<j. tries_again cfg ans (int k)) \<and> ea_before (ans (int j)) = None \<and>
        ea_outcome (ans (int j)) = Inl x \<and> \<not> v_retryable (otlp_classify x) \<and> ea_ctx (ans (int j)) = None"
    then obtain j' x where j': "\<forall>k<j'. tries_again cfg ans (int k)" "ea_before (ans (int j')) = None"
        "ea_outcome (ans (int j')) = Inl x" "\<not> v_retryable (otlp_classify x)" "ea_ctx (ans (int j')) = None" by blast
    have "j' = j" by (rule last_attempt_unique [OF j(1,2) j'(1,3,4)])
    with j'(2-5) have "ea_before (ans (int j)) = None" "ea_outcome (ans (int j)) = Inl x"
      "\<not> v_retryable (otlp_classify x)" "ea_ctx (ans (int j)) = None" by simp_all
    then show "is_permanent e" by (simp add: ends(1))
  qed
qed

text \<open>A request the collector calls malformed.\<close>

definition bad_request :: "int \<Rightarrow> export_answer" where
  "bad_request n = \<lparr>ea_before = None, ea_outcome = Inl (HTTPError 400 ''bad'' 0),
     ea_ctx = None, ea_deadline = None, ea_sleep = None\<rparr>"

theorem export_permanent_exact_witness:
  "\<exists>e. otlp_export local_config bad_request = (Some e, [], 0) \<and> is_permanent e \<and> \<not> is_skipped e"
proof -
  define e where "e = PermanentE (Wrap ''otlp export'' [HTTPError 400 ''bad'' 0])"
  have run: "otlp_export local_config bad_request = (Some e, [], 0)" unfolding e_def by code_simp
  have ok: "ea_outcome (bad_request n) = Inl x \<Longrightarrow> \<not> is_permanent x \<and> \<not> is_skipped x" for n x
    by (auto simp: bad_request_def is_skipped_def is_sentinel_def)
  have "\<not> v_retryable (otlp_classify (HTTPError 400 ''bad'' 0))" by code_simp
  then show ?thesis
    using export_permanent_exact [OF run ok] run by (force simp: bad_request_def intro: exI [of _ 0])
qed

text \<open>
  What an HTTP response means. Every 2xx is a success, whatever became of its body, so an accepted
  batch is never sent twice for a lost answer; everything else is an error that keeps the status, whose
  message from the body has at most 512 bytes and an ellipsis, and which is retryable exactly for 429, 502,
  503 and 504, with a delay that is never negative.
\<close>

theorem http_response_meaning:
  "(200 \<le> ha_status a \<and> ha_status a \<le> 299 \<longrightarrow> (\<exists>p. http_post pd sm dec now (Inr a) = Inr p)) \<and>
   (\<not> (200 \<le> ha_status a \<and> ha_status a \<le> 299) \<longrightarrow>
      (\<exists>m d. http_post pd sm dec now (Inr a) = Inl (HTTPError (ha_status a) m d) \<and> 0 \<le> d \<and>
        (ha_read_error a = None \<longrightarrow> length m \<le> 515) \<and>
        (\<forall>ctx. v_retryable (otlp_classify (Wrap ctx [HTTPError (ha_status a) m d])) \<longleftrightarrow>
          ha_status a \<in> {429, 502, 503, 504})))"
proof -
  have len: "length (error_message pb sm data) \<le> 515" for pb data
    by (auto simp: error_message_def truncate_msg_def max_error_message_def split: option.splits)
  show ?thesis
    using len [of "ha_protobuf a" "ha_data a"]
    by (auto simp: http_post_def otlp_classify_def http_of_def Let_def parse_retry_after_nonneg split: option.splits)
qed

theorem http_response_meaning_witness:
  "\<exists>p. http_post (\<lambda>_. None) (\<lambda>_. None) (\<lambda>_. (0, [])) 0
      (Inr \<lparr>ha_status = 204, ha_data = [], ha_read_error = None, ha_protobuf = False, ha_retry_after = []\<rparr>) = Inr p"
  using http_response_meaning [of "\<lparr>ha_status = 204, ha_data = [], ha_read_error = None, ha_protobuf = False,
    ha_retry_after = []\<rparr>" "\<lambda>_. None" "\<lambda>_. None" "\<lambda>_. (0, [])" 0] by simp

text \<open>
  The back-off between exports doubles from its base up to one minute, for every base up to a minute
  and any number of retries, without overflow; with any base whatsoever it is at most a minute from the
  second retry on.
\<close>

theorem backoff_doubles:
  assumes "1 \<le> n"
  shows "(0 < base \<and> base \<le> minute \<longrightarrow> backoff_delay base n = min minute (base * 2 ^ nat (n - 1))) \<and>
    (2 \<le> n \<longrightarrow> backoff_delay base n \<le> minute)"
  using assms backoff_loop_le [of "nat (n - 1)" base] backoff_delay_eq [of base n]
  by (auto simp: backoff_delay_def duration_defs)

theorem backoff_doubles_witness: "backoff_delay second 5 = 16 * second"
  using backoff_doubles [of 5 second] by (simp add: duration_defs min_def)

text \<open>
  A server that asks for a very long pause gets a short one: the seconds of \<open>Retry-After\<close> are multiplied
  as an \<open>int64\<close> of nanoseconds, so 18446744074 seconds become 0.29 seconds and the export is retried at
  once instead of being left to the bus, although a pause of 585 years exceeds every timeout.
\<close>

theorem retry_after_wraps:
  "parse_retry_after pd ''18446744074'' now = 290448384 \<and>
   (let e = HTTPError 503 [] (parse_retry_after pd ''18446744074'' now) in
     v_retryable (otlp_classify e) \<and> pause_after local_config 0 e < oc_timeout local_config)"
proof -
  have "parse_int64 ''18446744074'' = Some 18446744074" by code_simp
  moreover have "wrap64 (18446744074 * second) = 290448384" by code_simp
  ultimately have d: "parse_retry_after pd ''18446744074'' now = 290448384" by (simp add: parse_retry_after_def)
  have "v_retryable (otlp_classify (HTTPError 503 [] 290448384)) \<and>
      pause_after local_config 0 (HTTPError 503 [] 290448384) < oc_timeout local_config"
    by code_simp
  with d show ?thesis by (simp add: Let_def)
qed

text \<open>
  The attributes of a span or record do not depend on the order in which Go iterates the map: with the
  same entries they are the same list, sorted by key, with nothing lost or added, in the map itself and in
  a map that is a value of it. So a redelivered event produces the same bytes.
\<close>

theorem attributes_canonical:
  assumes "distinct (map fst m)" and "mset m = mset m'"
  shows "attributes m = attributes m' \<and> any_value (GMap m) = any_value (GMap m') \<and>
    sorted_wrt (\<lambda>x y. str_le (fst x) (fst y)) (attributes m) \<and>
    mset (attributes m) = image_mset (\<lambda>(k, v). (k, any_value v)) (mset m)"
proof -
  have "map fst (map (\<lambda>(k, v). (k, any_value v)) m) = map fst m" by (simp add: comp_def case_prod_unfold)
  with assms(1) have "distinct (map fst (map (\<lambda>(k, v). (k, any_value v)) m))" by (simp only:)
  moreover have "mset (map fst (attributes m)) = mset (map fst (map (\<lambda>(k, v). (k, any_value v)) m))"
    by (simp only: mset_map attributes_mset)
  ultimately have "distinct (map fst (attributes m))" by (metis mset_eq_imp_distinct_iff)
  then have eq: "attributes m = attributes m'"
    by (intro kv_sorted_unique attributes_sorted) (simp_all add: attributes_mset assms(2))
  moreover have "sorted_wrt (\<lambda>x y. str_le (fst x) (fst y)) (attributes m)"
    using attributes_sorted [of m] by (simp add: kv_le_def [abs_def])
  moreover have "any_value (GMap m) = any_value (GMap m')" using eq by (simp add: attributes_def)
  ultimately show ?thesis using attributes_mset [of m] by (intro conjI)
qed

theorem attributes_canonical_witness:
  "attributes [(''b'', GInt 1), (''a'', GBool True)] = attributes [(''a'', GBool True), (''b'', GInt 1)]"
  using attributes_canonical [of "[(''b'', GInt 1), (''a'', GBool True)]" "[(''a'', GBool True), (''b'', GInt 1)]"]
  by (simp add: add_mset_commute)

end
