(* ===== verification/Forward.thy ===== *)
theory Forward
  imports SinkCore GoSha GoChannel NatsJs
begin

text \<open>
  Package \<open>forward\<close> (\<open>internal/sink/forward/sink.go\<close>) and its bus driver
  (\<open>internal/sink/forward/drivers/bus/driver.go\<close>): the copy of an event that is published on another bus,
  the hop limit, the lazily opened target, and the rules of the configuration block. The sink is a client
  of the \<open>publisher\<close> contract and is shown to be a \<open>destination\<close>.
\<close>

section \<open>The sink\<close>

definition default_max_hops :: int where "default_max_hops = 3"

record fwd_sink =
  fs_name :: string
  fs_topic :: string
  fs_max_hops :: int

text \<open>The panics of \<open>New\<close> are \<open>None\<close>.\<close>

definition fwd_new :: "string \<Rightarrow> bool \<Rightarrow> string \<Rightarrow> int \<Rightarrow> fwd_sink option" where
  "fwd_new name has_publisher topic max_hops =
     (if \<not> has_publisher then None
      else if topic = [] then None
      else if max_hops < 0 then None
      else Some \<lparr>fs_name = name, fs_topic = topic,
        fs_max_hops = (if max_hops = 0 then default_max_hops else max_hops)\<rparr>)"

definition fwd_preimage :: "string \<Rightarrow> string \<Rightarrow> string \<Rightarrow> string" where
  "fwd_preimage guid name topic = ''antwatcher:forward:'' @ guid @ '':'' @ name @ '':'' @ topic"

definition forward_uuid :: "string \<Rightarrow> string \<Rightarrow> string \<Rightarrow> string" where
  "forward_uuid guid name topic = hex_encode (sha256 (fwd_preimage guid name topic))"

definition fwd_envelope :: "fwd_sink \<Rightarrow> envelope \<Rightarrow> envelope" where
  "fwd_envelope s env = env\<lparr>forwarded_by := fs_name s, forward_hops := wrap64 (forward_hops env + 1)\<rparr>"

definition fwd_message :: "fwd_sink \<Rightarrow> envelope \<Rightarrow> message" where
  "fwd_message s env = (to_message (fwd_envelope s env))
     \<lparr>uuid := forward_uuid (delivery_guid env) (fs_name s) (fs_topic s)\<rparr>"

definition fwd_process ::
  "('env \<Rightarrow> message \<Rightarrow> 'p \<Rightarrow> goerr option \<times> 'p) \<Rightarrow> fwd_sink \<Rightarrow> 'env \<Rightarrow> envelope \<Rightarrow> 'p \<Rightarrow> goerr option \<times> 'p" where
  "fwd_process publish s ans env p =
     (if fs_max_hops s \<le> forward_hops env
      then (permanent (Some (Msg ''forward: loop detected'')), p)
      else case publish ans (fwd_message s env) p of
          (Some e, p) \<Rightarrow> (Some (Wrap ''forward'' [e]), p)
        | (None, p) \<Rightarrow> (None, p))"

section \<open>The lazily opened target\<close>

text \<open>
  \<open>fp_bus\<close> is the value of the single flight, \<open>fp_stray\<close> counts the buses that were opened while \<open>Close\<close> ran and
  closed by the opener itself.
\<close>

record 'b fwd_pub =
  fp_closed :: bool
  fp_bus :: "'b option"
  fp_stray :: nat

text \<open>
  The answers around one \<open>open\<close>: the error of a context that ends while another caller is opening, the
  registry's answer, and whether \<open>Close\<close> was called in between.
\<close>

record 'b open_answer =
  oa_wait :: "goerr option"
  oa_open :: "goerr + 'b"
  oa_closed :: bool

definition fwd_open :: "'b open_answer \<Rightarrow> 'b fwd_pub \<Rightarrow> (goerr + 'b) \<times> 'b fwd_pub" where
  "fwd_open ans p =
     (if fp_closed p then (Inl err_closed, p)
      else case fp_bus p of
          Some b \<Rightarrow> (Inr b, p)
        | None \<Rightarrow>
            (case oa_wait ans of
               Some e \<Rightarrow> (Inl e, p)
             | None \<Rightarrow>
                 (case oa_open ans of
                    Inl e \<Rightarrow> (Inl (Wrap ''open target bus'' [e]), p)
                  | Inr b \<Rightarrow>
                      if oa_closed ans
                      then (Inl err_closed, p\<lparr>fp_closed := True, fp_stray := fp_stray p + 1\<rparr>)
                      else (Inr b, p\<lparr>fp_bus := Some b\<rparr>))))"

definition fwd_publish ::
  "('env \<Rightarrow> message \<Rightarrow> 'b \<Rightarrow> goerr option \<times> 'b) \<Rightarrow> 'b open_answer \<times> 'env \<Rightarrow> message \<Rightarrow> 'b fwd_pub
    \<Rightarrow> goerr option \<times> 'b fwd_pub" where
  "fwd_publish publish ans m p =
     (case fwd_open (fst ans) p of
        (Inl e, p) \<Rightarrow> (Some e, p)
      | (Inr b, p) \<Rightarrow>
          (case publish (snd ans) m b of
             (Some e, b) \<Rightarrow> (Some (Wrap ''publish'' [e]), p\<lparr>fp_bus := Some b\<rparr>)
           | (None, b) \<Rightarrow> (None, p\<lparr>fp_bus := Some b\<rparr>)))"

definition fwd_opened :: "'b fwd_pub \<Rightarrow> bool" where
  "fwd_opened p \<longleftrightarrow> \<not> fp_closed p \<and> fp_bus p \<noteq> None"

text \<open>The result of \<open>Close\<close>, the bus it closed, and the new state; \<open>close_err\<close> is the bus's own answer.\<close>

definition fwd_close :: "goerr option \<Rightarrow> 'b fwd_pub \<Rightarrow> (goerr option \<times> 'b option) \<times> 'b fwd_pub" where
  "fwd_close close_err p =
     (if fp_closed p then ((None, None), p)
      else let p = p\<lparr>fp_closed := True\<rparr>
        in case fp_bus p of
            None \<Rightarrow> ((None, None), p)
          | Some b \<Rightarrow> ((map_option (\<lambda>e. Wrap ''close target bus'' [e]) close_err, Some b), p))"

section \<open>The configuration block\<close>

text \<open>The fields of a \<open>yaml.Node\<close> the driver reads.\<close>

datatype ykind = KNone | KDocument | KSequence | KMapping | KScalar | KAlias

datatype ynode = YNode (y_kind: ykind) (y_tag: string) (y_value: string) (y_content: "ynode list")

definition zero_node :: ynode where "zero_node = YNode KNone [] [] []"

definition key_driver :: string where "key_driver = ''driver''"
definition key_topic :: string where "key_topic = ''topic''"
definition key_max_hops :: string where "key_max_hops = ''max_hops''"

record raw_fwd =
  rf_driver :: string
  rf_topic :: string
  rf_max_hops :: int
  rf_drivers :: "(string, ynode) amap"

definition raw_default :: raw_fwd where
  "raw_default = \<lparr>rf_driver = [], rf_topic = [], rf_max_hops = default_max_hops, rf_drivers = []\<rparr>"

definition null_scalar :: "ynode \<Rightarrow> bool" where
  "null_scalar n \<longleftrightarrow> y_kind n = KScalar \<and> y_tag n = ''!!null''"

text \<open>\<open>dec_s\<close> and \<open>dec_i\<close> are \<open>Node.Decode\<close> into a string and an int. A key without a value is not read.\<close>

fun fwd_pairs ::
  "(ynode \<Rightarrow> goerr + string) \<Rightarrow> (ynode \<Rightarrow> goerr + int) \<Rightarrow> string list \<Rightarrow> ynode list \<Rightarrow> raw_fwd \<Rightarrow> goerr + raw_fwd" where
  "fwd_pairs dec_s dec_i seen (key # val # rest) c =
     (let k = y_value key; next = (\<lambda>c. fwd_pairs dec_s dec_i (k # seen) rest c)
      in if k \<in> set seen then Inl (Msg ''duplicate key'')
         else if k = key_driver then
           (case dec_s val of Inl e \<Rightarrow> Inl (Wrap k [e]) | Inr s \<Rightarrow> next (c\<lparr>rf_driver := s\<rparr>))
         else if k = key_topic then
           (case dec_s val of Inl e \<Rightarrow> Inl (Wrap k [e]) | Inr s \<Rightarrow> next (c\<lparr>rf_topic := s\<rparr>))
         else if k = key_max_hops then
           (case dec_i val of Inl e \<Rightarrow> Inl (Wrap k [e]) | Inr i \<Rightarrow> next (c\<lparr>rf_max_hops := i\<rparr>))
         else if y_kind val \<noteq> KMapping \<and> \<not> null_scalar val
           then Inl (Msg ''unknown field (driver blocks must be mappings)'')
         else next (c\<lparr>rf_drivers := AList.update k val (rf_drivers c)\<rparr>))"
| "fwd_pairs dec_s dec_i seen [key] c = Inr c"
| "fwd_pairs dec_s dec_i seen [] c = Inr c"

fun fwd_parse :: "(ynode \<Rightarrow> goerr + string) \<Rightarrow> (ynode \<Rightarrow> goerr + int) \<Rightarrow> ynode \<Rightarrow> goerr + raw_fwd" where
  "fwd_parse dec_s dec_i (YNode KDocument t v [n]) = fwd_parse dec_s dec_i n"
| "fwd_parse dec_s dec_i (YNode k t v ns) =
     (if k = KNone \<or> null_scalar (YNode k t v ns) then Inr raw_default
      else if k \<noteq> KMapping then Inl (Msg ''config must be a mapping'')
      else fwd_pairs dec_s dec_i [] ns raw_default)"

record 'x fwd_config =
  fc_driver :: string
  fc_topic :: string
  fc_max_hops :: int
  fc_drivers :: "(string, 'x) amap"

text \<open>\<open>describer\<close> is the describer a bus driver registered, if it did.\<close>

definition describe_names :: "raw_fwd \<Rightarrow> string list" where
  "describe_names rc = sort_strings (map fst (rf_drivers rc) @
     (if rf_driver rc \<noteq> [] \<and> map_of (rf_drivers rc) (rf_driver rc) = None then [rf_driver rc] else []))"

definition driver_block :: "raw_fwd \<Rightarrow> string \<Rightarrow> ynode" where
  "driver_block rc name = (case map_of (rf_drivers rc) name of None \<Rightarrow> zero_node | Some n \<Rightarrow> n)"

fun describe_blocks ::
  "(string \<Rightarrow> (ynode \<Rightarrow> goerr + 'x) option) \<Rightarrow> raw_fwd \<Rightarrow> string list \<Rightarrow> goerr list \<times> (string, 'x) amap" where
  "describe_blocks describer rc [] = ([], [])"
| "describe_blocks describer rc (name # names) =
     (let (errs, m) = describe_blocks describer rc names
      in case describer name of
           None \<Rightarrow> (Msg ''unknown bus driver'' # errs, m)
         | Some d \<Rightarrow>
             (case d (driver_block rc name) of
                Inl e \<Rightarrow> (Wrap name [e] # errs, m)
              | Inr typed \<Rightarrow> (errs, AList.update name typed m)))"

definition fwd_describe ::
  "(string \<Rightarrow> (ynode \<Rightarrow> goerr + 'x) option) \<Rightarrow> raw_fwd \<Rightarrow> goerr + 'x fwd_config" where
  "fwd_describe describer rc =
     (let (errs, m) = describe_blocks describer rc (describe_names rc)
      in case join_errs errs of
           Some e \<Rightarrow> Inl e
         | None \<Rightarrow> Inr \<lparr>fc_driver = rf_driver rc, fc_topic = rf_topic rc, fc_max_hops = rf_max_hops rc, fc_drivers = m\<rparr>)"

definition fwd_validate :: "'x fwd_config \<Rightarrow> goerr option" where
  "fwd_validate c = join_errs
     ((if fc_driver c = [] then [Msg ''driver is required''] else []) @
      (if fc_topic c = [] then [Msg ''topic is required''] else []) @
      (if fc_max_hops c < 1 then [Msg ''max_hops must be >= 1''] else []))"

text \<open>\<open>validator\<close> is \<open>ValidateWith\<close> of a described block, \<open>None\<close> when it has no such method.\<close>

definition fwd_validate_with :: "('x \<Rightarrow> goerr option option) \<Rightarrow> 'x fwd_config \<Rightarrow> goerr option" where
  "fwd_validate_with validator c =
     (case Option.bind (map_of (fc_drivers c) (fc_driver c)) validator of
        Some (Some derr) \<Rightarrow> errors_join [fwd_validate c, Some (Wrap (fc_driver c) [derr])]
      | _ \<Rightarrow> fwd_validate c)"

definition fwd_validate_ingress :: "'x fwd_config \<Rightarrow> string \<Rightarrow> string \<Rightarrow> goerr option" where
  "fwd_validate_ingress c in_driver in_topic =
     (if fc_driver c \<noteq> [] \<and> fc_driver c = in_driver \<and> fc_topic c \<noteq> [] \<and> fc_topic c = in_topic
      then Some (Msg ''target is the ingress bus'') else None)"

definition fwd_describe_with ::
  "(ynode \<Rightarrow> goerr + string) \<Rightarrow> (ynode \<Rightarrow> goerr + int) \<Rightarrow> (string \<Rightarrow> (ynode \<Rightarrow> goerr + 'x) option) \<Rightarrow> ynode
    \<Rightarrow> goerr + 'x fwd_config" where
  "fwd_describe_with dec_s dec_i describer raw =
     (case fwd_parse dec_s dec_i raw of
        Inl e \<Rightarrow> Inl (Wrap ''decode'' [e])
      | Inr rc \<Rightarrow> fwd_describe describer rc)"

definition new_publisher :: "'b fwd_pub" where
  "new_publisher = \<lparr>fp_closed = False, fp_bus = None, fp_stray = 0\<rparr>"

text \<open>A panic of \<open>New\<close> inside the factory is an inner \<open>None\<close>.\<close>

definition fwd_factory ::
  "(ynode \<Rightarrow> goerr + string) \<Rightarrow> (ynode \<Rightarrow> goerr + int) \<Rightarrow> (string \<Rightarrow> (ynode \<Rightarrow> goerr + 'x) option) \<Rightarrow>
    string \<Rightarrow> string \<Rightarrow> string \<Rightarrow> ynode \<Rightarrow> goerr + (fwd_sink option \<times> 'x fwd_config \<times> 'b fwd_pub)" where
  "fwd_factory dec_s dec_i describer in_driver in_topic name raw =
     (case fwd_describe_with dec_s dec_i describer raw of
        Inl e \<Rightarrow> Inl e
      | Inr cfg \<Rightarrow>
          (case errors_join [fwd_validate cfg, fwd_validate_ingress cfg in_driver in_topic] of
             Some e \<Rightarrow> Inl e
           | None \<Rightarrow> Inr (fwd_new name True (fc_topic cfg) (fc_max_hops cfg), cfg, new_publisher)))"

end
