(* ===== verification/ForwardFacts.thy ===== *)
theory ForwardFacts
  imports Forward
begin

text \<open>
  What forwarding promises: an acked event has a copy on the target from which a consumer reads the event
  with one more hop, chains of forwards end, and copies of different deliveries have different identifiers.
\<close>

section \<open>The copy\<close>

lemma fwd_envelope_simps [simp]:
  "delivery_guid (fwd_envelope s ev) = delivery_guid ev" "payload (fwd_envelope s ev) = payload ev"
  "forwarded_by (fwd_envelope s ev) = fs_name s"
  by (simp_all add: fwd_envelope_def)

lemma fwd_hops:
  "0 \<le> forward_hops ev \<Longrightarrow> forward_hops ev < fs_max_hops s \<Longrightarrow> fs_max_hops s < 2 ^ 63 \<Longrightarrow>
     forward_hops (fwd_envelope s ev) = forward_hops ev + 1"
  by (simp add: fwd_envelope_def wrap64_id)

lemma wf_fwd_envelope:
  assumes "wf_envelope ev" and "forward_hops ev < fs_max_hops s" and "fs_max_hops s < 2 ^ 63"
  shows "wf_envelope (fwd_envelope s ev)"
  using assms fwd_hops [of ev s]
  by (auto simp: wf_envelope_def fwd_envelope_def in_int64_def int64_min_def int64_max_def)

lemma from_message_uuid:
  assumes "wf_envelope ev"
  shows "from_message (Some ((to_message ev)\<lparr>uuid := u\<rparr>)) = Inr ev"
proof -
  obtain md where md: "metadata (to_message ev) = Some md" "map_of md meta_delivery_guid = Some (delivery_guid ev)"
    by (rule to_message_metadata)
  have r: "metadata ((to_message ev)\<lparr>uuid := u\<rparr>) = Some md" "msg_payload ((to_message ev)\<lparr>uuid := u\<rparr>) = payload ev"
    by (simp_all add: md)
  have "from_message (Some ((to_message ev)\<lparr>uuid := u\<rparr>)) = from_message (Some (to_message ev))"
    by (simp only: from_message_def md option.case r Let_def to_message_simps)
  then show ?thesis by (simp add: from_to_message [OF assms])
qed

lemma fwd_message_uuid [simp]:
  "uuid (fwd_message s ev) = forward_uuid (delivery_guid ev) (fs_name s) (fs_topic s)"
  by (simp add: fwd_message_def)

lemma fwd_message_reads:
  "wf_envelope ev \<Longrightarrow> forward_hops ev < fs_max_hops s \<Longrightarrow> fs_max_hops s < 2 ^ 63 \<Longrightarrow>
     from_message (Some (fwd_message s ev)) = Inr (fwd_envelope s ev)"
  unfolding fwd_message_def by (rule from_message_uuid) (rule wf_fwd_envelope)

lemma fwd_new_ok:
  "fwd_new name b topic hops = Some s \<Longrightarrow> topic \<noteq> [] \<and> 1 \<le> fs_max_hops s \<and> fs_name s = name \<and> fs_topic s = topic"
  by (auto simp: fwd_new_def default_max_hops_def split: if_splits)

section \<open>The target\<close>

definition fwd_kept :: "('b \<Rightarrow> message list) \<Rightarrow> 'b fwd_pub \<Rightarrow> message list" where
  "fwd_kept kept p = (case fp_bus p of None \<Rightarrow> [] | Some b \<Rightarrow> kept b)"

definition fwd_delivered :: "('b \<Rightarrow> message list) \<Rightarrow> fwd_sink \<Rightarrow> 'b fwd_pub \<Rightarrow> envelope \<Rightarrow> bool" where
  "fwd_delivered kept s p ev \<longleftrightarrow> forward_hops ev < fs_max_hops s \<and>
     (\<exists>m \<in> set (fwd_kept kept p). same_content (fwd_message s ev) m)"

lemma fwd_open_cases:
  assumes "fwd_open ans p = (r, p')"
  obtains e where "r = Inl e" "fp_bus p' = fp_bus p"
  | b where "r = Inr b" "fp_bus p' = Some b" "fp_bus p = Some b \<or> fp_bus p = None" "\<not> fp_closed p"
proof (cases "fp_closed p \<or> fp_bus p \<noteq> None \<or> oa_wait ans \<noteq> None")
  case True
  then show thesis using assms that by (auto simp: fwd_open_def split: if_splits option.splits)
next
  case False
  show thesis
  proof (cases "\<exists>b. oa_open ans = Inr b \<and> \<not> oa_closed ans")
    case True
    then obtain b where "oa_open ans = Inr b" "\<not> oa_closed ans" by blast
    with False assms have "r = Inr b" "fp_bus p' = Some b" "fp_bus p = None" "\<not> fp_closed p"
      by (auto simp: fwd_open_def)
    then show thesis using that(2) by blast
  next
    assume "\<not> (\<exists>b. oa_open ans = Inr b \<and> \<not> oa_closed ans)"
    with False assms have "(\<exists>e. r = Inl e) \<and> fp_bus p' = fp_bus p"
      by (auto simp: fwd_open_def split: sum.splits)
    then show thesis using that(1) by blast
  qed
qed

lemma fwd_open_error:
  "fwd_open ans p = (Inl e, p') \<Longrightarrow> e = err_closed \<or> oa_wait ans = Some e \<or>
     (\<exists>x. oa_open ans = Inl x \<and> e = Wrap ''open target bus'' [x])"
  by (auto simp: fwd_open_def split: if_splits option.splits sum.splits)

text \<open>Every bus that was opened is closed once: by \<open>Close\<close>, or by the opener when \<open>Close\<close> was faster.\<close>

lemma fwd_close_once:
  "fwd_close e p = ((r, shut), p') \<Longrightarrow> \<not> fp_closed p \<Longrightarrow>
     shut = fp_bus p \<and> fp_closed p' \<and> \<not> fwd_opened p' \<and> fst (fwd_close e' p') = (None, None)"
  by (auto simp: fwd_close_def fwd_opened_def Let_def split: option.splits)

lemma fwd_closed_stays:
  "fp_closed p \<Longrightarrow> fwd_open ans p = (Inl err_closed, p)"
  by (simp add: fwd_open_def)

context publisher
begin

lemma fwd_publish_ok:
  assumes "fwd_publish publish ans m p = (None, p')"
  shows "\<exists>m' \<in> set (fwd_kept kept p'). same_content m m'"
proof -
  obtain r p1 where o: "fwd_open (fst ans) p = (r, p1)" by fastforce
  then obtain b where b: "r = Inr b" using assms by (cases r) (auto simp: fwd_publish_def)
  obtain e b1 where q: "publish (snd ans) m b = (e, b1)" by fastforce
  from assms o b q have "e = None" "fp_bus p' = Some b1"
    by (auto simp: fwd_publish_def split: option.splits)
  with publish_kept q show ?thesis by (auto simp: fwd_kept_def)
qed

lemma fwd_publish_mono:
  assumes "fwd_publish publish ans m p = (e, p')"
  shows "set (fwd_kept kept p) \<subseteq> set (fwd_kept kept p')"
proof -
  obtain r p1 where o: "fwd_open (fst ans) p = (r, p1)" by fastforce
  from o show ?thesis
  proof (cases rule: fwd_open_cases)
    case (1 e)
    with assms o show ?thesis by (auto simp: fwd_publish_def fwd_kept_def)
  next
    case (2 b)
    obtain e1 b1 where q: "publish (snd ans) m b = (e1, b1)" by fastforce
    from assms o 2 q have "fp_bus p' = Some b1" by (auto simp: fwd_publish_def split: option.splits)
    with publish_mono [OF q] 2 show ?thesis by (auto simp: fwd_kept_def)
  qed
qed

lemma fwd_process_ok:
  assumes "fwd_process (fwd_publish publish) s ans ev p = (None, p')"
  shows "fwd_delivered kept s p' ev"
proof -
  have h: "forward_hops ev < fs_max_hops s"
    using assms by (auto simp: fwd_process_def permanent_def split: if_splits)
  then have "fwd_publish publish ans (fwd_message s ev) p = (None, p')"
    using assms by (auto simp: fwd_process_def split: prod.splits option.splits)
  from fwd_publish_ok [OF this] h show ?thesis by (auto simp: fwd_delivered_def)
qed

lemma fwd_process_mono:
  assumes "fwd_process (fwd_publish publish) s ans ev p = (r, p')"
  shows "set (fwd_kept kept p) \<subseteq> set (fwd_kept kept p')"
proof (cases "fs_max_hops s \<le> forward_hops ev")
  case False
  obtain e p1 where q: "fwd_publish publish ans (fwd_message s ev) p = (e, p1)" by fastforce
  with assms False have "p' = p1" by (auto simp: fwd_process_def split: option.splits)
  with fwd_publish_mono [OF q] show ?thesis by simp
qed (use assms in \<open>auto simp: fwd_process_def\<close>)

lemma fwd_process_keeps:
  "fwd_process (fwd_publish publish) s ans ev p = (r, p') \<Longrightarrow> fwd_delivered kept s p ev' \<Longrightarrow>
     fwd_delivered kept s p' ev'"
  using fwd_process_mono [of s ans ev p r p'] by (auto simp: fwd_delivered_def)

end

text \<open>
  Forwarding to NATS JetStream. The answers are honest when none of their errors is the program's own
  \<open>ErrSkipped\<close>.
\<close>

abbreviation nats_pub :: "goerr option \<times> (goerr + bool) \<times> goerr option \<Rightarrow> message \<Rightarrow> nats_bus \<Rightarrow> goerr option \<times> nats_bus" where
  "nats_pub \<equiv> (\<lambda>(before, ack, after) m b. nats_publish before ack after (Some m) b)"

abbreviation nats_kept :: "nats_bus \<Rightarrow> message list" where
  "nats_kept \<equiv> (\<lambda>b. map nats_to_message (nb_acked b))"

definition open_honest :: "'b open_answer \<Rightarrow> bool" where
  "open_honest a \<longleftrightarrow> (\<forall>e. oa_wait a = Some e \<or> oa_open a = Inl e \<longrightarrow> \<not> is_skipped e)"

definition nats_honest :: "goerr option \<times> (goerr + bool) \<times> goerr option \<Rightarrow> bool" where
  "nats_honest a = (case a of (before, ack, after) \<Rightarrow>
     \<forall>e. before = Some e \<or> ack = Inl e \<or> after = Some e \<longrightarrow> \<not> is_skipped e)"

lemma is_skipped_simps [simp]:
  "is_skipped (Wrap s es) \<longleftrightarrow> list_ex is_skipped es" "\<not> is_skipped (Msg s)" "\<not> is_skipped (CtxErr c)"
  "is_skipped (PermanentE e) \<longleftrightarrow> is_skipped e" "\<not> is_skipped err_closed"
  by (simp_all add: is_skipped_def is_sentinel_def err_closed_def)

lemma nats_publish_not_skipped:
  "nats_honest a \<Longrightarrow> nats_pub a m b = (Some e, b') \<Longrightarrow> \<not> is_skipped e"
  by (auto simp: nats_honest_def nats_publish_def split: prod.splits option.splits sum.splits if_splits)

lemma fwd_publish_not_skipped:
  assumes "fwd_publish nats_pub a m p = (Some e, p')" and "open_honest (fst a)" and "nats_honest (snd a)"
  shows "\<not> is_skipped e"
proof -
  obtain r p1 where o: "fwd_open (fst a) p = (r, p1)" by fastforce
  show ?thesis
  proof (cases r)
    case (Inl x)
    with assms(1) o have "x = e" by (auto simp: fwd_publish_def)
    with fwd_open_error [of "fst a" p x p1] o Inl assms(2) show ?thesis by (auto simp: open_honest_def)
  next
    case (Inr b)
    obtain x b1 where q: "nats_pub (snd a) m b = (x, b1)" by fastforce
    with assms(1) o Inr obtain y where "x = Some y" "e = Wrap ''publish'' [y]"
      by (auto simp: fwd_publish_def split: option.splits)
    with nats_publish_not_skipped [OF assms(3)] q show ?thesis by auto
  qed
qed

lemma fwd_process_not_skipped:
  assumes "fwd_process (fwd_publish nats_pub) s a ev p = (Some e, p')"
    and "open_honest (fst a)" and "nats_honest (snd a)"
  shows "\<not> is_skipped e"
proof (cases "fs_max_hops s \<le> forward_hops ev")
  case False
  obtain x p1 where q: "fwd_publish nats_pub a (fwd_message s ev) p = (x, p1)" by fastforce
  with assms(1) False obtain y where "x = Some y" "e = Wrap ''forward'' [y]"
    by (auto simp: fwd_process_def split: option.splits)
  with fwd_publish_not_skipped [OF _ assms(2,3)] q show ?thesis by auto
qed (use assms(1) in \<open>auto simp: fwd_process_def permanent_def\<close>)

interpretation fwd: destination "fwd_process (fwd_publish nats_pub) s" "fwd_delivered nats_kept s"
  "\<lambda>ev. True" "\<lambda>p. True" "\<lambda>a. open_honest (fst a) \<and> nats_honest (snd a)" for s
proof unfold_locales
  fix a ev p p'
  show "fwd_process (fwd_publish nats_pub) s a ev p = (None, p') \<Longrightarrow> fwd_delivered nats_kept s p' ev"
    using nats.fwd_process_ok by blast
next
  fix a ev p e p'
  show "open_honest (fst a) \<and> nats_honest (snd a) \<Longrightarrow>
      fwd_process (fwd_publish nats_pub) s a ev p = (Some e, p') \<Longrightarrow> is_skipped e \<Longrightarrow> \<not> True"
    using fwd_process_not_skipped by blast
next
  fix a ev p r p' ev'
  show "fwd_process (fwd_publish nats_pub) s a ev p = (r, p') \<Longrightarrow> fwd_delivered nats_kept s p ev' \<Longrightarrow>
      fwd_delivered nats_kept s p' ev'"
    by (rule nats.fwd_process_keeps)
qed simp

section \<open>Chains and configuration\<close>

text \<open>
  A chain of forwards: each sink reads the copy of the one before. The result is the number of copies made
  before a sink refuses.
\<close>

fun fwd_chain :: "fwd_sink list \<Rightarrow> envelope \<Rightarrow> nat" where
  "fwd_chain [] ev = 0"
| "fwd_chain (s # ss) ev =
     (if fs_max_hops s \<le> forward_hops ev then 0 else Suc (fwd_chain ss (fwd_envelope s ev)))"

lemma fwd_chain_bound:
  "(\<And>s. s \<in> set ss \<Longrightarrow> fs_max_hops s \<le> m) \<Longrightarrow> m < 2 ^ 63 \<Longrightarrow> 0 \<le> forward_hops ev \<Longrightarrow>
     int (fwd_chain ss ev) \<le> max 0 (m - forward_hops ev)"
proof (induction ss arbitrary: ev)
  case (Cons s ss)
  show ?case
  proof (cases "fs_max_hops s \<le> forward_hops ev")
    case False
    moreover have "fs_max_hops s \<le> m" by (rule Cons.prems(1)) simp
    ultimately have h: "forward_hops (fwd_envelope s ev) = forward_hops ev + 1" "forward_hops ev < m"
      using fwd_hops [of ev s] Cons.prems(2,3) by simp_all
    have "int (fwd_chain ss (fwd_envelope s ev)) \<le> max 0 (m - forward_hops (fwd_envelope s ev))"
      using Cons.prems h by (intro Cons.IH) simp_all
    with False h show ?thesis by simp
  qed simp
qed simp

lemma fwd_validate_ok:
  "fwd_validate c = None \<Longrightarrow> fc_driver c \<noteq> [] \<and> fc_topic c \<noteq> [] \<and> 1 \<le> fc_max_hops c"
  by (auto simp: fwd_validate_def join_errs_def split: if_splits)

text \<open>Every block that was described belongs to a registered bus driver.\<close>

lemma describe_blocks_ok:
  "describe_blocks describer rc names = ([], m) \<Longrightarrow> name \<in> set names \<Longrightarrow>
     describer name \<noteq> None \<and> map_of m name \<noteq> None"
proof (induction names arbitrary: m)
  case (Cons n names)
  obtain errs m1 where r: "describe_blocks describer rc names = (errs, m1)" by fastforce
  with Cons.prems(1) obtain d x where d: "describer n = Some d" "errs = []" "m = AList.update n x m1"
    by (auto split: option.splits sum.splits)
  show ?case
  proof (cases "name = n")
    case False
    with Cons.prems(2) Cons.IH r d show ?thesis by simp
  qed (use d in simp)
qed simp

lemma fwd_describe_selected:
  assumes "fwd_describe describer rc = Inr c" and "rf_driver rc \<noteq> []"
  shows "describer (rf_driver rc) \<noteq> None \<and> map_of (fc_drivers c) (rf_driver rc) \<noteq> None"
proof -
  obtain errs m where d: "describe_blocks describer rc (describe_names rc) = (errs, m)" by fastforce
  with assms(1) have e: "errs = []" "fc_drivers c = m"
    by (auto simp: fwd_describe_def join_errs_def split: if_splits)
  have "rf_driver rc \<in> set (describe_names rc)"
    using assms(2) sort_strings_sorted
    by (force simp: describe_names_def map_of_eq_None_iff)
  with describe_blocks_ok d e show ?thesis by metis
qed

text \<open>A string splits at its last colon in one way.\<close>

lemma last_colon_unique:
  fixes u u' t t' :: string
  assumes "u @ CHR '':'' # t = u' @ CHR '':'' # t'" and "CHR '':'' \<notin> set t" and "CHR '':'' \<notin> set t'"
  shows "u = u' \<and> t = t'"
proof -
  have *: "takeWhile (\<lambda>c. c \<noteq> CHR '':'') (rev (v @ CHR '':'' # x)) = rev x" if "CHR '':'' \<notin> set x" for v x :: string
    using that by (auto simp: takeWhile_append)
  from * [OF assms(2), of u] * [OF assms(3), of u'] assms(1) have "rev t = rev t'" by simp
  with assms(1) show ?thesis by simp
qed

section \<open>Properties\<close>


definition mirror :: fwd_sink where
  "mirror = \<lparr>fs_name = ''mirror'', fs_topic = ''copies'', fs_max_hops = 3\<rparr>"

definition mirror_bus :: nats_bus where
  "mirror_bus = \<lparr>nb_cfg = nats_default_config, nb_topic = ''copies'', nb_closed = False, nb_subs = [], nb_acked = []\<rparr>"

definition mirror_answers :: "nats_bus open_answer \<times> goerr option \<times> (goerr + bool) \<times> goerr option" where
  "mirror_answers = (\<lparr>oa_wait = None, oa_open = Inr mirror_bus, oa_closed = False\<rparr>, None, Inr False, None)"


text \<open>
  C24: forwarding cannot loop for ever. A sink refuses an event that has hopped as often as it allows, with a
  permanent error and without touching the target, whatever the target would answer; so when no sink allows
  more than \<open>m\<close> hops, a chain of forwards, in a cycle or not, makes at most \<open>m\<close> copies of an event less the
  hops it already has.
\<close>

theorem forward_hops_bounded:
  assumes "\<And>s. s \<in> set ss \<Longrightarrow> fs_max_hops s \<le> m" and "m < 2 ^ 63" and "0 \<le> forward_hops ev"
  shows "int (fwd_chain ss ev) \<le> max 0 (m - forward_hops ev) \<and>
    (\<forall>s ans p. fs_max_hops s \<le> forward_hops ev \<longrightarrow>
      (\<exists>e. fwd_process publish s ans ev p = (Some e, p) \<and> is_permanent e \<and> \<not> is_skipped e))"
  using fwd_chain_bound [of ss m ev] assms
  by (auto simp: fwd_process_def permanent_def)

theorem forward_hops_bounded_witness:
  "int (fwd_chain (replicate 10 mirror) sample_envelope) \<le> 3"
proof -
  have hops: "s \<in> set (replicate 10 mirror) \<Longrightarrow> fs_max_hops s \<le> 3" for s by (simp add: mirror_def)
  have ev: "forward_hops sample_envelope = 0" by (simp add: sample_envelope_def)
  show ?thesis
    using forward_hops_bounded [where publish = nats_pub, where ss = "replicate 10 mirror" and m = 3 and ev = sample_envelope, OF hops] by (simp add: ev)
qed

text \<open>
  The identifier of a copy is a digest of 64 hexadecimal digits, so it differs from every delivery GUID
  of another length, such as GitHub's 36 characters, and a broker does not collapse the copy with the
  original; and for one sink and topic the digested strings of two deliveries differ, as they do for two
  sinks or topics whose names hold no colon.
\<close>

theorem forward_identifiers:
  "length (forward_uuid guid name topic) = 64 \<and>
   (length guid \<noteq> 64 \<longrightarrow> forward_uuid guid name topic \<noteq> guid) \<and>
   (fwd_preimage guid name topic = fwd_preimage guid' name topic \<longleftrightarrow> guid = guid') \<and>
   (CHR '':'' \<notin> set name \<union> set name' \<union> set topic \<union> set topic' \<longrightarrow>
     fwd_preimage guid name topic = fwd_preimage guid' name' topic' \<longrightarrow>
     guid = guid' \<and> name = name' \<and> topic = topic')"
proof -
  have len: "length (forward_uuid guid name topic) = 64" by (simp add: forward_uuid_def)
  then have "length guid \<noteq> 64 \<longrightarrow> forward_uuid guid name topic \<noteq> guid" by auto
  moreover have "fwd_preimage guid name topic = fwd_preimage guid' name topic \<longleftrightarrow> guid = guid'"
    by (simp add: fwd_preimage_def)
  moreover have "guid = guid' \<and> name = name' \<and> topic = topic'"
    if c: "CHR '':'' \<notin> set name \<union> set name' \<union> set topic \<union> set topic'"
      and e: "fwd_preimage guid name topic = fwd_preimage guid' name' topic'"
  proof -
    from e have "(guid @ '':'' @ name) @ CHR '':'' # topic = (guid' @ '':'' @ name') @ CHR '':'' # topic'"
      by (simp add: fwd_preimage_def)
    from last_colon_unique [OF this] c have t: "topic = topic'" "guid @ CHR '':'' # name = guid' @ CHR '':'' # name'"
      by simp_all
    from last_colon_unique [OF t(2)] c t(1) show ?thesis by simp
  qed
  ultimately show ?thesis using len by blast
qed

theorem forward_identifiers_witness:
  "forward_uuid ''72d3162e-cc78-11e3-81ab-4c9367dc0958'' ''mirror'' ''copies'' \<noteq> ''72d3162e-cc78-11e3-81ab-4c9367dc0958''"
  using forward_identifiers [of "''72d3162e-cc78-11e3-81ab-4c9367dc0958''" "''mirror''" "''copies''"] by simp

text \<open>
  A forward sink is only built over a block that can work: the panics of \<open>New\<close> are out of reach, the
  hop limit is at least one, the target is not the driver and topic the sinks consume from, and the
  selected bus driver is registered and its block described.
\<close>

theorem forward_factory_safe:
  assumes "fwd_factory dec_s dec_i describer in_driver in_topic name raw = Inr (so, cfg, p)"
  shows "\<exists>s. so = Some s \<and> fs_name s = name \<and> fs_topic s = fc_topic cfg \<and> fs_topic s \<noteq> [] \<and>
    1 \<le> fs_max_hops s \<and> fs_max_hops s = fc_max_hops cfg \<and> (fc_driver cfg, fc_topic cfg) \<noteq> (in_driver, in_topic) \<and>
    describer (fc_driver cfg) \<noteq> None \<and> map_of (fc_drivers cfg) (fc_driver cfg) \<noteq> None \<and>
    \<not> fwd_opened p \<and> \<not> fp_closed p"
proof -
  from assms obtain rc where d: "fwd_describe describer rc = Inr cfg"
      and so: "so = fwd_new name True (fc_topic cfg) (fc_max_hops cfg)" and p: "p = new_publisher"
      and v: "errors_join [fwd_validate cfg, fwd_validate_ingress cfg in_driver in_topic] = None"
    by (auto simp: fwd_factory_def fwd_describe_with_def split: sum.splits option.splits)
  from v have ok: "fc_driver cfg \<noteq> []" "fc_topic cfg \<noteq> []" "1 \<le> fc_max_hops cfg"
      and ing: "(fc_driver cfg, fc_topic cfg) \<noteq> (in_driver, in_topic)"
    using fwd_validate_ok [of cfg]
    by (auto simp: errors_join_None fwd_validate_ingress_def split: if_splits)
  from d have drv: "rf_driver rc = fc_driver cfg"
    by (auto simp: fwd_describe_def join_errs_def split: prod.splits if_splits)
  show ?thesis
    using ok ing fwd_describe_selected [OF d] so p
    by (simp add: drv fwd_new_def new_publisher_def fwd_opened_def)
qed

text \<open>A block whose driver and topic are plain scalars.\<close>

definition scalar_node :: "string \<Rightarrow> ynode" where "scalar_node v = YNode KScalar ''!!str'' v []"

definition mirror_block :: ynode where
  "mirror_block = YNode KMapping ''!!map'' [] [scalar_node ''driver'', scalar_node ''gochannel'',
     scalar_node ''topic'', scalar_node ''copies'']"

theorem forward_factory_safe_witness:
  "\<exists>s. fs_topic s = ''copies'' \<and> fs_max_hops s = 3 \<and>
    fwd_factory (\<lambda>n. Inr (y_value n)) (\<lambda>n. Inr 0) (\<lambda>d. if d = ''gochannel'' then Some (\<lambda>n. Inr ()) else None)
      ''gochannel'' ''events'' ''mirror'' mirror_block =
    Inr (Some s, \<lparr>fc_driver = ''gochannel'', fc_topic = ''copies'', fc_max_hops = 3, fc_drivers = [(''gochannel'', ())]\<rparr>,
      new_publisher :: nats_bus fwd_pub)"
proof -
  let ?f = "fwd_factory (\<lambda>n. Inr (y_value n)) (\<lambda>n. Inr 0)
    (\<lambda>d. if d = ''gochannel'' then Some (\<lambda>n. Inr ()) else None) ''gochannel'' ''events'' ''mirror'' mirror_block"
  have "?f = Inr (Some \<lparr>fs_name = ''mirror'', fs_topic = ''copies'', fs_max_hops = 3\<rparr>,
      \<lparr>fc_driver = ''gochannel'', fc_topic = ''copies'', fc_max_hops = 3, fc_drivers = [(''gochannel'', ())]\<rparr>,
      new_publisher :: nats_bus fwd_pub)"
    by code_simp
  from forward_factory_safe [OF this] this show ?thesis by auto
qed

end
