(* ===== verification/GoJsonEnc.thy ===== *)
theory GoJsonEnc
  imports GoJson
begin

text \<open>
  The part of \<open>encoding/json\<close> the program writes archive lines with, HTML escaping off: string literals,
  the removal of insignificant white space from a raw message, and the raw text of the members of an
  object, which a \<open>json.RawMessage\<close> field keeps.
\<close>

section \<open>String literals\<close>

text \<open>\<open>utf8.DecodeRune\<close>: the length of the rune at the head, 0 when the bytes are not UTF-8.\<close>

definition byte_in :: "nat \<Rightarrow> nat \<Rightarrow> char \<Rightarrow> bool" where
  "byte_in lo hi c \<longleftrightarrow> lo \<le> (of_char c :: nat) \<and> (of_char c :: nat) \<le> hi"

definition second_byte :: "nat \<Rightarrow> char \<Rightarrow> bool" where
  "second_byte b c = (if b = 224 then byte_in 160 191 c else if b = 237 then byte_in 128 159 c
     else if b = 240 then byte_in 144 191 c else if b = 244 then byte_in 128 143 c else byte_in 128 191 c)"

definition rune_len :: "string \<Rightarrow> nat" where
  "rune_len s = (case s of
     [] \<Rightarrow> 0
   | c # r \<Rightarrow>
       let b = of_char c :: nat in
       if b < 128 then 1
       else case r of
         [] \<Rightarrow> 0
       | d # r \<Rightarrow>
           if 194 \<le> b \<and> b \<le> 223 then (if second_byte b d then 2 else 0)
           else case r of
             [] \<Rightarrow> 0
           | e # r \<Rightarrow>
               if 224 \<le> b \<and> b \<le> 239 then (if second_byte b d \<and> byte_in 128 191 e then 3 else 0)
               else case r of
                 [] \<Rightarrow> 0
               | f # r \<Rightarrow>
                   if 240 \<le> b \<and> b \<le> 244 \<and> second_byte b d \<and> byte_in 128 191 e \<and> byte_in 128 191 f
                   then 4 else 0)"

definition hex_char :: "nat \<Rightarrow> char" where
  "hex_char d = char_of (if d < 10 then 48 + d else 87 + d)"

definition bslash :: char where "bslash = CHR 0x5C"
definition dquote :: char where "dquote = CHR 0x22"

definition quote_byte :: "char \<Rightarrow> string" where
  "quote_byte c = (let n = of_char c :: nat in
     if c = bslash \<or> c = dquote then [bslash, c]
     else if n = 8 then [bslash, CHR ''b''] else if n = 12 then [bslash, CHR ''f'']
     else if n = 10 then [bslash, CHR ''n''] else if n = 13 then [bslash, CHR ''r'']
     else if n = 9 then [bslash, CHR ''t'']
     else if n < 32 then [bslash, CHR ''u'', CHR ''0'', CHR ''0'', hex_char (n div 16), hex_char (n mod 16)]
     else [c])"

definition line_separator :: "string \<Rightarrow> bool" where
  "line_separator s \<longleftrightarrow> take 3 s = [CHR 0xE2, CHR 0x80, CHR 0xA8] \<or> take 3 s = [CHR 0xE2, CHR 0x80, CHR 0xA9]"

function quote_body :: "string \<Rightarrow> string" where
  "quote_body [] = []"
| "quote_body (c # r) =
     (if (of_char c :: nat) < 128 then quote_byte c @ quote_body r
      else let n = rune_len (c # r) in
        if n = 0 then bslash # ''ufffd'' @ quote_body r
        else if line_separator (c # r)
        then bslash # ''u202'' @ [hex_char (of_char (r ! 1) mod 16)] @ quote_body (drop 2 r)
        else take n (c # r) @ quote_body (drop (n - 1) r))"
  by pat_completeness auto
termination
  by (relation "measure length") auto

declare quote_body.simps [simp del]

definition json_quote :: "string \<Rightarrow> string" where
  "json_quote s = dquote # quote_body s @ [dquote]"

section \<open>Raw messages\<close>

text \<open>\<open>json.Compact\<close>: a scan that drops white space outside string literals.\<close>

datatype scan = Outside | InString | Escaped

fun scan_step :: "scan \<Rightarrow> char \<Rightarrow> scan" where
  "scan_step Outside c = (if c = dquote then InString else Outside)"
| "scan_step InString c = (if c = bslash then Escaped else if c = dquote then Outside else InString)"
| "scan_step Escaped c = InString"

fun strip :: "scan \<Rightarrow> string \<Rightarrow> string" where
  "strip st [] = []"
| "strip st (c # s) = (if st = Outside \<and> json_space c then strip st s else c # strip (scan_step st c) s)"

definition json_compact :: "string \<Rightarrow> string option" where
  "json_compact s = (if parse_json s = None then None else Some (strip Outside s))"

text \<open>The members of an object after its brace, each with its value and the raw text of the value.\<close>

function raw_members :: "string \<Rightarrow> ((string \<times> json \<times> string) list \<times> string) option" where
  "raw_members s = (case skip_ws s of
       [] \<Rightarrow> None
     | c # r \<Rightarrow>
         if c = dquote then
           (case jstring r of
              None \<Rightarrow> None
            | Some (k, r1) \<Rightarrow>
                (case skip_ws r1 of
                   [] \<Rightarrow> None
                 | d # r2 \<Rightarrow>
                     if d = CHR '':'' then
                       (case jvalue r2 of
                          None \<Rightarrow> None
                        | Some (v, r3) \<Rightarrow>
                            let raw = take (length (skip_ws r2) - length r3) (skip_ws r2) in
                            (case skip_ws r3 of
                               [] \<Rightarrow> None
                             | e # q \<Rightarrow>
                                 if e = CHR '','' \<and> length q < length s
                                 then map_option (\<lambda>(ms, q). ((k, v, raw) # ms, q)) (raw_members q)
                                 else if e = CHR ''}'' then Some ([(k, v, raw)], q) else None))
                     else None))
         else None)"
  by pat_completeness auto
termination
  by (relation "measure length") auto

declare raw_members.simps [simp del]

definition raw_object :: "string \<Rightarrow> (string \<times> json \<times> string) list option" where
  "raw_object s = (case skip_ws s of
     [] \<Rightarrow> None
   | c # r \<Rightarrow>
       if c \<noteq> CHR ''{'' then None
       else (case skip_ws r of
           [] \<Rightarrow> None
         | d # q \<Rightarrow> if d = CHR ''}'' then (if skip_ws q = [] then Some [] else None)
             else (case raw_members r of
                 None \<Rightarrow> None
               | Some (ms, q) \<Rightarrow> if skip_ws q = [] then Some ms else None)))"

end
