(* ===== verification/ArchiveRecord.thy ===== *)
theory ArchiveRecord
  imports SinkCore GoJsonEnc
begin

text \<open>
  Package \<open>archive\<close>, \<open>record.go\<close> (\<open>internal/sink/archive\<close>): one line of JSON per archived event, and the
  reader of such lines. The fields of \<open>Record\<close> are those of an envelope.
\<close>

section \<open>Encode\<close>

definition json_member :: "string \<Rightarrow> string \<Rightarrow> string" where
  "json_member k text = json_quote k @ '':'' @ text"

text \<open>The members in the order of the struct; those tagged \<open>omitempty\<close> only when they are not empty.\<close>

definition record_members :: "envelope \<Rightarrow> string \<Rightarrow> string list" where
  "record_members env raw =
     [json_member ''schema_version'' (format_int (schema_version env)),
      json_member ''delivery_guid'' (json_quote (delivery_guid env)),
      json_member ''event'' (json_quote (ev_event env))] @
     (if ev_action env = [] then [] else [json_member ''action'' (json_quote (ev_action env))]) @
     (if hook_id env = [] then [] else [json_member ''hook_id'' (json_quote (hook_id env))]) @
     [json_member ''received_at'' (json_quote (format_rfc3339 (received_at env)))] @
     (if repository_id env = 0 then [] else [json_member ''repository_id'' (format_int (repository_id env))]) @
     (if repository env = [] then [] else [json_member ''repository'' (json_quote (repository env))]) @
     (if forwarded_by env = [] then [] else [json_member ''forwarded_by'' (json_quote (forwarded_by env))]) @
     (if forward_hops env = 0 then [] else [json_member ''forward_hops'' (format_int (forward_hops env))]) @
     [json_member ''payload'' raw]"

text \<open>A time whose year has no four digits and a payload that is not JSON are errors of the encoder.\<close>

definition arch_encode :: "envelope \<Rightarrow> goerr + string" where
  "arch_encode env =
     (if trim_space (payload env) = [] then Inl (the (permanent (Some (Msg ''encode archive record: empty payload''))))
      else if \<not> rfc3339_range (received_at env)
      then Inl (the (permanent (Some (Wrap ''encode archive record'' [Msg ''Time.MarshalJSON: year outside of range [0,9999]'']))))
      else case json_compact (payload env) of
          None \<Rightarrow> Inl (the (permanent (Some (Wrap ''encode archive record'' [Msg ''json: error calling MarshalJSON'']))))
        | Some raw \<Rightarrow> Inr (''{'' @ intercalate '','' (record_members env raw) @ ''}'' @ [CHR 0x0A]))"

section \<open>Decode\<close>

type_synonym raw_field = "envelope \<Rightarrow> json \<times> string \<Rightarrow> envelope option"

definition value_field :: "(envelope \<Rightarrow> 'a) \<Rightarrow> ('a \<Rightarrow> envelope \<Rightarrow> envelope) \<Rightarrow> 'a decoder \<Rightarrow> raw_field" where
  "value_field get put d env x = set_field get put d env (fst x)"

definition raw_payload :: raw_field where
  "raw_payload env x = Some (env\<lparr>payload := snd x\<rparr>)"

definition record_fields :: "(string \<times> raw_field) list" where
  "record_fields =
     [(''schema_version'', value_field schema_version (\<lambda>x r. r\<lparr>schema_version := x\<rparr>) dec_int64),
      (''delivery_guid'', value_field delivery_guid (\<lambda>x r. r\<lparr>delivery_guid := x\<rparr>) dec_string),
      (''event'', value_field ev_event (\<lambda>x r. r\<lparr>ev_event := x\<rparr>) dec_string),
      (''action'', value_field ev_action (\<lambda>x r. r\<lparr>ev_action := x\<rparr>) dec_string),
      (''hook_id'', value_field hook_id (\<lambda>x r. r\<lparr>hook_id := x\<rparr>) dec_string),
      (''received_at'', value_field received_at (\<lambda>x r. r\<lparr>received_at := x\<rparr>) dec_time),
      (''repository_id'', value_field repository_id (\<lambda>x r. r\<lparr>repository_id := x\<rparr>) dec_int64),
      (''repository'', value_field repository (\<lambda>x r. r\<lparr>repository := x\<rparr>) dec_string),
      (''forwarded_by'', value_field forwarded_by (\<lambda>x r. r\<lparr>forwarded_by := x\<rparr>) dec_string),
      (''forward_hops'', value_field forward_hops (\<lambda>x r. r\<lparr>forward_hops := x\<rparr>) dec_int64),
      (''payload'', raw_payload)]"

fun dec_raw_members :: "(string \<times> raw_field) list \<Rightarrow> envelope \<Rightarrow> (string \<times> json \<times> string) list \<Rightarrow> envelope option" where
  "dec_raw_members fs r [] = Some r"
| "dec_raw_members fs r ((k, x) # ms) = (case find_field fs k of
       None \<Rightarrow> dec_raw_members fs r ms
     | Some f \<Rightarrow> (case f r x of None \<Rightarrow> None | Some r' \<Rightarrow> dec_raw_members fs r' ms))"

text \<open>\<open>json.Unmarshal\<close> into a zero \<open>Record\<close>; \<open>null\<close> leaves it zero.\<close>

definition unmarshal_record :: "string \<Rightarrow> envelope option" where
  "unmarshal_record line = (case parse_json line of
       None \<Rightarrow> None
     | Some JNull \<Rightarrow> Some empty_envelope
     | Some v \<Rightarrow> Option.bind (raw_object line) (dec_raw_members record_fields empty_envelope))"

definition arch_decode :: "string \<Rightarrow> goerr + envelope" where
  "arch_decode line = (case unmarshal_record line of
       None \<Rightarrow> Inl (Wrap ''decode archive record'' [Msg ''json''])
     | Some rec \<Rightarrow>
         if delivery_guid rec = [] then Inl (Msg ''decode archive record: missing delivery_guid'')
         else if ev_event rec = [] then Inl (Msg ''decode archive record: missing event'')
         else if payload rec = [] \<or> payload rec = ''null'' then Inl (Msg ''decode archive record: missing payload'')
         else Inr rec)"

section \<open>Reader\<close>

text \<open>\<open>ReadBytes\<close> of a newline: the line with its newline if it has one, the rest, and whether it has.\<close>

definition newline :: char where "newline = CHR 0x0A"

definition read_line :: "string \<Rightarrow> string \<times> string \<times> bool" where
  "read_line s = (let l = takeWhile (\<lambda>c. c \<noteq> newline) s; r = dropWhile (\<lambda>c. c \<noteq> newline) s
     in case r of [] \<Rightarrow> (l, [], False) | c # r \<Rightarrow> (l @ [c], r, True))"

lemma read_line_shorter: "read_line s = (l, r, True) \<Longrightarrow> length r < length s"
proof -
  assume a: "read_line s = (l, r, True)"
  have "length s = length (takeWhile (\<lambda>c. c \<noteq> newline) s) + length (dropWhile (\<lambda>c. c \<noteq> newline) s)"
    by (simp flip: length_append)
  with a show ?thesis by (auto simp: read_line_def Let_def split: list.splits)
qed

text \<open>\<open>Next\<close>: \<open>None\<close> is the end of the stream.\<close>

function reader_next :: "string \<Rightarrow> (goerr + envelope) option \<times> string" where
  "reader_next s = (case read_line s of (line, rest, ended) \<Rightarrow>
     if line = [] then (None, rest)
     else if trim_space line = [] then (if ended then reader_next rest else (None, rest))
     else (case arch_decode (trim_space line) of
         Inl e \<Rightarrow> (Some (Inl (Wrap ''line'' [e])), rest)
       | Inr env \<Rightarrow> (Some (Inr env), rest)))"
  by pat_completeness auto
termination
  by (relation "measure length") (auto dest!: read_line_shorter [OF sym])

declare reader_next.simps [simp del]

lemma reader_next_shorter: "reader_next s = (Some x, r) \<Longrightarrow> length r < length s"
proof (induction s arbitrary: r rule: reader_next.induct)
  case (1 s)
  obtain line rest ended where l: "read_line s = (line, rest, ended)" using prod_cases3 by blast
  have len: "length s = length line + length rest" "line = [] \<or> rest = [] \<or> length rest < length s"
  proof -
    have "length s = length (takeWhile (\<lambda>c. c \<noteq> newline) s) + length (dropWhile (\<lambda>c. c \<noteq> newline) s)"
      by (simp flip: length_append)
    with l show "length s = length line + length rest" "line = [] \<or> rest = [] \<or> length rest < length s"
      by (auto simp: read_line_def Let_def split: list.splits)
  qed
  have n: "reader_next s = (if line = [] then (None, rest)
     else if trim_space line = [] then (if ended then reader_next rest else (None, rest))
     else (case arch_decode (trim_space line) of
         Inl e \<Rightarrow> (Some (Inl (Wrap ''line'' [e])), rest)
       | Inr env \<Rightarrow> (Some (Inr env), rest)))"
    by (simp only: reader_next.simps [of s] l prod.case)
  consider "line = []" | "line \<noteq> []" "trim_space line = []" | "line \<noteq> []" "trim_space line \<noteq> []" by blast
  then show ?case
  proof cases
    case 1
    with n "1.prems" show ?thesis by simp
  next
    case 2
    with n "1.prems" have "ended" "reader_next rest = (Some x, r)" by (auto split: if_splits)
    from "1.IH" [OF l [symmetric] refl 2 this] len 2 show ?thesis by simp
  next
    case 3
    with n "1.prems" have "r = rest" by (auto split: sum.splits)
    with len 3 show ?thesis by simp
  qed
qed

text \<open>\<open>ReadAll\<close>: the envelopes up to the end or the first error.\<close>

function read_all :: "string \<Rightarrow> envelope list \<times> goerr option" where
  "read_all s = (case reader_next s of
       (None, r) \<Rightarrow> ([], None)
     | (Some (Inl e), r) \<Rightarrow> ([], Some e)
     | (Some (Inr env), r) \<Rightarrow> (let (envs, e) = read_all r in (env # envs, e)))"
  by pat_completeness auto
termination
  by (relation "measure length") (auto dest!: reader_next_shorter [OF sym])

declare read_all.simps [simp del]

text \<open>The bytes up to the last newline.\<close>

definition whole_lines :: "string \<Rightarrow> string" where
  "whole_lines s = rev (dropWhile (\<lambda>c. c \<noteq> newline) (rev s))"

text \<open>
  \<open>ReadFile\<close> of a file's bytes. \<open>gunzip\<close> is the error of the header, or the bytes of the stream and the
  error it ends with.
\<close>

definition read_archive ::
  "(string \<Rightarrow> goerr + string \<times> goerr option) \<Rightarrow> string \<Rightarrow> string \<Rightarrow> envelope list \<times> goerr option" where
  "read_archive gunzip path content =
     (if has_suffix ''.gz'' path then
        (case gunzip content of
           Inl e \<Rightarrow> ([], Some (Wrap path [e]))
         | Inr (data, None) \<Rightarrow> read_all data
         | Inr (data, Some e) \<Rightarrow>
             (case read_all (whole_lines data) of (envs, Some e') \<Rightarrow> (envs, Some e') | (envs, None) \<Rightarrow> (envs, Some e)))
      else read_all content)"

end
