(* ===== verification/ArchiveFs.thy ===== *)
theory ArchiveFs
  imports ArchiveRecord
begin

text \<open>
  The files under the directory of an archive store as the store uses them: system calls that may each
  fail, and what a crash leaves. A path is the directory relative to the root of the store and a name.
  Calls are numbered; \<open>w_fault\<close> says which calls of a kind fail: \<open>Some n\<close> is a failure, of a write after
  \<open>n\<close> bytes. \<open>w_mtime\<close> is the modification time a call to stat reports.
\<close>

type_synonym path = "string \<times> string"

text \<open>\<open>f_synced\<close> is the content at the last successful fsync.\<close>

record disk_file =
  f_content :: string
  f_synced :: string

datatype call = COpen | CCreate | CStat | CExists | CRead | CWrite | CSync | CTruncate | CRename | CRemove
  | CClose | CMkdir | CSyncDir | CWalk

record world =
  w_files :: "(path, disk_file) amap"
  w_fault :: "call \<Rightarrow> nat \<Rightarrow> nat option"
  w_mtime :: "nat \<Rightarrow> gtime"
  w_tick :: nat

definition lookup :: "world \<Rightarrow> path \<Rightarrow> disk_file option" where "lookup w = map_of (w_files w)"

definition put_file :: "path \<Rightarrow> disk_file \<Rightarrow> world \<Rightarrow> world" where
  "put_file p f w = w\<lparr>w_files := AList.update p f (w_files w)\<rparr>"

definition del_file :: "path \<Rightarrow> world \<Rightarrow> world" where
  "del_file p w = w\<lparr>w_files := AList.delete p (w_files w)\<rparr>"

section \<open>System calls\<close>

definition io_error :: goerr where "io_error = Msg ''input/output error''"
definition err_not_exist :: goerr where "err_not_exist = Sentinel ''file does not exist''"

definition tick :: "call \<Rightarrow> world \<Rightarrow> nat option \<times> world" where
  "tick k w = (w_fault w k (w_tick w), w\<lparr>w_tick := Suc (w_tick w)\<rparr>)"

text \<open>A call without effect on the files: closing, creating or syncing a directory, walking.\<close>

definition sys_plain :: "call \<Rightarrow> world \<Rightarrow> goerr option \<times> world" where
  "sys_plain k w = (case tick k w of (f, w) \<Rightarrow> (if f = None then None else Some io_error, w))"

definition sys_open_append :: "path \<Rightarrow> world \<Rightarrow> goerr option \<times> world" where
  "sys_open_append p w = (case tick COpen w of
     (Some n, w) \<Rightarrow> (Some io_error, w)
   | (None, w) \<Rightarrow> (None, if lookup w p = None then put_file p \<lparr>f_content = [], f_synced = []\<rparr> w else w))"

datatype stat_result = StatFailed | StatAbsent | StatOk nat gtime

definition sys_stat :: "call \<Rightarrow> path \<Rightarrow> world \<Rightarrow> stat_result \<times> world" where
  "sys_stat k p w = (case tick k w of
     (Some n, w') \<Rightarrow> (StatFailed, w')
   | (None, w') \<Rightarrow> (case lookup w' p of
         None \<Rightarrow> (StatAbsent, w')
       | Some f \<Rightarrow> (StatOk (length (f_content f)) (w_mtime w (w_tick w)), w')))"

definition sys_exists :: "path \<Rightarrow> world \<Rightarrow> bool \<times> world" where
  "sys_exists p w = (case sys_stat CExists p w of (StatOk n t, w) \<Rightarrow> (True, w) | (_, w) \<Rightarrow> (False, w))"

definition set_content :: "path \<Rightarrow> (string \<Rightarrow> string) \<Rightarrow> world \<Rightarrow> world" where
  "set_content p g w = (case lookup w p of
     None \<Rightarrow> w | Some f \<Rightarrow> put_file p (f\<lparr>f_content := g (f_content f)\<rparr>) w)"

definition sys_write :: "path \<Rightarrow> string \<Rightarrow> world \<Rightarrow> (nat \<times> goerr option) \<times> world" where
  "sys_write p s w = (case tick CWrite w of
     (Some n, w) \<Rightarrow> ((min n (length s), Some io_error), set_content p (\<lambda>c. c @ take n s) w)
   | (None, w) \<Rightarrow> ((length s, None), set_content p (\<lambda>c. c @ s) w))"

definition sys_sync :: "path \<Rightarrow> world \<Rightarrow> goerr option \<times> world" where
  "sys_sync p w = (case tick CSync w of
     (Some n, w) \<Rightarrow> (Some io_error, w)
   | (None, w) \<Rightarrow> (None, case lookup w p of
         None \<Rightarrow> w | Some f \<Rightarrow> put_file p (f\<lparr>f_synced := f_content f\<rparr>) w))"

definition sys_truncate :: "path \<Rightarrow> nat \<Rightarrow> world \<Rightarrow> goerr option \<times> world" where
  "sys_truncate p k w = (case tick CTruncate w of
     (Some n, w) \<Rightarrow> (Some io_error, w)
   | (None, w) \<Rightarrow> (None, set_content p (\<lambda>c. take k c @ replicate (k - length c) (CHR 0x00)) w))"

definition sys_read :: "path \<Rightarrow> world \<Rightarrow> (goerr + string) \<times> world" where
  "sys_read p w = (case tick CRead w of
     (Some n, w) \<Rightarrow> (Inl io_error, w)
   | (None, w) \<Rightarrow> (case lookup w p of None \<Rightarrow> (Inl err_not_exist, w) | Some f \<Rightarrow> (Inr (f_content f), w)))"

definition sys_rename :: "path \<Rightarrow> path \<Rightarrow> world \<Rightarrow> goerr option \<times> world" where
  "sys_rename p q w = (case tick CRename w of
     (Some n, w) \<Rightarrow> (Some io_error, w)
   | (None, w) \<Rightarrow> (case lookup w p of
         None \<Rightarrow> (Some err_not_exist, w)
       | Some f \<Rightarrow> (None, put_file q f (del_file p w))))"

definition sys_remove :: "path \<Rightarrow> world \<Rightarrow> goerr option \<times> world" where
  "sys_remove p w = (case tick CRemove w of
     (Some n, w) \<Rightarrow> (Some io_error, w)
   | (None, w) \<Rightarrow> (case lookup w p of
         None \<Rightarrow> (Some err_not_exist, w) | Some f \<Rightarrow> (None, del_file p w)))"

text \<open>Opening with truncation.\<close>

definition sys_create :: "path \<Rightarrow> world \<Rightarrow> goerr option \<times> world" where
  "sys_create p w = (case tick CCreate w of
     (Some n, w) \<Rightarrow> (Some io_error, w)
   | (None, w) \<Rightarrow> (None, put_file p \<lparr>f_content = [], f_synced = []\<rparr> w))"

section \<open>Crashes\<close>

fun common_prefix :: "string \<Rightarrow> string \<Rightarrow> string" where
  "common_prefix (a # as) (b # bs) = (if a = b then a # common_prefix as bs else [])"
| "common_prefix _ _ = []"

text \<open>What of a file no crash can take: the synced bytes that were not truncated since.\<close>

definition safe_bytes :: "disk_file \<Rightarrow> string" where
  "safe_bytes f = common_prefix (f_content f) (f_synced f)"

text \<open>
  A crash keeps the directory entries. A file whose content is synced keeps it; any other file keeps its
  safe bytes, whatever follows them.
\<close>

definition file_after_crash :: "disk_file \<Rightarrow> disk_file \<Rightarrow> bool" where
  "file_after_crash f f' \<longleftrightarrow> f_synced f' = f_content f' \<and>
     (if f_content f = f_synced f then f_content f' = f_content f
      else take (length (safe_bytes f)) (f_content f') = safe_bytes f)"

definition crash :: "world \<Rightarrow> world \<Rightarrow> bool" where
  "crash w w' \<longleftrightarrow> (\<forall>p. case lookup w p of
      None \<Rightarrow> lookup w' p = None
    | Some f \<Rightarrow> (\<exists>f'. lookup w' p = Some f' \<and> file_after_crash f f'))"

end
