(* ===== verification/ArchiveStore.thy ===== *)
theory ArchiveStore
  imports ArchiveFs
begin

text \<open>
  Package \<open>archive\<close>, \<open>jsonl.go\<close> (\<open>internal/sink/archive\<close>): the store of JSON lines that appends and syncs,
  rotates, compresses, and repairs what a crash left. \<open>gz\<close> is the gzip stream of a name and a content.
\<close>

section \<open>Options and names\<close>

definition compress_none :: string where "compress_none = ''none''"
definition compress_gzip :: string where "compress_gzip = ''gzip''"

definition parse_compression :: "string \<Rightarrow> goerr + string" where
  "parse_compression s = (if s = [] \<or> s = compress_none then Inr compress_none
     else if s = compress_gzip then Inr compress_gzip
     else Inl (Msg ''compress must be none or gzip''))"

record store_options =
  so_dir :: string
  so_prefix :: string
  so_compress :: string
  so_rotate_size :: int
  so_rotate_every :: duration

definition arch_extension :: string where "arch_extension = ''.jsonl''"
definition gzip_extension :: string where "gzip_extension = ''.jsonl.gz''"
definition part_suffix :: string where "part_suffix = ''-current.jsonl.part''"
definition tmp_suffix :: string where "tmp_suffix = ''.tmp''"

text \<open>The layouts \<open>20060102T150405Z\<close> and \<open>2006/01/02\<close>.\<close>

definition format_stamp :: "gtime \<Rightarrow> string" where
  "format_stamp t = (let (y, m, d) = civil_of_days (t div ns_per_day); s = t mod ns_per_day div 1000000000
     in format_year y @ pad 2 (int m) @ pad 2 d @ ''T'' @ pad 2 (s div 3600) @ pad 2 (s mod 3600 div 60) @
        pad 2 (s mod 60) @ ''Z'')"

definition date_dir :: "gtime \<Rightarrow> string" where
  "date_dir t = (let (y, m, d) = civil_of_days (t div ns_per_day)
     in format_year y @ ''/'' @ pad 2 (int m) @ ''/'' @ pad 2 d)"

definition final_name :: "string \<Rightarrow> gtime \<Rightarrow> int \<Rightarrow> string" where
  "final_name prefix ts n = prefix @ ''-'' @ format_stamp ts @ ''-'' @ format_int n @ arch_extension"

datatype final_kind = FPlain | FGzip | FTmp

text \<open>The pattern of finalized names, and which of its three alternatives matched.\<close>

definition final_kind_of :: "string \<Rightarrow> string \<Rightarrow> final_kind option" where
  "final_kind_of prefix name =
     (if \<not> has_prefix (prefix @ ''-'') name then None
      else let r = drop (length prefix + 1) name;
               d = takeWhile is_digit (drop 17 r); x = dropWhile is_digit (drop 17 r)
        in if list_all is_digit (take 8 r) \<and> take 1 (drop 8 r) = ''T'' \<and> list_all is_digit (take 6 (drop 9 r)) \<and>
              take 2 (drop 15 r) = ''Z-'' \<and> d \<noteq> []
           then map_of [(arch_extension, FPlain), (gzip_extension, FGzip), (gzip_extension @ tmp_suffix, FTmp)] x
           else None)"

section \<open>The store\<close>

text \<open>\<open>ar_open\<close> tells whether the current file is open; the zero time is 0.\<close>

record store =
  ar_opts :: store_options
  ar_open :: bool
  ar_size :: nat
  ar_opened_at :: gtime
  ar_first_ts :: gtime
  ar_seq :: int
  ar_closed :: bool
  ar_close_err :: "goerr option"

definition part_path :: "store_options \<Rightarrow> path" where
  "part_path o' = ([], so_prefix o' @ part_suffix)"

abbreviation part_of :: "store \<Rightarrow> path" where "part_of s \<equiv> part_path (ar_opts s)"

definition gz_path :: "path \<Rightarrow> path" where "gz_path p = (fst p, snd p @ ''.gz'')"
definition tmp_path :: "path \<Rightarrow> path" where "tmp_path p = (fst p, snd p @ tmp_suffix)"

definition forget_file :: "store \<Rightarrow> store" where
  "forget_file s = s\<lparr>ar_open := False, ar_size := 0, ar_opened_at := 0, ar_first_ts := 0\<rparr>"

definition first_timestamp :: "path \<Rightarrow> gtime \<Rightarrow> world \<Rightarrow> gtime \<times> world" where
  "first_timestamp p mtime w = (case sys_read p w of
     (Inl e, w) \<Rightarrow> (mtime, w)
   | (Inr c, w) \<Rightarrow> (case fst (reader_next c) of Some (Inr env) \<Rightarrow> received_at env | _ \<Rightarrow> mtime, w))"

definition store_open :: "gtime \<Rightarrow> store \<Rightarrow> world \<Rightarrow> goerr option \<times> store \<times> world" where
  "store_open now s w = (case sys_open_append (part_of s) w of
     (Some e, w) \<Rightarrow> (Some (Wrap ''open archive'' [e]), s, w)
   | (None, w) \<Rightarrow>
       (case sys_stat CStat (part_of s) w of
          (StatOk sz mtime, w) \<Rightarrow>
            let s = s\<lparr>ar_open := True, ar_size := sz, ar_opened_at := now, ar_first_ts := 0\<rparr>
            in if 0 < sz then
                 (let (ts, w) = first_timestamp (part_of s) mtime w
                  in (None, s\<lparr>ar_opened_at := 0, ar_first_ts := ts\<rparr>, w))
               else (None, s, w)
        | (_, w) \<Rightarrow> (let (e, w) = sys_plain CClose w in (Some (Wrap ''open archive'' [io_error]), s, w))))"

definition should_rotate :: "nat \<Rightarrow> gtime \<Rightarrow> store \<Rightarrow> bool" where
  "should_rotate n now s = (if ar_size s = 0 then False
     else if 0 < so_rotate_size (ar_opts s) \<and> so_rotate_size (ar_opts s) < int (ar_size s) + int n then True
     else 0 < so_rotate_every (ar_opts s) \<and>
       (is_zero (ar_opened_at s) \<or> so_rotate_every (ar_opts s) \<le> time_sub now (ar_opened_at s)))"

definition abandon :: "nat \<Rightarrow> store \<Rightarrow> world \<Rightarrow> store \<times> world" where
  "abandon n s w =
     (let w = (if 0 < n then snd (sys_truncate (part_of s) (ar_size s) w) else w)
      in (forget_file s, snd (sys_plain CClose w)))"

text \<open>The offset after the last newline, found by reading chunks from the end.\<close>

definition read_chunk :: int where "read_chunk = 64 * 1024"

fun newline_before :: "string \<Rightarrow> nat \<Rightarrow> nat option" where
  "newline_before buf 0 = None"
| "newline_before buf (Suc i) = (if buf ! i = newline then Some i else newline_before buf i)"

function last_newline :: "string \<Rightarrow> nat \<Rightarrow> nat" where
  "last_newline c pos =
     (if pos = 0 then 0
      else let n = (if int pos < read_chunk then pos else nat read_chunk);
               p = pos - n
        in case newline_before (take n (drop p c)) n of
             Some i \<Rightarrow> p + i + 1
           | None \<Rightarrow> last_newline c p)"
  by pat_completeness auto
termination
  by (relation "measure snd") (auto simp: read_chunk_def)

declare last_newline.simps [simp del]

text \<open>The size that remains; the file is closed on every path.\<close>

definition cut_partial_line :: "path \<Rightarrow> nat \<Rightarrow> world \<Rightarrow> (goerr + nat) \<times> world" where
  "cut_partial_line p sz w =
     (if sz = 0 then (Inr 0, w)
      else case sys_plain COpen w of
        (Some e, w) \<Rightarrow> (Inl e, w)
      | (None, w) \<Rightarrow>
          (case sys_read p w of
             (Inl e, w) \<Rightarrow> (Inl e, snd (sys_plain CClose w))
           | (Inr c, w) \<Rightarrow>
               let stop = last_newline c sz in
               if stop = sz then (Inr sz, snd (sys_plain CClose w))
               else (case sys_truncate p stop w of
                   (Some e, w) \<Rightarrow> (Inl e, snd (sys_plain CClose w))
                 | (None, w) \<Rightarrow>
                     (case sys_sync p w of
                        (Some e, w) \<Rightarrow> (Inl e, snd (sys_plain CClose w))
                      | (None, w) \<Rightarrow> (Inr stop, snd (sys_plain CClose w))))))"

text \<open>Compression goes through a temporary file that is synced and renamed.\<close>

definition write_gzip :: "(string \<Rightarrow> string \<Rightarrow> string) \<Rightarrow> path \<Rightarrow> path \<Rightarrow> world \<Rightarrow> goerr option \<times> world" where
  "write_gzip gz src dst w = (case sys_read src w of
     (Inl e, w) \<Rightarrow> (Some e, w)
   | (Inr c, w) \<Rightarrow>
       (case sys_create dst w of
          (Some e, w) \<Rightarrow> (Some e, w)
        | (None, w) \<Rightarrow>
            (case sys_write dst (gz (snd src) c) w of
               ((n, Some e), w) \<Rightarrow> (Some e, snd (sys_plain CClose w))
             | ((n, None), w) \<Rightarrow>
                 (case sys_sync dst w of
                    (Some e, w) \<Rightarrow> (Some e, snd (sys_plain CClose w))
                  | (None, w) \<Rightarrow> sys_plain CClose w))))"

definition compress_file :: "(string \<Rightarrow> string \<Rightarrow> string) \<Rightarrow> path \<Rightarrow> world \<Rightarrow> goerr option \<times> world" where
  "compress_file gz plain w =
     (let gzp = gz_path plain;
          tmp = tmp_path gzp;
          finish = (\<lambda>w. case sys_remove plain w of
              (Some e, w) \<Rightarrow> (Some e, w)
            | (None, w) \<Rightarrow> (None, snd (sys_plain CSyncDir w)))
      in case sys_exists gzp w of
           (True, w) \<Rightarrow> finish w
         | (False, w) \<Rightarrow>
             (case write_gzip gz plain tmp w of
                (Some e, w) \<Rightarrow> (Some e, snd (sys_remove tmp w))
              | (None, w) \<Rightarrow>
                  (case sys_rename tmp gzp w of
                     (Some e, w) \<Rightarrow> (Some e, snd (sys_remove tmp w))
                   | (None, w) \<Rightarrow>
                       (case sys_plain CSyncDir w of
                          (Some e, w) \<Rightarrow> (Some (Wrap ''fsync'' [e]), w)
                        | (None, w) \<Rightarrow> finish w))))"

text \<open>
  The search for a free sequence number; \<open>None\<close> is running out of fuel, which one more than the number of
  files rules out while \<open>exists\<close> tells the truth.
\<close>

fun pick_name :: "nat \<Rightarrow> string \<Rightarrow> gtime \<Rightarrow> store \<Rightarrow> world \<Rightarrow> (path \<times> store \<times> world) option" where
  "pick_name 0 dir day s w = None"
| "pick_name (Suc k) dir day s w =
     (let s = s\<lparr>ar_seq := ar_seq s + 1\<rparr>;
          target = (dir, final_name (so_prefix (ar_opts s)) day (ar_seq s))
      in case sys_exists target w of
           (True, w) \<Rightarrow> pick_name k dir day s w
         | (False, w) \<Rightarrow>
             (case sys_exists (gz_path target) w of
                (True, w) \<Rightarrow> pick_name k dir day s w
              | (False, w) \<Rightarrow> Some (target, s, w)))"

definition name_fuel :: "world \<Rightarrow> nat" where "name_fuel w = Suc (length (w_files w))"

definition finalize_at :: "(string \<Rightarrow> string \<Rightarrow> string) \<Rightarrow> gtime \<Rightarrow> store \<Rightarrow> world \<Rightarrow> (goerr + path) \<times> store \<times> world" where
  "finalize_at gz day s w =
     (let dir = date_dir day in
      case sys_plain CMkdir w of
        (Some e, w) \<Rightarrow> (Inl e, s, w)
      | (None, w) \<Rightarrow>
          (case pick_name (name_fuel w) dir day s w of
             None \<Rightarrow> (Inl (Msg ''no free name''), s, w)
           | Some (target, s, w) \<Rightarrow>
               (case sys_rename (part_of s) target w of
                  (Some e, w) \<Rightarrow> (Inl e, s, w)
                | (None, w) \<Rightarrow>
                    let w = snd (sys_plain CSyncDir (snd (sys_plain CSyncDir w))) in
                    if so_compress (ar_opts s) = compress_gzip then
                      (case compress_file gz target w of
                         (Some e, w) \<Rightarrow> (Inr target, s, w)
                       | (None, w) \<Rightarrow> (Inr (gz_path target), s, w))
                    else (Inr target, s, w))))"

definition store_finalize :: "(string \<Rightarrow> string \<Rightarrow> string) \<Rightarrow> gtime \<Rightarrow> store \<Rightarrow> world \<Rightarrow> (goerr + path) \<times> store \<times> world" where
  "store_finalize gz first_ts s w =
     (if is_zero first_ts then
        (case sys_stat CStat (part_of s) w of
           (StatOk n mtime, w) \<Rightarrow>
             (let (ts, w) = first_timestamp (part_of s) mtime w in finalize_at gz ts s w)
         | (StatFailed, w) \<Rightarrow> (Inl io_error, s, w)
         | (StatAbsent, w) \<Rightarrow> (Inl err_not_exist, s, w))
      else finalize_at gz first_ts s w)"

definition store_rotate :: "(string \<Rightarrow> string \<Rightarrow> string) \<Rightarrow> store \<Rightarrow> world \<Rightarrow> goerr option \<times> store \<times> world" where
  "store_rotate gz s w =
     (if \<not> ar_open s then (None, s, w)
      else
        let first_ts = ar_first_ts s; s = forget_file s in
        case sys_plain CClose w of
          (Some e, w) \<Rightarrow> (Some (Wrap ''close'' [e]), s, w)
        | (None, w) \<Rightarrow>
            (case sys_stat CStat (part_of s) w of
               (StatOk info mtime, w) \<Rightarrow>
                 (case cut_partial_line (part_of s) info w of
                    (Inl e, w) \<Rightarrow> (Some (Wrap ''repair'' [e]), s, w)
                  | (Inr sz, w) \<Rightarrow>
                      if sz = 0 then
                        (case sys_remove (part_of s) w of
                           (Some e, w) \<Rightarrow> (if is_sentinel ''file does not exist'' e then None else Some e, s, w)
                         | (None, w) \<Rightarrow> (None, s, w))
                      else
                        (case store_finalize gz first_ts s w of
                           (Inl e, s, w) \<Rightarrow> (Some e, s, w)
                         | (Inr target, s, w) \<Rightarrow> (None, s, w)))
             | (_, w) \<Rightarrow> (Some (Wrap ''stat'' [io_error]), s, w)))"

text \<open>The line is written to the open file; \<open>ts\<close> is the time the event was received.\<close>

definition append_line :: "string \<Rightarrow> gtime \<Rightarrow> gtime \<Rightarrow> store \<Rightarrow> world \<Rightarrow> goerr option \<times> store \<times> world" where
  "append_line line ts now s w = (case sys_write (part_of s) line w of
     ((n, Some e), w) \<Rightarrow> (let (s, w) = abandon n s w in (Some (Wrap ''write archive record'' [e]), s, w))
   | ((n, None), w) \<Rightarrow>
       (case sys_sync (part_of s) w of
          (Some e, w) \<Rightarrow> (let (s, w) = abandon n s w in (Some (Wrap ''fsync archive record'' [e]), s, w))
        | (None, w) \<Rightarrow>
            let s = (if ar_size s = 0 then s\<lparr>ar_first_ts := ts, ar_opened_at := now\<rparr> else s)
            in (None, s\<lparr>ar_size := ar_size s + n\<rparr>, w)))"

definition store_ready :: "(string \<Rightarrow> string \<Rightarrow> string) \<Rightarrow> nat \<Rightarrow> gtime \<Rightarrow> store \<Rightarrow> world \<Rightarrow> goerr option \<times> store \<times> world" where
  "store_ready gz n now s w =
     (case (if ar_open s then (None, s, w) else store_open now s w) of
        (Some e, s, w) \<Rightarrow> (Some e, s, w)
      | (None, s, w) \<Rightarrow>
          if should_rotate n now s then
            (case store_rotate gz s w of
               (Some e, s, w) \<Rightarrow> (Some (Wrap ''rotate archive'' [e]), s, w)
             | (None, s, w) \<Rightarrow> store_open now s w)
          else (None, s, w))"

definition store_append ::
  "(string \<Rightarrow> string \<Rightarrow> string) \<Rightarrow> goerr option \<Rightarrow> gtime \<Rightarrow> envelope \<Rightarrow> store \<Rightarrow> world \<Rightarrow> goerr option \<times> store \<times> world" where
  "store_append gz ctx_err now env s w = (case ctx_err of
     Some e \<Rightarrow> (Some e, s, w)
   | None \<Rightarrow>
       (case arch_encode env of
          Inl e \<Rightarrow> (Some e, s, w)
        | Inr line \<Rightarrow>
            if ar_closed s then (Some (Msg ''archive store is closed''), s, w)
            else (case store_ready gz (length line) now s w of
                (Some e, s, w) \<Rightarrow> (Some e, s, w)
              | (None, s, w) \<Rightarrow> append_line line (received_at env) now s w)))"

definition store_close :: "(string \<Rightarrow> string \<Rightarrow> string) \<Rightarrow> store \<Rightarrow> world \<Rightarrow> goerr option \<times> store \<times> world" where
  "store_close gz s w =
     (if ar_closed s then (ar_close_err s, s, w)
      else (case store_rotate gz (s\<lparr>ar_closed := True\<rparr>) w of
          (Some e, s, w) \<Rightarrow> (let e = Wrap ''finalize archive'' [e] in (Some e, s\<lparr>ar_close_err := Some e\<rparr>, w))
        | (None, s, w) \<Rightarrow> (ar_close_err s, s, w)))"

section \<open>Opening and repair\<close>

fun remove_all :: "path list \<Rightarrow> world \<Rightarrow> goerr option \<times> world" where
  "remove_all [] w = (None, w)"
| "remove_all (p # ps) w = (case sys_remove p w of
     (Some e, w) \<Rightarrow> (Some e, w) | (None, w) \<Rightarrow> remove_all ps w)"

fun compress_all :: "(string \<Rightarrow> string \<Rightarrow> string) \<Rightarrow> path list \<Rightarrow> world \<Rightarrow> world" where
  "compress_all gz [] w = w"
| "compress_all gz (p # ps) w = compress_all gz ps (snd (compress_file gz p w))"

definition paths_of_kind :: "string \<Rightarrow> final_kind \<Rightarrow> world \<Rightarrow> path list" where
  "paths_of_kind prefix k w = filter (\<lambda>p. final_kind_of prefix (snd p) = Some k) (map fst (w_files w))"

definition store_sweep :: "(string \<Rightarrow> string \<Rightarrow> string) \<Rightarrow> store_options \<Rightarrow> world \<Rightarrow> goerr option \<times> world" where
  "store_sweep gz o' w = (case sys_plain CWalk w of
     (Some e, w) \<Rightarrow> (Some e, w)
   | (None, w) \<Rightarrow>
       let plain = paths_of_kind (so_prefix o') FPlain w in
       (case remove_all (paths_of_kind (so_prefix o') FTmp w) w of
          (Some e, w) \<Rightarrow> (Some e, w)
        | (None, w) \<Rightarrow> (None, if so_compress o' \<noteq> compress_gzip then w else compress_all gz plain w)))"

definition store_recover :: "(string \<Rightarrow> string \<Rightarrow> string) \<Rightarrow> store \<Rightarrow> world \<Rightarrow> goerr option \<times> store \<times> world" where
  "store_recover gz s w =
     (let sweep = (\<lambda>s w. case store_sweep gz (ar_opts s) w of (e, w) \<Rightarrow> (e, s, w))
      in case sys_stat CStat (part_of s) w of
           (StatAbsent, w) \<Rightarrow> sweep s w
         | (StatFailed, w) \<Rightarrow> (Some io_error, s, w)
         | (StatOk info mtime, w) \<Rightarrow>
             (case cut_partial_line (part_of s) info w of
                (Inl e, w) \<Rightarrow> (Some (Wrap ''repair'' [e]), s, w)
              | (Inr sz, w) \<Rightarrow>
                  if sz = 0 then
                    (case sys_remove (part_of s) w of
                       (Some e, w) \<Rightarrow> (Some e, s, w) | (None, w) \<Rightarrow> sweep s w)
                  else
                    (case store_finalize gz 0 s w of
                       (Inl e, s, w) \<Rightarrow> (Some (Wrap ''finalize'' [e]), s, w)
                     | (Inr target, s, w) \<Rightarrow> sweep s w)))"

text \<open>\<open>filepath.Base\<close> of a non-empty name is the name itself when it has no separator, or is one.\<close>

definition single_element :: "string \<Rightarrow> bool" where
  "single_element p \<longleftrightarrow> p \<noteq> [] \<and> (p = ''/'' \<or> CHR ''/'' \<notin> set p) \<and> p \<noteq> ''.'' \<and> p \<noteq> ''..''"

definition new_store :: "store_options \<Rightarrow> store" where
  "new_store o' = \<lparr>ar_opts = o', ar_open = False, ar_size = 0, ar_opened_at = 0, ar_first_ts = 0, ar_seq = 0,
     ar_closed = False, ar_close_err = None\<rparr>"

definition open_store :: "(string \<Rightarrow> string \<Rightarrow> string) \<Rightarrow> store_options \<Rightarrow> world \<Rightarrow> (goerr + store) \<times> world" where
  "open_store gz o' w =
     (if so_dir o' = [] then (Inl (Msg ''archive store: dir is required''), w)
      else if \<not> single_element (so_prefix o') then (Inl (Msg ''archive store: prefix must be a single path element''), w)
      else
        let o' = (if so_compress o' = [] then o'\<lparr>so_compress := compress_none\<rparr> else o') in
        if so_compress o' \<noteq> compress_none \<and> so_compress o' \<noteq> compress_gzip
        then (Inl (Msg ''archive store: unknown compression''), w)
        else if so_rotate_size o' < 0 \<or> so_rotate_every o' < 0
        then (Inl (Msg ''archive store: rotation thresholds must not be negative''), w)
        else case sys_plain CMkdir w of
          (Some e, w) \<Rightarrow> (Inl (Wrap ''archive store'' [e]), w)
        | (None, w) \<Rightarrow>
            (case store_recover gz (new_store o') w of
               (Some e, s, w) \<Rightarrow> (Inl (Wrap ''archive store: recover'' [e]), w)
             | (None, s, w) \<Rightarrow> (Inr s, w)))"

section \<open>The sink\<close>

text \<open>\<open>Process\<close> of the archive class over a store; the answers are the context's error and the clock.\<close>

definition archive_process ::
  "(string \<Rightarrow> string \<Rightarrow> string) \<Rightarrow> goerr option \<times> gtime \<Rightarrow> envelope \<Rightarrow> store \<times> world \<Rightarrow> goerr option \<times> store \<times> world" where
  "archive_process gz ans env sw =
     (case store_append gz (fst ans) (snd ans) env (fst sw) (snd sw) of
        (Some e, s, w) \<Rightarrow> (Some (Wrap ''archive'' [e]), s, w)
      | (None, s, w) \<Rightarrow> (None, s, w))"

section \<open>The filesystem driver\<close>

record fs_config =
  fsc_dir :: string
  fsc_compress :: string
  fsc_rotate_size :: int
  fsc_rotate_every :: duration

definition fs_default_config :: fs_config where
  "fs_default_config = \<lparr>fsc_dir = [], fsc_compress = compress_none, fsc_rotate_size = 128 * 1048576,
     fsc_rotate_every = hour\<rparr>"

definition fs_validate :: "fs_config \<Rightarrow> goerr option" where
  "fs_validate c = join_errs
     ((if fsc_dir c = [] then [Msg ''dir is required''] else []) @
      (case parse_compression (fsc_compress c) of Inl e \<Rightarrow> [e] | Inr x \<Rightarrow> []) @
      (if fsc_rotate_size c < 0 then [Msg ''rotate_size must not be negative''] else []) @
      (if fsc_rotate_every c < 0 then [Msg ''rotate_every must not be negative''] else []))"

definition fs_factory ::
  "(string \<Rightarrow> string \<Rightarrow> string) \<Rightarrow> string \<Rightarrow> goerr + fs_config \<Rightarrow> world \<Rightarrow> (goerr + store) \<times> world" where
  "fs_factory gz name described w = (case described of
     Inl e \<Rightarrow> (Inl e, w)
   | Inr cfg \<Rightarrow>
       (case fs_validate cfg of
          Some e \<Rightarrow> (Inl e, w)
        | None \<Rightarrow> open_store gz \<lparr>so_dir = fsc_dir cfg, so_prefix = name,
            so_compress = (case parse_compression (fsc_compress cfg) of Inl e \<Rightarrow> [] | Inr x \<Rightarrow> x),
            so_rotate_size = fsc_rotate_size cfg, so_rotate_every = fsc_rotate_every cfg\<rparr> w))"

end
