(* ===== verification/ArchiveLines.thy ===== *)
theory ArchiveLines
  imports ArchiveStore
begin

text \<open>
  The complete lines of a file's content, how they behave under appending, cutting and crashes, and when a
  line is found behind lines of the store only.
\<close>

section \<open>Complete lines\<close>

text \<open>\<open>lines_from acc s\<close> are the complete lines of \<open>s\<close>, the first one continuing \<open>acc\<close>.\<close>

fun lines_from :: "string \<Rightarrow> string \<Rightarrow> string list" where
  "lines_from acc [] = []"
| "lines_from acc (c # s) = (if c = newline then (acc @ [c]) # lines_from [] s else lines_from (acc @ [c]) s)"

definition complete_lines :: "string \<Rightarrow> string list" where "complete_lines s = lines_from [] s"

text \<open>What follows the last newline.\<close>

definition open_line :: "string \<Rightarrow> string" where
  "open_line s = rev (takeWhile (\<lambda>c. c \<noteq> newline) (rev s))"

definition ends_line :: "string \<Rightarrow> bool" where "ends_line s \<longleftrightarrow> open_line s = []"

lemma whole_open: "whole_lines s @ open_line s = s"
  by (simp add: whole_lines_def open_line_def flip: rev_append)

lemma open_line_free: "newline \<notin> set (open_line s)"
  by (auto simp: open_line_def dest: set_takeWhileD)

lemma open_line_no_newline: "newline \<notin> set s \<Longrightarrow> open_line s = s"
proof -
  assume "newline \<notin> set s"
  then have "takeWhile (\<lambda>c. c \<noteq> newline) (rev s) = rev s" by (auto simp: takeWhile_eq_all_conv)
  then show ?thesis by (simp only: open_line_def rev_rev_ident)
qed

lemma lines_from_free: "newline \<notin> set s \<Longrightarrow> lines_from acc s = []"
  by (induction s arbitrary: acc) auto

lemma whole_lines_snoc: "whole_lines (s @ [c]) = (if c = newline then s @ [c] else whole_lines s)"
  by (simp add: whole_lines_def)

lemma open_line_snoc: "open_line (s @ [c]) = (if c = newline then [] else open_line s @ [c])"
  by (simp add: open_line_def)

lemma lines_from_append:
  "lines_from acc (s @ t) = lines_from acc s @ lines_from (if newline \<in> set s then open_line s else acc @ s) t"
proof (induction s arbitrary: t rule: rev_induct)
  case (snoc c s)
  have "lines_from acc (s @ c # t) = lines_from acc s @ lines_from (if newline \<in> set s then open_line s else acc @ s) (c # t)"
    using snoc [of "c # t"] .
  moreover have "lines_from acc (s @ [c]) = lines_from acc s @ lines_from (if newline \<in> set s then open_line s else acc @ s) [c]"
    using snoc [of "[c]"] .
  ultimately show ?case by (auto simp: open_line_snoc open_line_no_newline)
qed simp

lemma complete_lines_append: "complete_lines (s @ t) = complete_lines s @ lines_from (open_line s) t"
  using open_line_no_newline [of s] by (auto simp: complete_lines_def lines_from_append [of "[]" s t])

lemma complete_lines_whole [simp]: "complete_lines (whole_lines s) = complete_lines s"
proof -
  have "complete_lines s = complete_lines (whole_lines s @ open_line s)" by (simp add: whole_open)
  also have "\<dots> = complete_lines (whole_lines s)"
    by (simp add: complete_lines_append lines_from_free [OF open_line_free])
  finally show ?thesis by simp
qed

lemma complete_lines_Nil [simp]: "complete_lines [] = []"
  by (simp add: complete_lines_def)

lemma ends_line_whole [simp]: "ends_line (whole_lines s)"
  by (induction s rule: rev_induct) (auto simp: ends_line_def whole_lines_snoc open_line_snoc,
    simp_all add: whole_lines_def open_line_def)

lemma whole_lines_id: "whole_lines s = s \<longleftrightarrow> ends_line s"
  using whole_open [of s] by (metis append_self_conv ends_line_def)

lemma whole_lines_take: "whole_lines s = take (length (whole_lines s)) s"
  by (metis append_eq_conv_conj whole_open)

lemma length_whole_lines: "length (whole_lines s) \<le> length s"
  by (metis le_add1 length_append whole_open)

lemma length_whole_lines_eq: "length (whole_lines s) = length s \<longleftrightarrow> ends_line s"
  by (metis length_whole_lines take_all_iff whole_lines_id whole_lines_take le_refl)

text \<open>The backward search in chunks finds the end of the whole lines.\<close>

lemma whole_lines_append: "whole_lines (s @ t) = (if newline \<in> set t then s @ whole_lines t else whole_lines s)"
  by (induction t rule: rev_induct) (auto simp: whole_lines_snoc simp flip: append_assoc)

lemma newline_before_whole:
  "i \<le> length buf \<Longrightarrow> newline_before buf i =
     (if newline \<in> set (take i buf) then Some (length (whole_lines (take i buf)) - 1) else None)"
proof (induction i)
  case (Suc i)
  then have "take (Suc i) buf = take i buf @ [buf ! i]" by (simp add: take_Suc_conv_app_nth)
  with Suc show ?case by (auto simp: whole_lines_snoc)
qed simp

lemma whole_lines_pos: "newline \<in> set s \<Longrightarrow> 0 < length (whole_lines s)"
  by (auto simp: whole_lines_def dropWhile_eq_Nil_conv)

lemma last_newline_whole: "pos \<le> length c \<Longrightarrow> last_newline c pos = length (whole_lines (take pos c))"
proof (induction c pos rule: last_newline.induct)
  case (1 c pos)
  show ?case
  proof (cases "pos = 0")
    case False
    define n where "n = (if int pos < read_chunk then pos else nat read_chunk)"
    define p where "p = pos - n"
    define buf where "buf = take n (drop p c)"
    have n: "n \<le> pos" by (simp add: n_def read_chunk_def)
    then have split: "take pos c = take p c @ buf" and len: "length buf = n" "length (take p c) = p"
      using 1(2) by (simp_all add: p_def buf_def take_add [symmetric])
    have eq: "last_newline c pos = (case newline_before buf n of Some i \<Rightarrow> p + i + 1 | None \<Rightarrow> last_newline c p)"
      using False by (subst last_newline.simps) (unfold Let_def buf_def p_def n_def, simp)
    have nb: "newline_before buf n = (if newline \<in> set buf then Some (length (whole_lines buf) - 1) else None)"
      using newline_before_whole [of n buf] len by simp
    show ?thesis
    proof (cases "newline \<in> set buf")
      case True
      with eq nb whole_lines_pos [OF True] len show ?thesis unfolding split by (simp add: whole_lines_append)
    next
      case none: False
      have "last_newline c p = length (whole_lines (take p c))"
        using "1.IH" [OF False n_def p_def] nb none 1(2) n unfolding buf_def [symmetric] by (simp add: p_def)
      with eq nb none show ?thesis unfolding split by (simp add: whole_lines_append)
    qed
  qed (simp add: last_newline.simps whole_lines_def)
qed

text \<open>A line of the store: one newline, at its end.\<close>

definition one_line :: "string \<Rightarrow> bool" where
  "one_line l \<longleftrightarrow> (\<exists>b. l = b @ [newline] \<and> newline \<notin> set b)"

lemma lines_from_one: "newline \<notin> set b \<Longrightarrow> lines_from acc (b @ [newline]) = [acc @ b @ [newline]]"
  by (induction b arbitrary: acc) auto

lemma complete_lines_line:
  "ends_line c \<Longrightarrow> one_line l \<Longrightarrow> complete_lines (c @ l) = complete_lines c @ [l]"
  by (auto simp: complete_lines_append ends_line_def one_line_def lines_from_one)

lemma ends_line_line: "one_line l \<Longrightarrow> ends_line (c @ l)"
  by (auto simp: one_line_def ends_line_def open_line_def)

lemma complete_lines_take:
  "ends_line c \<Longrightarrow> one_line l \<Longrightarrow> set (complete_lines (c @ take n l)) \<subseteq> insert l (set (complete_lines c))"
proof -
  assume c: "ends_line c" and l: "one_line l"
  then obtain b where b: "l = b @ [newline]" "newline \<notin> set b" by (auto simp: one_line_def)
  show ?thesis
  proof (cases "n \<le> length b")
    case True
    then have "newline \<notin> set (take n l)" using b by (auto dest: in_set_takeD)
    then show ?thesis using c by (auto simp: complete_lines_append ends_line_def lines_from_free)
  next
    case False
    then have "take n l = l" using b by simp
    then show ?thesis using complete_lines_line [OF c l] by auto
  qed
qed

section \<open>Prefixes\<close>

lemma common_prefix_split: "\<exists>a b. x = common_prefix x y @ a \<and> y = common_prefix x y @ b"
  by (induction x y rule: common_prefix.induct) auto

lemma common_prefix_append: "\<exists>a. common_prefix (x @ u) y = common_prefix x y @ a"
  by (induction x y rule: common_prefix.induct) auto

lemma common_prefix_self [simp]: "common_prefix x x = x"
  by (induction x) auto

lemma common_prefix_greatest: "x = p @ a \<Longrightarrow> y = p @ b \<Longrightarrow> \<exists>r. common_prefix x y = p @ r"
  by (induction p arbitrary: x y) auto

text \<open>Cutting the content to its whole lines costs no complete line of the safe bytes.\<close>

lemma common_prefix_whole:
  "complete_lines (common_prefix (whole_lines x) y) = complete_lines (common_prefix x y) @
     drop (length (complete_lines (common_prefix x y))) (complete_lines (common_prefix (whole_lines x) y))"
proof -
  let ?p = "common_prefix x y"
  obtain a b where ab: "x = ?p @ a" "y = ?p @ b" using common_prefix_split by blast
  have "whole_lines x = whole_lines ?p @ drop (length (whole_lines ?p)) (whole_lines x)"
  proof -
    have "\<exists>r. whole_lines (u @ v) = whole_lines u @ r" for u v
      by (induction v rule: rev_induct)
        (simp, metis append.assoc whole_lines_snoc whole_open)
    then obtain r where "whole_lines x = whole_lines ?p @ r" using ab(1) by metis
    then show ?thesis by simp
  qed
  moreover have "y = whole_lines ?p @ open_line ?p @ b" using ab(2) whole_open by (metis append.assoc)
  ultimately obtain r where "common_prefix (whole_lines x) y = whole_lines ?p @ r"
    using common_prefix_greatest by blast
  then have "complete_lines (common_prefix (whole_lines x) y) = complete_lines ?p @ lines_from (open_line (whole_lines ?p)) r"
    by (simp add: complete_lines_append)
  then show ?thesis by simp
qed

section \<open>Finding a line\<close>

text \<open>A line of the store: what \<open>Encode\<close> writes.\<close>

definition store_line :: "string \<Rightarrow> bool" where
  "store_line l \<longleftrightarrow> (\<exists>env. arch_encode env = Inr l)"

text \<open>The line is in the content and only lines of the store are before it.\<close>

definition has_line :: "string \<Rightarrow> string \<Rightarrow> bool" where
  "has_line l c \<longleftrightarrow> (\<exists>ls ms. complete_lines c = ls @ l # ms \<and> list_all store_line ls)"

lemma has_line_Nil [simp]: "\<not> has_line l []"
  by (simp add: has_line_def)

lemma has_line_more:
  assumes "has_line l c" and "complete_lines d = complete_lines c @ zs"
  shows "has_line l d"
proof -
  from assms(1) obtain ls ms where "complete_lines c = ls @ l # ms" "list_all store_line ls"
    by (auto simp: has_line_def)
  with assms(2) have "complete_lines d = ls @ l # (ms @ zs)" "list_all store_line ls" by simp_all
  then show ?thesis unfolding has_line_def by blast
qed

lemma has_line_append: "has_line l c \<Longrightarrow> has_line l (c @ d)"
  by (erule has_line_more) (rule complete_lines_append)

lemma has_line_whole [simp]: "has_line l (whole_lines c) \<longleftrightarrow> has_line l c"
  by (simp add: has_line_def)

lemma has_line_safe: "has_line l (safe_bytes f) \<Longrightarrow> has_line l (f_content f)"
  unfolding safe_bytes_def by (metis common_prefix_split has_line_append)

lemma has_line_common_append: "has_line l (common_prefix x y) \<Longrightarrow> has_line l (common_prefix (x @ u) y)"
  by (metis common_prefix_append has_line_append)

lemma has_line_common_whole: "has_line l (common_prefix x y) \<Longrightarrow> has_line l (common_prefix (whole_lines x) y)"
  by (erule has_line_more) (rule common_prefix_whole)

lemma has_line_last:
  assumes "ends_line c" and "one_line l" and "list_all store_line (complete_lines c)"
  shows "has_line l (c @ l)"
  using assms by (auto simp: has_line_def complete_lines_line)

end
