(* ===== verification/ArchiveKeeps.thy ===== *)
theory ArchiveKeeps
  imports ArchiveLines
begin

text \<open>
  What every operation of the archive store keeps: a line that is safely in one of its files stays in one of
  them, whichever system calls fail. A line has its home in a plain file when it is in the safe bytes, and
  in the compressed file beside it if there is one, and in a compressed file when that is synced.
\<close>

section \<open>Homes\<close>

definition is_gz :: "path \<Rightarrow> bool" where "is_gz p \<longleftrightarrow> has_suffix ''.gz'' (snd p)"
definition is_tmp :: "path \<Rightarrow> bool" where "is_tmp p \<longleftrightarrow> has_suffix tmp_suffix (snd p)"

definition in_gz :: "(string \<Rightarrow> string \<Rightarrow> string) \<Rightarrow> string \<Rightarrow> disk_file \<Rightarrow> bool" where
  "in_gz gz l f \<longleftrightarrow> f_synced f = f_content f \<and> (\<exists>n c. f_content f = gz n c \<and> has_line l c)"

definition home :: "(string \<Rightarrow> string \<Rightarrow> string) \<Rightarrow> path \<Rightarrow> world \<Rightarrow> path \<Rightarrow> string \<Rightarrow> bool" where
  "home gz part w p l \<longleftrightarrow> (\<exists>f. lookup w p = Some f \<and> \<not> is_tmp p \<and>
     (if is_gz p then in_gz gz l f
      else has_line l (safe_bytes f) \<and> (p \<noteq> part \<longrightarrow> (\<forall>g. lookup w (gz_path p) = Some g \<longrightarrow> in_gz gz l g))))"

definition kept :: "(string \<Rightarrow> string \<Rightarrow> string) \<Rightarrow> path \<Rightarrow> world \<Rightarrow> string \<Rightarrow> bool" where
  "kept gz part w l \<longleftrightarrow> (\<exists>p. home gz part w p l)"

text \<open>Nothing but time passed; the lines stay.\<close>

definition later :: "world \<Rightarrow> world \<Rightarrow> bool" where
  "later w w' \<longleftrightarrow> w_fault w' = w_fault w \<and> w_tick w \<le> w_tick w'"

definition quiet :: "world \<Rightarrow> world \<Rightarrow> bool" where
  "quiet w w' \<longleftrightarrow> w_files w' = w_files w \<and> later w w'"

definition keeps :: "(string \<Rightarrow> string \<Rightarrow> string) \<Rightarrow> path \<Rightarrow> world \<Rightarrow> world \<Rightarrow> bool" where
  "keeps gz part w w' \<longleftrightarrow> later w w' \<and> (\<forall>l. kept gz part w l \<longrightarrow> kept gz part w' l)"

lemma keptI: "home gz part w p l \<Longrightarrow> kept gz part w l"
  unfolding kept_def by blast

lemma keepsI:
  "later w w' \<Longrightarrow> (\<And>p l. home gz part w p l \<Longrightarrow> kept gz part w' l) \<Longrightarrow> keeps gz part w w'"
  unfolding keeps_def kept_def by blast

lemma later_refl [simp]: "later w w"
  by (simp add: later_def)

lemma later_trans [trans]: "later a b \<Longrightarrow> later b c \<Longrightarrow> later a c"
  by (auto simp: later_def)

lemma quiet_refl [simp]: "quiet w w"
  by (simp add: quiet_def)

lemma quiet_trans [trans]: "quiet a b \<Longrightarrow> quiet b c \<Longrightarrow> quiet a c"
  by (auto simp: quiet_def intro: later_trans)

lemma quiet_lookup: "quiet w w' \<Longrightarrow> lookup w' = lookup w"
  by (simp add: quiet_def lookup_def)

lemma quiet_keeps: "quiet w w' \<Longrightarrow> keeps gz part w w'"
  by (simp add: keeps_def kept_def home_def quiet_lookup) (simp add: quiet_def)

lemma keeps_refl [simp]: "keeps gz part w w"
  by (simp add: keeps_def)

lemma keeps_trans [trans]: "keeps gz part a b \<Longrightarrow> keeps gz part b c \<Longrightarrow> keeps gz part a c"
  by (auto simp: keeps_def intro: later_trans)

lemma lookup_put [simp]: "lookup (put_file p f w) q = (if q = p then Some f else lookup w q)"
  by (simp add: lookup_def put_file_def update_conv')

lemma lookup_del [simp]: "lookup (del_file p w) q = (if q = p then None else lookup w q)"
  by (simp add: lookup_def del_file_def delete_conv')

lemma put_del_simps [simp]:
  "w_fault (put_file p f w) = w_fault w" "w_tick (put_file p f w) = w_tick w"
  "w_fault (del_file p w) = w_fault w" "w_tick (del_file p w) = w_tick w"
  "later w (put_file p f w')  \<longleftrightarrow> later w w'" "later w (del_file p w') \<longleftrightarrow> later w w'"
  by (simp_all add: put_file_def del_file_def later_def)

lemma suffix_gz_path [simp]: "is_gz (gz_path p)" "\<not> is_tmp (gz_path p)" "is_tmp (tmp_path p)"
  by (simp_all add: is_gz_def is_tmp_def gz_path_def tmp_path_def tmp_suffix_def has_suffix_def has_prefix_def)

lemma gz_path_inj [simp]: "gz_path p = gz_path q \<longleftrightarrow> p = q"
  by (simp add: gz_path_def prod_eq_iff)

lemma part_path_plain [simp]: "\<not> is_gz (part_path o')" "\<not> is_tmp (part_path o')"
  by (simp_all add: is_gz_def is_tmp_def part_path_def part_suffix_def tmp_suffix_def has_suffix_def has_prefix_def)

lemma gz_not_plain: "\<not> is_gz q \<Longrightarrow> gz_path p \<noteq> q"
  using suffix_gz_path(1) by metis

lemma tmp_not_gz: "is_tmp q \<Longrightarrow> gz_path p \<noteq> q"
  using suffix_gz_path(2) by metis

section \<open>Changes that keep the lines\<close>

lemma keeps_tmp:
  assumes "later w w'" and "is_tmp q" and "\<And>p. p \<noteq> q \<Longrightarrow> lookup w' p = lookup w p"
  shows "keeps gz part w w'"
proof -
  have "home gz part w' p l" if "home gz part w p l" for p l
  proof -
    have "p \<noteq> q" using that assms(2) by (auto simp: home_def)
    then show ?thesis using that assms(3) tmp_not_gz [OF assms(2)] by (auto simp: home_def)
  qed
  then show ?thesis using assms(1) by (blast intro: keepsI keptI)
qed

lemma keeps_part:
  assumes "later w w'" and "\<And>p. p \<noteq> part_path o' \<Longrightarrow> lookup w' p = lookup w p"
    and "\<And>l f. lookup w (part_path o') = Some f \<Longrightarrow> has_line l (safe_bytes f) \<Longrightarrow>
      \<exists>f'. lookup w' (part_path o') = Some f' \<and> has_line l (safe_bytes f')"
  shows "keeps gz (part_path o') w w'"
proof -
  have "home gz (part_path o') w' p l" if h: "home gz (part_path o') w p l" for p l
  proof (cases "p = part_path o'")
    case True
    with h obtain f where "lookup w (part_path o') = Some f" "has_line l (safe_bytes f)"
      by (auto simp: home_def)
    with assms(3) True show ?thesis by (auto simp: home_def)
  next
    case False
    with h assms(2) gz_not_plain [of "part_path o'"] show ?thesis by (auto simp: home_def)
  qed
  then show ?thesis using assms(1) by (blast intro: keepsI keptI)
qed

lemma keeps_rename:
  assumes "later w w'" and "lookup w (part_path o') = Some f" and "lookup w t = None" and "lookup w (gz_path t) = None"
    and "\<not> is_gz t" and "\<not> is_tmp t" and "t \<noteq> part_path o'"
    and "lookup w' t = Some f" and "\<And>p. p \<noteq> t \<Longrightarrow> p \<noteq> part_path o' \<Longrightarrow> lookup w' p = lookup w p"
  shows "keeps gz (part_path o') w w'"
proof -
  have gz: "lookup w' (gz_path p) = lookup w (gz_path p)" for p
    using gz_not_plain [OF assms(5)] gz_not_plain [of "part_path o'"] assms(9) by simp
  have "kept gz (part_path o') w' l" if h: "home gz (part_path o') w p l" for p l
  proof (cases "p = part_path o'")
    case True
    with h assms(2) have "has_line l (safe_bytes f)" by (auto simp: home_def)
    then have "home gz (part_path o') w' t l" using assms gz by (auto simp: home_def)
    then show ?thesis by (rule keptI)
  next
    case False
    moreover have "p \<noteq> t" using h assms(3) by (auto simp: home_def)
    ultimately have "home gz (part_path o') w' p l" using h assms(9) gz by (auto simp: home_def)
    then show ?thesis by (rule keptI)
  qed
  then show ?thesis by (rule keepsI [OF assms(1)])
qed

lemma keeps_gzip:
  assumes "later w w'" and "lookup w p0 = Some f" and "\<not> is_gz p0"
    and "lookup w (gz_path p0) = None" and "is_tmp t"
    and "lookup w' (gz_path p0) = Some g" and "f_synced g = f_content g" and "f_content g = gz n (f_content f)"
    and "\<And>p. p \<noteq> gz_path p0 \<Longrightarrow> p \<noteq> t \<Longrightarrow> lookup w' p = lookup w p"
  shows "keeps gz part w w'"
proof -
  have "home gz part w' p l" if h: "home gz part w p l" for p l
  proof -
    have p: "p \<noteq> t" "p \<noteq> gz_path p0" using h assms(4,5) by (auto simp: home_def)
    then have same: "lookup w' p = lookup w p" by (simp add: assms(9))
    show ?thesis
    proof (cases "is_gz p")
      case True
      with h same show ?thesis by (auto simp: home_def)
    next
      case plain: False
      show ?thesis
      proof (cases "p = p0")
        case True
        with h assms(2,3) have "has_line l (safe_bytes f)" by (auto simp: home_def)
        then have "in_gz gz l g" using assms(7,8) has_line_safe by (auto simp: in_gz_def)
        with h same True assms(6) show ?thesis by (auto simp: home_def)
      next
        case False
        then have "lookup w' (gz_path p) = lookup w (gz_path p)"
          using tmp_not_gz [OF assms(5)] assms(9) by simp
        with h same show ?thesis by (auto simp: home_def)
      qed
    qed
  qed
  then show ?thesis using assms(1) by (blast intro: keepsI keptI)
qed

lemma keeps_remove_plain:
  assumes "later w w'" and "\<not> is_gz p0" and "p0 \<noteq> part" and "lookup w (gz_path p0) \<noteq> None"
    and "\<And>p. p \<noteq> p0 \<Longrightarrow> lookup w' p = lookup w p"
  shows "keeps gz part w w'"
proof -
  have gz: "lookup w' (gz_path p) = lookup w (gz_path p)" for p
    using gz_not_plain [OF assms(2)] assms(5) by simp
  have "kept gz part w' l" if h: "home gz part w p l" for p l
  proof (cases "p = p0")
    case True
    from assms(4) obtain g where g: "lookup w (gz_path p0) = Some g" by blast
    with h True assms(2,3) have "in_gz gz l g" by (auto simp: home_def)
    with g gz have "home gz part w' (gz_path p0) l" by (simp add: home_def)
    then show ?thesis by (rule keptI)
  next
    case False
    with h gz assms(5) have "home gz part w' p l" by (auto simp: home_def)
    then show ?thesis by (rule keptI)
  qed
  then show ?thesis by (rule keepsI [OF assms(1)])
qed

section \<open>System calls\<close>

text \<open>A dead machine: every call fails without effect. An existence test fails only on a dying machine.\<close>

definition dead :: "world \<Rightarrow> bool" where
  "dead w \<longleftrightarrow> (\<forall>k n. w_tick w \<le> n \<longrightarrow> w_fault w k n = Some 0)"

definition honest_world :: "world \<Rightarrow> bool" where
  "honest_world w \<longleftrightarrow> (\<forall>n. w_fault w CExists n \<noteq> None \<longrightarrow> (\<forall>k m. n < m \<longrightarrow> w_fault w k m = Some 0))"

lemma dead_later: "dead w \<Longrightarrow> later w w' \<Longrightarrow> dead w'"
  by (auto simp: dead_def later_def)

lemma honest_later: "honest_world w \<Longrightarrow> later w w' \<Longrightarrow> honest_world w'"
  by (simp add: honest_world_def later_def)

lemma tick_simps:
  "tick k w = (f, w') \<Longrightarrow> quiet w w' \<and> (dead w \<longrightarrow> f = Some 0)"
  by (auto simp: tick_def quiet_def later_def dead_def)

lemma tick_cases:
  obtains f w' where "tick k w = (f, w')" "quiet w w'" "dead w \<Longrightarrow> f = Some 0"
  using tick_simps by (metis surj_pair)

lemma sys_plain_quiet: "sys_plain k w = (e, w') \<Longrightarrow> quiet w w'"
  by (auto simp: sys_plain_def split: prod.splits dest: tick_simps)

lemma sys_stat_quiet: "sys_stat k p w = (r, w') \<Longrightarrow> quiet w w'"
  by (auto simp: sys_stat_def split: prod.splits option.splits dest: tick_simps)

lemma sys_stat_ok: "sys_stat k p w = (StatOk n t, w') \<Longrightarrow> \<exists>f. lookup w p = Some f \<and> n = length (f_content f)"
  by (auto simp: sys_stat_def tick_def lookup_def split: prod.splits option.splits)

lemma sys_stat_absent: "sys_stat k p w = (StatAbsent, w') \<Longrightarrow> lookup w p = None"
  by (auto simp: sys_stat_def tick_def lookup_def split: prod.splits option.splits)

lemma sys_exists_quiet: "sys_exists p w = (b, w') \<Longrightarrow> quiet w w'"
  by (auto simp: sys_exists_def split: prod.splits stat_result.splits dest: sys_stat_quiet)

lemma sys_exists_true: "sys_exists p w = (True, w') \<Longrightarrow> lookup w p \<noteq> None"
  by (auto simp: sys_exists_def split: prod.splits stat_result.splits dest: sys_stat_ok)

lemma sys_exists_false: "sys_exists p w = (False, w') \<Longrightarrow> honest_world w \<Longrightarrow> lookup w p = None \<or> dead w'"
  by (auto simp: sys_exists_def sys_stat_def tick_def lookup_def honest_world_def dead_def
      split: prod.splits stat_result.splits option.splits)

lemma sys_read_quiet: "sys_read p w = (r, w') \<Longrightarrow> quiet w w'"
  by (auto simp: sys_read_def split: prod.splits option.splits dest: tick_simps)

lemma sys_read_ok: "sys_read p w = (Inr c, w') \<Longrightarrow> \<exists>f. lookup w p = Some f \<and> c = f_content f \<and> \<not> dead w"
proof (rule tick_cases [of CRead w])
  fix f w1 assume t: "tick CRead w = (f, w1)" "quiet w w1" "dead w \<Longrightarrow> f = Some 0"
  assume "sys_read p w = (Inr c, w')"
  with t show ?thesis by (cases f) (auto simp: sys_read_def quiet_lookup split: option.splits)
qed

lemma first_timestamp_quiet: "first_timestamp p m w = (t, w') \<Longrightarrow> quiet w w'"
  by (auto simp: first_timestamp_def split: prod.splits sum.splits dest: sys_read_quiet)

text \<open>The calls that change one file: how it looks afterwards, and the others the same.\<close>

definition changes :: "path \<Rightarrow> world \<Rightarrow> world \<Rightarrow> bool" where
  "changes q w w' \<longleftrightarrow> later w w' \<and> (\<forall>p. p \<noteq> q \<longrightarrow> lookup w' p = lookup w p)"

lemma changes_quiet: "quiet w w' \<Longrightarrow> changes q w w'"
  by (auto simp: changes_def quiet_lookup) (simp add: quiet_def)

lemma changes_trans [trans]: "changes q a b \<Longrightarrow> changes q b c \<Longrightarrow> changes q a c"
  by (auto simp: changes_def intro: later_trans)

lemma changes_put: "quiet w w' \<Longrightarrow> changes q w (put_file q f w')"
  by (auto simp: changes_def quiet_lookup) (simp add: quiet_def)

lemma changes_del: "quiet w w' \<Longrightarrow> changes q w (del_file q w')"
  by (auto simp: changes_def quiet_lookup) (simp add: quiet_def)

lemma changes_content: "quiet w w' \<Longrightarrow> changes q w (set_content q g w')"
  by (auto simp: set_content_def changes_quiet changes_put split: option.splits)

lemma keeps_changes_tmp: "changes q w w' \<Longrightarrow> is_tmp q \<Longrightarrow> keeps gz part w w'"
  by (auto simp: changes_def intro: keeps_tmp)

lemma sys_open_append_ok:
  assumes "sys_open_append p w = (e, w')"
  shows "changes p w w' \<and> (e \<noteq> None \<longrightarrow> quiet w w') \<and> (dead w \<longrightarrow> e \<noteq> None) \<and>
    (e = None \<longrightarrow> lookup w' p = (case lookup w p of None \<Rightarrow> Some \<lparr>f_content = [], f_synced = []\<rparr> | Some f \<Rightarrow> Some f))"
proof (rule tick_cases [of COpen w])
  fix f w1 assume t: "tick COpen w = (f, w1)" "quiet w w1" "dead w \<Longrightarrow> f = Some 0"
  with assms show ?thesis
    by (cases f) (auto simp: sys_open_append_def changes_quiet changes_put quiet_lookup split: option.splits if_splits)
qed

lemma lookup_set_content [simp]:
  "lookup (set_content q g w) p = (if p = q then map_option (\<lambda>f. f\<lparr>f_content := g (f_content f)\<rparr>) (lookup w q) else lookup w p)"
  by (auto simp: set_content_def split: option.splits)

lemma sys_write_ok:
  assumes "sys_write p s w = ((n, e), w')"
  shows "changes p w w' \<and> n \<le> length s \<and> (e = None \<longrightarrow> n = length s \<and> \<not> dead w) \<and>
    lookup w' p = map_option (\<lambda>f. f\<lparr>f_content := f_content f @ take n s\<rparr>) (lookup w p)"
proof (rule tick_cases [of CWrite w])
  fix f w1 assume t: "tick CWrite w = (f, w1)" "quiet w w1" "dead w \<Longrightarrow> f = Some 0"
  have "take (min k (length s)) s = take k s" for k by (simp add: min_def)
  with t assms show ?thesis
    by (cases f) (auto simp: sys_write_def changes_content quiet_lookup)
qed

lemma sys_sync_ok:
  assumes "sys_sync p w = (e, w')"
  shows "changes p w w' \<and> (e \<noteq> None \<longrightarrow> quiet w w') \<and> (e = None \<longrightarrow> \<not> dead w \<and>
    lookup w' p = map_option (\<lambda>f. f\<lparr>f_synced := f_content f\<rparr>) (lookup w p))"
proof (rule tick_cases [of CSync w])
  fix f w1 assume t: "tick CSync w = (f, w1)" "quiet w w1" "dead w \<Longrightarrow> f = Some 0"
  with assms show ?thesis
    by (cases f) (auto simp: sys_sync_def changes_quiet changes_put quiet_lookup split: option.splits)
qed

lemma sys_truncate_ok:
  assumes "sys_truncate p k w = (e, w')"
  shows "changes p w w' \<and> (e \<noteq> None \<longrightarrow> quiet w w' \<and> (\<exists>x. w_fault w CTruncate (w_tick w) = Some x)) \<and> (e = None \<longrightarrow>
    (\<forall>f. lookup w p = Some f \<longrightarrow> k \<le> length (f_content f) \<longrightarrow>
      lookup w' p = Some (f\<lparr>f_content := take k (f_content f)\<rparr>)))"
proof (rule tick_cases [of CTruncate w])
  fix f w1 assume t: "tick CTruncate w = (f, w1)" "quiet w w1" "dead w \<Longrightarrow> f = Some 0"
  then have "f \<noteq> None \<Longrightarrow> \<exists>x. w_fault w CTruncate (w_tick w) = Some x" by (auto simp: tick_def)
  with t assms show ?thesis
    by (cases f) (auto simp: sys_truncate_def changes_content quiet_lookup intro: changes_quiet)
qed

lemma sys_rename_ok:
  assumes "sys_rename p q w = (e, w')" and "p \<noteq> q"
  shows "later w w' \<and> (e \<noteq> None \<longrightarrow> quiet w w') \<and> (e = None \<longrightarrow> \<not> dead w \<and> lookup w p \<noteq> None \<and>
    lookup w' q = lookup w p \<and> lookup w' p = None \<and> (\<forall>r. r \<noteq> p \<longrightarrow> r \<noteq> q \<longrightarrow> lookup w' r = lookup w r))"
proof (rule tick_cases [of CRename w])
  fix f w1 assume t: "tick CRename w = (f, w1)" "quiet w w1" "dead w \<Longrightarrow> f = Some 0"
  with assms show ?thesis
    by (cases f) (auto simp: sys_rename_def quiet_lookup quiet_def lookup_def [symmetric] split: option.splits)
qed

lemma sys_remove_ok:
  assumes "sys_remove p w = (e, w')"
  shows "changes p w w' \<and> (e \<noteq> None \<longrightarrow> quiet w w' \<and> (e = Some err_not_exist \<longrightarrow> lookup w p = None)) \<and>
    (e = None \<longrightarrow> lookup w' p = None \<and> lookup w p \<noteq> None)"
proof (rule tick_cases [of CRemove w])
  fix f w1 assume t: "tick CRemove w = (f, w1)" "quiet w w1" "dead w \<Longrightarrow> f = Some 0"
  with assms show ?thesis
    by (cases f) (auto simp: sys_remove_def changes_quiet changes_del quiet_lookup io_error_def err_not_exist_def split: option.splits)
qed

lemma sys_create_ok:
  assumes "sys_create p w = (e, w')"
  shows "changes p w w' \<and> (e \<noteq> None \<longrightarrow> quiet w w') \<and>
    (e = None \<longrightarrow> lookup w' p = Some \<lparr>f_content = [], f_synced = []\<rparr>)"
proof (rule tick_cases [of CCreate w])
  fix f w1 assume t: "tick CCreate w = (f, w1)" "quiet w w1" "dead w \<Longrightarrow> f = Some 0"
  with assms show ?thesis
    by (cases f) (auto simp: sys_create_def changes_quiet changes_put)
qed

end
