(* ===== verification/GoJsonFacts.thy ===== *)
theory GoJsonFacts
  imports GoJsonEnc
begin

text \<open>
  What the JSON parser accepts, seen by the scanner of \<open>json.Compact\<close>: a value leaves the scanner outside of
  string literals, and no literal holds a raw newline. So compact JSON is a single line.
\<close>

definition nl :: char where "nl = CHR 0x0A"

text \<open>The state of the scanner after some bytes; \<open>None\<close> when a newline stood inside a literal.\<close>

fun scan_run :: "scan \<Rightarrow> string \<Rightarrow> scan option" where
  "scan_run st [] = Some st"
| "scan_run st (c # s) = (if st \<noteq> Outside \<and> c = nl then None else scan_run (scan_step st c) s)"

lemma scan_run_append: "scan_run st (u @ v) = Option.bind (scan_run st u) (\<lambda>st'. scan_run st' v)"
  by (induction st u rule: scan_run.induct) auto

lemma strip_one_line: "scan_run st s = Some Outside \<Longrightarrow> nl \<notin> set (strip st s)"
  by (induction st s rule: scan_run.induct) (auto simp: nl_def json_space_def dquote_def split: if_splits)

lemma scan_run_plain: "dquote \<notin> set s \<Longrightarrow> scan_run Outside s = Some Outside"
  by (induction s) auto

section \<open>What the parsers consume\<close>

text \<open>The parser consumed a prefix that takes the scanner from one state to the other.\<close>

definition consumed :: "scan \<Rightarrow> string \<Rightarrow> string \<Rightarrow> bool" where
  "consumed st s r \<longleftrightarrow> (\<exists>u. s = u @ r \<and> scan_run st u = Some Outside)"

lemma consumed_trans:
  "s = u @ s' \<Longrightarrow> scan_run st u = Some st' \<Longrightarrow> consumed st' s' r \<Longrightarrow> consumed st s r"
proof -
  assume s: "s = u @ s'" "scan_run st u = Some st'" and "consumed st' s' r"
  then obtain v where "s' = v @ r" "scan_run st' v = Some Outside" by (auto simp: consumed_def)
  with s have "s = (u @ v) @ r \<and> scan_run st (u @ v) = Some Outside" by (simp add: scan_run_append)
  then show ?thesis unfolding consumed_def by blast
qed

lemma consumed_refl [simp]: "consumed Outside r r"
  by (simp add: consumed_def)

lemma consumed_Outside_trans: "consumed Outside s s' \<Longrightarrow> consumed Outside s' r \<Longrightarrow> consumed Outside s r"
  by (metis consumed_def consumed_trans)

lemma consumed_char: "c \<noteq> dquote \<Longrightarrow> consumed Outside s r \<Longrightarrow> consumed Outside (c # s) r"
  by (rule consumed_trans [of _ "[c]"]) simp_all

lemma consumed_quote: "consumed InString s r \<Longrightarrow> consumed Outside (dquote # s) r"
  by (rule consumed_trans [of _ "[dquote]"]) simp_all

lemma consumed_plain: "dquote \<notin> set u \<Longrightarrow> consumed Outside (u @ r) r"
  by (auto simp: consumed_def scan_run_plain)

lemma consumed_ws: "consumed Outside (skip_ws s) r \<Longrightarrow> consumed Outside s r"
proof -
  have "s = takeWhile json_space s @ skip_ws s" by (simp add: skip_ws_def)
  moreover have "dquote \<notin> set (takeWhile json_space s)"
    by (auto simp: dquote_def json_space_def dest!: set_takeWhileD)
  ultimately show "consumed Outside (skip_ws s) r \<Longrightarrow> consumed Outside s r"
    by (metis consumed_trans scan_run_plain)
qed

lemma hex_val_in_string: "hex_val c \<noteq> None \<Longrightarrow> c \<noteq> dquote \<and> c \<noteq> bslash \<and> c \<noteq> nl"
  by (auto simp: hex_val_def dquote_def bslash_def nl_def)

lemma hex4_chars: "hex4 a b c d = Some n \<Longrightarrow> list_all (\<lambda>c. c \<noteq> dquote \<and> c \<noteq> bslash \<and> c \<noteq> nl) [a, b, c, d]"
  using hex_val_in_string by (auto simp: hex4_def split: option.splits)

lemma scan_unicode:
  "hex4 a b c d = Some n \<Longrightarrow> scan_run InString [bslash, CHR ''u'', a, b, c, d] = Some InString"
  using hex4_chars [of a b c d n] by (auto simp: bslash_def nl_def dquote_def)

lemma simple_escape_chars: "simple_escape e = Some x \<Longrightarrow> e \<noteq> nl"
  by (auto simp: simple_escape_def nl_def split: if_splits)

text \<open>One step of the parser: the closing quote, or something inside the literal and the rest.\<close>

definition string_step :: "string \<Rightarrow> string \<Rightarrow> bool" where
  "string_step s r \<longleftrightarrow> s = dquote # r \<or> (\<exists>u s' t. s = u @ s' \<and> u \<noteq> [] \<and> scan_run InString u = Some InString \<and>
     jstring s' = Some (t, r))"

lemma string_stepI:
  "u @ s' = s \<Longrightarrow> u \<noteq> [] \<Longrightarrow> scan_run InString u = Some InString \<Longrightarrow> jstring s' = Some (t, r) \<Longrightarrow> string_step s r"
  unfolding string_step_def by blast

lemma jstring_unicode_step:
  assumes "jstring (bslash # CHR ''u'' # r1) = Some (t, r)"
  shows "string_step (bslash # CHR ''u'' # r1) r"
proof -
  from assms obtain h1 h2 h3 h4 r2 n where r1: "r1 = h1 # h2 # h3 # h4 # r2" and n: "hex4 h1 h2 h3 h4 = Some n"
    by (auto simp: bslash_def split: list.splits option.splits)
  have one: "string_step (bslash # CHR ''u'' # r1) r" if "jstring r2 = Some (t', r)" for t'
    using scan_unicode [OF n] that by (intro string_stepI [of "[bslash, CHR ''u'', h1, h2, h3, h4]" r2]) (simp_all add: r1)
  have two: "string_step (bslash # CHR ''u'' # r1) r"
    if "r2 = bslash # CHR ''u'' # g1 # g2 # g3 # g4 # r3" "hex4 g1 g2 g3 g4 = Some m" "jstring r3 = Some (t', r)"
    for g1 g2 g3 g4 m r3 t'
    using scan_unicode [OF n] scan_unicode [OF that(2)] that(1,3)
    by (intro string_stepI [of "[bslash, CHR ''u'', h1, h2, h3, h4] @ [bslash, CHR ''u'', g1, g2, g3, g4]" r3])
      (simp_all only: scan_run_append bind.simps, simp_all add: r1)
  have eq: "jstring (bslash # CHR ''u'' # r1) =
     (if 55296 \<le> n \<and> n < 56320 then
        (case r2 of
           b # u # g1 # g2 # g3 # g4 # r3 \<Rightarrow>
             (case (if b = CHR 0x5C \<and> u = CHR ''u'' then hex4 g1 g2 g3 g4 else None) of
                Some m \<Rightarrow>
                  if 56320 \<le> m \<and> m < 57344
                  then map_option (\<lambda>(t, q). (utf8 (65536 + (n - 55296) * 1024 + (m - 56320)) @ t, q)) (jstring r3)
                  else map_option (\<lambda>(t, q). (utf8 65533 @ t, q)) (jstring r2)
              | None \<Rightarrow> map_option (\<lambda>(t, q). (utf8 65533 @ t, q)) (jstring r2))
         | _ \<Rightarrow> map_option (\<lambda>(t, q). (utf8 65533 @ t, q)) (jstring r2))
      else if 56320 \<le> n \<and> n < 57344 then map_option (\<lambda>(t, q). (utf8 65533 @ t, q)) (jstring r2)
      else map_option (\<lambda>(t, q). (utf8 n @ t, q)) (jstring r2))"
    by (simp only: jstring.simps r1 list.case option.case n bslash_def if_True HOL.refl) simp
  have some: "\<exists>t'. x = Some (t', r)" if "map_option (\<lambda>(t, q). (y @ t, q)) x = Some (t, r)"
    for x :: "(string \<times> string) option" and y :: string
    using that by auto
  show ?thesis
    using assms [unfolded eq] one two
    by (auto simp: bslash_def simp del: jstring.simps dest!: some split: list.splits option.splits if_splits)
qed

lemma jstring_step:
  assumes "jstring s = Some (t, r)"
  shows "string_step s r"
proof (cases s)
  case (Cons c q)
  consider "c = dquote" | "c = bslash" | "c \<noteq> dquote" "c \<noteq> bslash" by blast
  then show ?thesis
  proof cases
    case 1
    with assms Cons show ?thesis by (simp add: string_step_def dquote_def)
  next
    case 2
    with assms Cons obtain e r1 where q: "q = e # r1" by (cases q) (simp_all add: bslash_def)
    show ?thesis
    proof (cases "e = CHR ''u''")
      case True
      with assms Cons 2 q jstring_unicode_step show ?thesis by simp
    next
      case False
      with assms Cons 2 q obtain x t' where x: "simple_escape e = Some x" "jstring r1 = Some (t', r)"
        by (auto simp: bslash_def split: option.splits)
      then show ?thesis
        using simple_escape_chars [OF x(1)] Cons 2 q
        by (intro string_stepI [of "[c, e]" r1]) (auto simp: bslash_def nl_def)
    qed
  next
    case 3
    with assms Cons obtain t' where "jstring q = Some (t', r)" "\<not> (of_char c :: nat) < 32"
      by (auto simp: dquote_def bslash_def split: if_splits)
    with 3 Cons show ?thesis
      by (intro string_stepI [of "[c]" q]) (auto simp: nl_def)
  qed
qed (use assms in simp)

lemma jstring_consumed: "jstring s = Some (t, r) \<Longrightarrow> consumed InString s r"
proof (induction s arbitrary: t rule: length_induct)
  case (1 s)
  from jstring_step [OF "1.prems"] consider "s = dquote # r"
    | u s' t' where "s = u @ s'" "u \<noteq> []" "scan_run InString u = Some InString" "jstring s' = Some (t', r)"
    unfolding string_step_def by blast
  then show ?case
  proof cases
    case 1
    then have "s = [dquote] @ r \<and> scan_run InString [dquote] = Some Outside"
      by (simp add: nl_def dquote_def bslash_def)
    then show ?thesis unfolding consumed_def by blast
  next
    case (2 u s' t')
    then have "length s' < length s" by simp
    with "1.IH" 2(4) have "consumed InString s' r" by blast
    then show ?thesis by (rule consumed_trans [OF 2(1,3)])
  qed
qed

lemma jdigits_consumed: "jdigits s = Some (t, r) \<Longrightarrow> \<exists>u. s = u @ r \<and> dquote \<notin> set u"
  by (auto simp: jdigits_def Let_def is_digit_def dquote_def split: if_splits
      intro!: exI [of _ "takeWhile is_digit s"] dest!: set_takeWhileD)

section \<open>The grammar\<close>

definition plain_step :: "string \<Rightarrow> string \<Rightarrow> bool" where
  "plain_step s r \<longleftrightarrow> (\<exists>u. s = u @ r \<and> dquote \<notin> set u)"

lemma plain_step_refl [simp]: "plain_step s s"
  by (simp add: plain_step_def)

lemma plain_step_char: "c \<noteq> dquote \<Longrightarrow> plain_step s r \<Longrightarrow> plain_step (c # s) r"
  unfolding plain_step_def by (metis append_Cons set_ConsD)

lemma plain_step_trans: "plain_step s t \<Longrightarrow> plain_step t r \<Longrightarrow> plain_step s r"
  unfolding plain_step_def by (metis Un_iff append.assoc set_append)

lemma plain_step_consumed: "plain_step s r \<Longrightarrow> consumed Outside s r"
  by (auto simp: plain_step_def consumed_plain)

lemma jdigits_step: "jdigits s = Some (t, r) \<Longrightarrow> plain_step s r"
  unfolding plain_step_def by (rule jdigits_consumed)

lemma jint_step: "jint_part s = Some (t, r) \<Longrightarrow> plain_step s r"
  by (auto simp: jint_part_def dquote_def split: list.splits if_splits intro: jdigits_step plain_step_char [OF _ plain_step_refl])

lemma jfrac_step: "jfrac_part s = Some (t, r) \<Longrightarrow> plain_step s r"
  by (auto simp: jfrac_part_def dquote_def intro!: plain_step_char intro: jdigits_step split: list.splits if_splits)

lemma jexp_step: "jexp_part s = Some (t, r) \<Longrightarrow> plain_step s r"
  by (auto simp: jexp_part_def dquote_def split: list.splits if_splits
      intro: jdigits_step plain_step_char plain_step_char [OF _ plain_step_char])

lemma jnumber_step: "jnumber s = Some (t, r) \<Longrightarrow> plain_step s r"
proof -
  assume n: "jnumber s = Some (t, r)"
  obtain sg s1 where s1: "(case s of c # r \<Rightarrow> if c = CHR ''-'' then ([c], r) else ([], s) | [] \<Rightarrow> ([], s)) = (sg, s1)"
    by (meson surj_pair)
  with n obtain i s2 f s3 e where p: "jint_part s1 = Some (i, s2)" "jfrac_part s2 = Some (f, s3)" "jexp_part s3 = Some (e, r)"
    by (auto simp: jnumber_def bind_eq_Some_conv)
  have "plain_step s s1"
    using s1 by (auto simp: dquote_def intro!: plain_step_char split: list.splits if_splits)
  with p show ?thesis by (blast intro: plain_step_trans jint_step jfrac_step jexp_step)
qed

lemma word_consumed: "has_prefix w s \<Longrightarrow> dquote \<notin> set w \<Longrightarrow> consumed Outside s (drop (length w) s)"
  by (metis append_take_drop_id consumed_plain has_prefix_def)

lemma skip_ws_consumed: "skip_ws s = c # r \<Longrightarrow> c \<noteq> dquote \<Longrightarrow> consumed Outside r q \<Longrightarrow> consumed Outside s q"
  by (rule consumed_ws) (simp add: consumed_char)

lemma skip_ws_string: "skip_ws s = dquote # r \<Longrightarrow> jstring r = Some (t, q) \<Longrightarrow> consumed Outside s q"
  by (rule consumed_ws) (simp add: consumed_quote jstring_consumed)

lemma skip_ws_one: "skip_ws s = c # r \<Longrightarrow> c \<noteq> dquote \<Longrightarrow> consumed Outside s r"
  by (rule skip_ws_consumed [OF _ _ consumed_refl])

text \<open>One case of each parser, given what its callees consume.\<close>

lemma jvalue_object:
  assumes s: "skip_ws s = CHR ''{'' # q" and v: "jvalue s = Some (v, r)"
    and m: "\<forall>ms. jmembers q = Some (ms, r) \<longrightarrow> consumed Outside q r"
  shows "consumed Outside s r"
proof -
  from v s obtain d q' where q: "skip_ws q = d # q'" by (cases "skip_ws q") (simp_all add: jvalue.simps)
  have "consumed Outside q r"
  proof (cases "d = CHR ''}''")
    case True
    with v s q have "r = q'" by (simp add: jvalue.simps)
    with q True show ?thesis by (auto simp: dquote_def intro: skip_ws_one)
  next
    case False
    with v s q m show ?thesis by (auto simp: jvalue.simps)
  qed
  then show ?thesis by (intro skip_ws_consumed [OF s]) (simp_all add: dquote_def)
qed

lemma jvalue_array:
  assumes s: "skip_ws s = CHR ''['' # q" and v: "jvalue s = Some (v, r)"
    and m: "\<forall>vs. jelems q = Some (vs, r) \<longrightarrow> consumed Outside q r"
  shows "consumed Outside s r"
proof -
  from v s obtain d q' where q: "skip_ws q = d # q'" by (cases "skip_ws q") (simp_all add: jvalue.simps)
  have "consumed Outside q r"
  proof (cases "d = CHR '']''")
    case True
    with v s q have "r = q'" by (simp add: jvalue.simps)
    with q True show ?thesis by (auto simp: dquote_def intro: skip_ws_one)
  next
    case False
    with v s q m show ?thesis by (auto simp: jvalue.simps)
  qed
  then show ?thesis by (intro skip_ws_consumed [OF s]) (simp_all add: dquote_def)
qed

lemma jvalue_scalar:
  assumes s: "skip_ws s = c # q" and v: "jvalue s = Some (v, r)" and c: "c \<noteq> CHR ''{''" "c \<noteq> CHR ''[''"
  shows "consumed Outside s r"
proof (cases "c = dquote")
  case True
  with v s obtain t where "jstring q = Some (t, r)" by (auto simp: jvalue.simps dquote_def)
  with s True show ?thesis by (simp add: skip_ws_string)
next
  case False
  then have q: "c \<noteq> CHR 0x22" by (simp add: dquote_def)
  consider w where "has_prefix w (c # q)" "dquote \<notin> set w" "r = drop (length w) (c # q)"
    | t where "jnumber (c # q) = Some (t, r)"
    using v s c q by (auto simp: jvalue.simps dquote_def numeral_eq_Suc split: if_splits)
  then have "consumed Outside (c # q) r"
    by cases (use word_consumed plain_step_consumed [OF jnumber_step] in auto)
  then show ?thesis by (rule consumed_ws [of s, unfolded s])
qed

lemma jelems_step:
  assumes e: "jelems s = Some (vs, r)"
    and v: "\<forall>v r1. jvalue s = Some (v, r1) \<longrightarrow> consumed Outside s r1"
    and m: "\<forall>q vs. length q < length s \<longrightarrow> jelems q = Some (vs, r) \<longrightarrow> consumed Outside q r"
  shows "consumed Outside s r"
proof -
  from e obtain v r1 where v1: "jvalue s = Some (v, r1)" by (auto simp: jelems.simps split: option.splits)
  with e obtain d q where q: "skip_ws r1 = d # q" by (auto simp: jelems.simps split: list.splits)
  have "consumed Outside r1 r"
  proof (cases "d = CHR '','' \<and> length q < length s")
    case True
    with v1 q e obtain vs' where "jelems q = Some (vs', r)" by (auto simp: jelems.simps)
    with m True have "consumed Outside q r" by blast
    with q True show ?thesis by (auto simp: dquote_def intro: skip_ws_consumed)
  next
    case False
    with v1 q e have "d = CHR '']''" "r = q" by (auto simp: jelems.simps split: if_splits)
    with q show ?thesis by (auto simp: dquote_def intro: skip_ws_one)
  qed
  with v v1 show ?thesis by (blast intro: consumed_Outside_trans)
qed

lemma jmembers_step:
  assumes e: "jmembers s = Some (ms, r)"
    and v: "\<forall>q v r1. length q < length s \<longrightarrow> jvalue q = Some (v, r1) \<longrightarrow> consumed Outside q r1"
    and m: "\<forall>q ms. length q < length s \<longrightarrow> jmembers q = Some (ms, r) \<longrightarrow> consumed Outside q r"
  shows "consumed Outside s r"
proof -
  from e obtain q where s: "skip_ws s = CHR 0x22 # q" by (auto simp: jmembers.simps split: list.splits if_splits)
  with e obtain k r1 where k: "jstring q = Some (k, r1)" by (auto simp: jmembers.simps split: option.splits)
  with s have 1: "consumed Outside s r1" by (simp add: skip_ws_string dquote_def)
  from s k e obtain r2 where r2: "skip_ws r1 = CHR '':'' # r2" "length r2 < length s"
    by (auto simp: jmembers.simps split: list.splits if_splits)
  with s k e obtain v' r3 where v1: "jvalue r2 = Some (v', r3)" by (auto simp: jmembers.simps split: option.splits)
  with v r2 have "consumed Outside r2 r3" by blast
  with r2 have 2: "consumed Outside r1 r3" by (auto simp: dquote_def intro: skip_ws_consumed)
  from s k r2 v1 e obtain d q' where q: "skip_ws r3 = d # q'" by (auto simp: jmembers.simps split: list.splits)
  have "consumed Outside r3 r"
  proof (cases "d = CHR '','' \<and> length q' < length s")
    case True
    with s k r2 v1 e q obtain ms' where "jmembers q' = Some (ms', r)" by (auto simp: jmembers.simps)
    with m True have "consumed Outside q' r" by blast
    with q True show ?thesis by (auto simp: dquote_def intro: skip_ws_consumed)
  next
    case False
    with s k r2 v1 e q have "d = CHR ''}''" "r = q'" by (auto simp: jmembers.simps split: if_splits)
    with q show ?thesis by (auto simp: dquote_def intro: skip_ws_one)
  qed
  with 1 2 show ?thesis by (blast intro: consumed_Outside_trans)
qed

text \<open>By induction on the length; an array or object nests in a value of its own length, so values come first.\<close>

lemma json_consumed:
  "(\<forall>v r. jvalue s = Some (v, r) \<longrightarrow> consumed Outside s r) \<and>
   (\<forall>vs r. jelems s = Some (vs, r) \<longrightarrow> consumed Outside s r) \<and>
   (\<forall>ms r. jmembers s = Some (ms, r) \<longrightarrow> consumed Outside s r)"
proof (induction s rule: length_induct)
  case (1 s)
  have vals: "consumed Outside s r" if v: "jvalue s = Some (v, r)" for v r
  proof -
    from v obtain c q where s: "skip_ws s = c # q" by (cases "skip_ws s") (simp_all add: jvalue.simps)
    then have "length q < length s" by (rule skip_ws_shorter)
    with 1 have m: "\<forall>ms. jmembers q = Some (ms, r) \<longrightarrow> consumed Outside q r"
      and e: "\<forall>vs. jelems q = Some (vs, r) \<longrightarrow> consumed Outside q r" by blast+
    show ?thesis
      using jvalue_object [of s q v r] jvalue_array [of s q v r] jvalue_scalar [OF s v] s v m e by blast
  qed
  moreover have "consumed Outside s r" if "jelems s = Some (vs, r)" for vs r
    by (rule jelems_step [OF that]) (use 1 vals in blast)+
  moreover have "consumed Outside s r" if "jmembers s = Some (ms, r)" for ms r
    by (rule jmembers_step [OF that]) (use 1 in blast)+
  ultimately show ?case by blast
qed

lemma parse_scan: "parse_json s \<noteq> None \<Longrightarrow> scan_run Outside s = Some Outside"
proof -
  assume "parse_json s \<noteq> None"
  then obtain v r where "jvalue s = Some (v, r)" "skip_ws r = []"
    by (auto simp: parse_json_def split: option.splits if_splits)
  then have "consumed Outside s r" "consumed Outside r []"
    using json_consumed consumed_ws [of r "[]"] by auto
  then have "consumed Outside s []" by (rule consumed_Outside_trans)
  then show ?thesis by (auto simp: consumed_def)
qed

lemma json_compact_one_line: "json_compact s = Some t \<Longrightarrow> nl \<notin> set t"
  using parse_scan strip_one_line by (auto simp: json_compact_def split: if_splits)

end
