(* ===== verification/ArchiveEncode.thy ===== *)
theory ArchiveEncode
  imports ArchiveLines GoJsonFacts
begin

text \<open>
  Every line \<open>Encode\<close> writes is one line: the texts it is made of hold no newline.
\<close>

section \<open>One line\<close>

text \<open>Bytes of JSON text without a newline.\<close>

definition free :: "string \<Rightarrow> bool" where "free s \<longleftrightarrow> newline \<notin> set s"

lemma newline_nl: "newline = nl"
  by (simp add: newline_def nl_def)

lemma free_simps [simp]:
  "free []" "free (c # s) \<longleftrightarrow> c \<noteq> newline \<and> free s" "free (s @ t) \<longleftrightarrow> free s \<and> free t"
  by (auto simp: free_def)

lemma free_digits: "list_all is_digit s \<Longrightarrow> free s"
  by (auto simp: free_def list_all_iff is_digit_def newline_def)

lemma free_pad [simp]: "free (pad w n)"
  by (rule free_digits [OF pad_digits])

lemma free_format_int [simp]: "free (format_int i)"
  by (auto simp: free_def newline_def is_digit_def dest!: format_int_chars)

lemma free_intercalate: "list_all free ss \<Longrightarrow> free (intercalate '','' ss)"
  by (induction "'',''" ss rule: intercalate.induct) (auto simp: newline_def)

lemma of_char_newline: "(of_char newline :: nat) = 10"
  by (simp add: newline_def)

lemma hex_char_free: "n < 16 \<Longrightarrow> hex_char n \<noteq> newline"
proof
  assume n: "n < 16" and h: "hex_char n = newline"
  have "(of_char (hex_char n) :: nat) = (if n < 10 then 48 + n else 87 + n)"
    using n by (simp add: hex_char_def of_char_of)
  with h show False by (simp add: of_char_newline split: if_splits)
qed

lemma quote_byte_free: "(of_char c :: nat) < 128 \<Longrightarrow> free (quote_byte c)"
  by (auto simp: quote_byte_def Let_def of_char_newline intro!: hex_char_free)
    (auto simp: bslash_def dquote_def newline_def hex_char_free)


lemma free_byte: "128 \<le> (of_char c :: nat) \<Longrightarrow> c \<noteq> newline"
  using of_char_newline by fastforce

lemma continuation_free: "byte_in 128 191 c \<Longrightarrow> c \<noteq> newline" "second_byte b c \<Longrightarrow> c \<noteq> newline"
  by (auto simp: byte_in_def second_byte_def of_char_newline split: if_splits)

lemma rune_free:
  assumes "128 \<le> (of_char c :: nat)"
  shows "free (take (rune_len (c # r)) (c # r))"
proof -
  note len = rune_len_def Let_def continuation_free free_byte [OF assms]
  consider "r = []" | d where "r = [d]" | d e where "r = [d, e]" | d e f s where "r = d # e # f # s"
    by (metis list.exhaust)
  then show ?thesis
    by cases (use assms in \<open>simp_all add: len\<close>)
qed

lemma quote_body_free: "free (quote_body s)"
proof (induction s rule: quote_body.induct)
  case (2 c r)
  show ?case
  proof (cases "(of_char c :: nat) < 128")
    case True
    with 2(1) quote_byte_free show ?thesis by (simp add: quote_body.simps)
  next
    case False
    moreover from this have "free (take (rune_len (c # r)) (c # r))" by (simp add: rune_free)
    ultimately show ?thesis
      using 2(2-) by (auto simp: quote_body.simps Let_def hex_char_free hex_char_free [unfolded newline_def] bslash_def newline_def)
  qed
qed (simp add: quote_body.simps)

lemma free_quote [simp]: "free (json_quote s)"
  by (simp add: json_quote_def quote_body_free) (simp add: dquote_def newline_def)

lemma free_year: "free (format_year y)"
  by (auto simp: format_year_def free_digits show_digits_digits newline_def simp del: pad.simps)

lemma free_frac: "free (format_frac n)"
  by (auto simp: format_frac_def newline_def intro!: free_digits strip_zeros_digits pad_digits)

lemma free_rfc3339 [simp]: "free (format_rfc3339 t)"
  by (simp add: format_rfc3339_def Let_def free_year free_frac newline_def split: prod.splits del: pad.simps)

lemma free_member: "free t \<Longrightarrow> free (json_member k t)"
  by (simp add: json_member_def newline_def)

lemma free_members: "free raw \<Longrightarrow> list_all free (record_members env raw)"
  by (simp add: record_members_def free_member)

lemma arch_encode_line: "arch_encode env = Inr l \<Longrightarrow> one_line l"
proof -
  assume "arch_encode env = Inr l"
  then obtain raw where raw: "json_compact (payload env) = Some raw"
    and l: "l = (''{'' @ intercalate '','' (record_members env raw) @ ''}'') @ [newline]"
    by (auto simp: arch_encode_def newline_def split: if_splits option.splits)
  from raw have "free raw" by (simp add: free_def newline_nl json_compact_one_line)
  then have "free (''{'' @ intercalate '','' (record_members env raw) @ ''}'')"
    by (simp add: free_intercalate free_members newline_def)
  with l show ?thesis unfolding one_line_def free_def by blast
qed

lemma store_line_line: "store_line l \<Longrightarrow> one_line l"
  by (auto simp: store_line_def arch_encode_line)

end
