(* ===== verification/ArchiveFiles.thy ===== *)
theory ArchiveFiles
  imports ArchiveKeeps ArchiveEncode
begin

text \<open>
  The steps of the store that name and compress finalized files: the name found is free, the search for it
  ends, and compressing a file keeps every line and touches three paths only.
\<close>

declare split_paired_All [simp del] split_paired_Ex [simp del]

section \<open>Names\<close>

lemma final_name_plain [simp]:
  "\<not> is_gz (d, final_name p t n)" "\<not> is_tmp (d, final_name p t n)"
  by (simp_all add: is_gz_def is_tmp_def final_name_def arch_extension_def tmp_suffix_def has_suffix_def has_prefix_def)

lemma date_dir_nonempty [simp]: "date_dir t \<noteq> []"
  by (simp add: date_dir_def split: prod.splits)

lemma final_not_part [simp]: "(date_dir t, x) \<noteq> part_path o'"
  by (simp add: part_path_def)

text \<open>The search for a name: what it finds is free, unless the machine is dying.\<close>

lemma pick_name_ok:
  assumes "pick_name k dir day s w = Some (t, s', w')" and "honest_world w"
  shows "quiet w w' \<and> (\<exists>n. s' = s\<lparr>ar_seq := n\<rparr> \<and> t = (dir, final_name (so_prefix (ar_opts s)) day n)) \<and>
    (dead w' \<or> lookup w' t = None \<and> lookup w' (gz_path t) = None)"
  using assms
proof (induction k arbitrary: s w)
  case (Suc k)
  let ?s = "s\<lparr>ar_seq := ar_seq s + 1\<rparr>"
  let ?t = "(dir, final_name (so_prefix (ar_opts s)) day (ar_seq s + 1))"
  obtain b w1 where e1: "sys_exists ?t w = (b, w1)" by fastforce
  obtain b2 w2 where e2: "sys_exists (gz_path ?t) w1 = (b2, w2)" by fastforce
  have q: "quiet w w1" "quiet w1 w2" using e1 e2 sys_exists_quiet by blast+
  then have h: "honest_world w1" "honest_world w2"
    using Suc.prems(2) honest_later by (auto simp: quiet_def)
  have IH: ?case if "pick_name k dir day ?s v = Some (t, s', w')" "quiet w v" "honest_world v" for v
    using Suc.IH [OF that(1,3)] quiet_trans [OF that(2)] by auto
  consider "b" | "\<not> b" "b2" | "\<not> b" "\<not> b2" by blast
  then show ?case
  proof cases
    case 3
    with Suc.prems e1 e2 have r: "t = ?t" "s' = ?s" "w' = w2" by (auto simp: Let_def)
    have "lookup w ?t = None \<or> dead w1" "lookup w1 (gz_path ?t) = None \<or> dead w2"
      using 3 e1 e2 sys_exists_false [of ?t w w1] sys_exists_false [of "gz_path ?t" w1 w2] Suc.prems(2) h by simp_all
    moreover have "quiet w w2" using quiet_trans [OF q] .
    ultimately show ?thesis
      using r q dead_later [of w1 w2] by (auto simp: quiet_lookup quiet_def)
  qed (use Suc.prems e1 e2 IH q h quiet_trans [OF q] in \<open>auto simp: Let_def\<close>)
qed simp

text \<open>The search ends: every name it passes over is a file of its own.\<close>

definition taken :: "string \<Rightarrow> gtime \<Rightarrow> store \<Rightarrow> world \<Rightarrow> int \<Rightarrow> path set" where
  "taken dir day s w n = {p \<in> fst ` set (w_files w).
     p = (dir, final_name (so_prefix (ar_opts s)) day n) \<or> p = gz_path (dir, final_name (so_prefix (ar_opts s)) day n)}"

lemma taken_lookup:
  "lookup w (dir, final_name (so_prefix (ar_opts s)) day n) \<noteq> None \<or>
   lookup w (gz_path (dir, final_name (so_prefix (ar_opts s)) day n)) \<noteq> None \<Longrightarrow> taken dir day s w n \<noteq> {}"
proof -
  have "p \<in> fst ` set (w_files w)" if "lookup w p \<noteq> None" for p
    using that by (simp add: lookup_def map_of_eq_None_iff)
  then show "lookup w (dir, final_name (so_prefix (ar_opts s)) day n) \<noteq> None \<or>
     lookup w (gz_path (dir, final_name (so_prefix (ar_opts s)) day n)) \<noteq> None \<Longrightarrow> taken dir day s w n \<noteq> {}"
    unfolding taken_def by blast
qed

lemma final_name_inj: "final_name p t n = final_name p t m \<longleftrightarrow> n = m"
  by (simp add: final_name_def format_int_inj)

lemma taken_disjoint: "p \<in> taken dir day s w n \<Longrightarrow> p \<in> taken dir day s w m \<Longrightarrow> n = m"
  by (auto simp: taken_def final_name_inj gz_not_plain [OF final_name_plain(1)]
      gz_not_plain [OF final_name_plain(1), symmetric])

lemma pick_name_None:
  assumes "pick_name k dir day s w = None"
  shows "\<forall>n. ar_seq s < n \<and> n \<le> ar_seq s + int k \<longrightarrow> taken dir day s w n \<noteq> {}"
  using assms
proof (induction k arbitrary: s w)
  case (Suc k)
  let ?s = "s\<lparr>ar_seq := ar_seq s + 1\<rparr>"
  let ?t = "(dir, final_name (so_prefix (ar_opts s)) day (ar_seq s + 1))"
  obtain b w1 where e1: "sys_exists ?t w = (b, w1)" by fastforce
  obtain b2 w2 where e2: "sys_exists (gz_path ?t) w1 = (b2, w2)" by fastforce
  have q: "quiet w w1" "quiet w1 w2" using e1 e2 sys_exists_quiet by blast+
  have "\<exists>v. quiet w v \<and> pick_name k dir day ?s v = None \<and> (b \<or> b2)"
    using Suc.prems e1 e2 q quiet_trans [OF q] by (cases b; cases b2) (auto simp: Let_def)
  then obtain v where v: "quiet w v" "pick_name k dir day ?s v = None" "b \<or> b2" by blast
  have tk: "taken dir day ?s v n = taken dir day s w n" for n
    using v(1) by (simp add: taken_def quiet_def)
  have "taken dir day s w (ar_seq s + 1) \<noteq> {}"
    using v(3) e1 e2 sys_exists_true [of ?t w w1] sys_exists_true [of "gz_path ?t" w1 w2] q(1)
    by (intro taken_lookup) (auto simp: quiet_lookup)
  moreover have "taken dir day s w n \<noteq> {}" if "ar_seq s + 1 < n" "n \<le> ar_seq s + int (Suc k)" for n
    using Suc.IH [OF v(2)] that by (simp add: tk)
  ultimately show ?case by (metis add1_zle_eq order_le_less)
qed auto

lemma card_taken:
  assumes "\<forall>n \<in> N. taken dir day s w n \<noteq> {}"
  shows "card N \<le> length (w_files w)"
proof -
  obtain f where f: "\<forall>n \<in> N. f n \<in> taken dir day s w n"
    using bchoice [of N "\<lambda>n p. p \<in> taken dir day s w n"] assms by blast
  have "inj_on f N" using f taken_disjoint by (metis inj_onI)
  moreover have "f ` N \<subseteq> fst ` set (w_files w)" using f by (force simp: taken_def)
  ultimately have "card N \<le> card (fst ` set (w_files w))" by (metis card_inj_on_le finite_imageI finite_set)
  also have "\<dots> \<le> length (w_files w)" by (metis card_length length_map list.set_map)
  finally show ?thesis .
qed

lemma pick_name_ends: "pick_name (name_fuel w) dir day s w \<noteq> None"
proof
  assume "pick_name (name_fuel w) dir day s w = None"
  then have "\<forall>n \<in> {ar_seq s <.. ar_seq s + int (name_fuel w)}. taken dir day s w n \<noteq> {}"
    using pick_name_None [of "name_fuel w" dir day s w] by auto
  from card_taken [OF this] show False by (simp add: name_fuel_def)
qed

section \<open>Compression\<close>

lemma changes_later: "changes q w w' \<Longrightarrow> later w w'"
  by (simp add: changes_def)

lemma changes_other: "changes q w w' \<Longrightarrow> p \<noteq> q \<Longrightarrow> lookup w' p = lookup w p"
  by (simp add: changes_def)

lemma changes_plain: "sys_plain k w = (e, w') \<Longrightarrow> changes q w w'"
  by (rule changes_quiet [OF sys_plain_quiet])

lemma write_gzip_ok:
  assumes "write_gzip gz src dst w = (e, w')" and "src \<noteq> dst"
  shows "changes dst w w' \<and> (e = None \<longrightarrow> \<not> dead w \<and> (\<exists>f g. lookup w src = Some f \<and> lookup w' dst = Some g \<and>
    f_synced g = f_content g \<and> f_content g = gz (snd src) (f_content f)))"
proof -
  obtain r w1 where r: "sys_read src w = (r, w1)" by fastforce
  then have 1: "quiet w w1" by (rule sys_read_quiet)
  show ?thesis
  proof (cases r)
    case (Inl e')
    with assms r 1 show ?thesis by (auto simp: write_gzip_def changes_quiet)
  next
    case (Inr c)
    with r obtain f where f: "lookup w src = Some f" "c = f_content f" "\<not> dead w" using sys_read_ok by blast
    obtain e2 w2 where e2: "sys_create dst w1 = (e2, w2)" by fastforce
    note 2 = sys_create_ok [OF e2]
    obtain n e3 w3 where e3: "sys_write dst (gz (snd src) c) w2 = ((n, e3), w3)" by (metis surj_pair)
    note 3 = sys_write_ok [OF e3]
    obtain e4 w4 where e4: "sys_sync dst w3 = (e4, w4)" by fastforce
    note 4 = sys_sync_ok [OF e4]
    have pl: "changes dst v (snd (sys_plain CClose v))" for v
      using changes_plain by (metis surj_pair snd_conv)
    have c1: "changes dst w w1" using 1 by (rule changes_quiet)
    have c2: "changes dst w w2" using changes_trans [OF c1] 2 by blast
    have c3: "changes dst w w3" using changes_trans [OF c2] 3 by blast
    have c4: "changes dst w w4" using changes_trans [OF c3] 4 by blast
    note c = c1 c2 c3 c4 changes_trans [OF c3 pl] changes_trans [OF c4 pl]
    have q: "lookup (snd (sys_plain CClose w4)) = lookup w4"
      using sys_plain_quiet quiet_lookup by (metis surj_pair snd_conv)
    show ?thesis
      using assms r Inr e2 e3 e4 2 3 4 q f c
      by (auto simp: write_gzip_def split: prod.splits option.splits)
  qed
qed

lemma drop_plain:
  assumes "sys_remove plain w = (e, w')" and "\<not> is_gz plain" and "plain \<noteq> part" and "lookup w (gz_path plain) \<noteq> None"
  shows "keeps gz part w w'"
  using sys_remove_ok [OF assms(1)] keeps_remove_plain [OF _ assms(2-4)] quiet_keeps
  by (cases e) (auto simp: changes_def)

lemma snd_plain_quiet [simp]: "quiet w (snd (sys_plain k w))"
  by (metis sys_plain_quiet surj_pair snd_conv)

text \<open>Only the files of a set changed.\<close>

definition touches :: "path set \<Rightarrow> world \<Rightarrow> world \<Rightarrow> bool" where
  "touches P w w' \<longleftrightarrow> (\<forall>p. p \<notin> P \<longrightarrow> lookup w' p = lookup w p)"

lemma touches_trans [trans]: "touches P a b \<Longrightarrow> touches P b c \<Longrightarrow> touches P a c"
  by (simp add: touches_def)

lemma touches_refl [simp]: "touches P w w"
  by (simp add: touches_def)

lemma touches_quiet: "quiet w w' \<Longrightarrow> touches P w w'"
  by (simp add: touches_def quiet_lookup)

lemma touches_changes: "changes q w w' \<Longrightarrow> q \<in> P \<Longrightarrow> touches P w w'"
  by (auto simp: touches_def changes_def)

definition harmless :: "(string \<Rightarrow> string \<Rightarrow> string) \<Rightarrow> path \<Rightarrow> path set \<Rightarrow> world \<Rightarrow> world \<Rightarrow> bool" where
  "harmless gz part P w w' \<longleftrightarrow> keeps gz part w w' \<and> touches P w w'"

lemma harmless_trans [trans]: "harmless gz part P a b \<Longrightarrow> harmless gz part P b c \<Longrightarrow> harmless gz part P a c"
  by (auto simp: harmless_def intro: keeps_trans touches_trans)

lemma harmless_quiet: "quiet w w' \<Longrightarrow> harmless gz part P w w'"
  by (simp add: harmless_def quiet_keeps touches_quiet)

lemma harmless_refl [simp]: "harmless gz part P w w"
  by (simp add: harmless_quiet)

lemma harmless_tmp: "changes q w w' \<Longrightarrow> is_tmp q \<Longrightarrow> q \<in> P \<Longrightarrow> harmless gz part P w w'"
  by (simp add: harmless_def keeps_changes_tmp touches_changes)

lemma harmless_mono: "harmless gz part P w w' \<Longrightarrow> P \<subseteq> Q \<Longrightarrow> harmless gz part Q w w'"
  by (auto simp: harmless_def touches_def)

lemma harmless_later: "harmless gz part P w w' \<Longrightarrow> later w w'"
  by (simp add: harmless_def keeps_def)

lemma harmless_lookup: "harmless gz part P w w' \<Longrightarrow> p \<notin> P \<Longrightarrow> lookup w' p = lookup w p"
  by (simp add: harmless_def touches_def)

lemma harmless_drop:
  assumes "sys_remove plain w = (e, w')" and "\<not> is_gz plain" and "plain \<noteq> part"
    and "lookup w (gz_path plain) \<noteq> None" and "plain \<in> P"
  shows "harmless gz part P w w'"
  using drop_plain [OF assms(1-4)] sys_remove_ok [OF assms(1)] touches_changes [OF _ assms(5)]
  by (auto simp: harmless_def)

text \<open>Compressing a plain file keeps the lines and touches that file, its compressed and its temporary file only.\<close>

definition compress_paths :: "path \<Rightarrow> path set" where
  "compress_paths p = {p, gz_path p, tmp_path (gz_path p)}"

lemma compress_file_gzipped:
  assumes "lookup w (gz_path plain) \<noteq> None" and "\<not> is_gz plain" and "plain \<noteq> part"
    and "(case sys_remove plain w of (Some e, w) \<Rightarrow> (Some e, w) | (None, w) \<Rightarrow> (None, snd (sys_plain CSyncDir w))) = (e, w')"
  shows "harmless gz part (compress_paths plain) w w'"
proof -
  obtain e1 w1 where r: "sys_remove plain w = (e1, w1)" by fastforce
  have "harmless gz part (compress_paths plain) w w1"
    using harmless_drop [OF r assms(2,3,1)] by (simp add: compress_paths_def)
  moreover have "quiet w1 w'" using assms(4) r by (cases e1) auto
  ultimately show ?thesis using harmless_trans harmless_quiet by blast
qed

lemma compress_file_renamed:
  assumes "lookup w1 (gz_path plain) = None" and "\<not> is_gz plain" and "is_tmp tmp"
    and "sys_rename tmp (gz_path plain) w2 = (e, w3)"
    and "lookup w2 tmp = Some g" and "lookup w1 plain = Some f"
    and "f_synced g = f_content g" and "f_content g = gz n (f_content f)"
    and "e = None" and "changes tmp w1 w2" and "tmp \<in> P" and "gz_path plain \<in> P"
  shows "harmless gz part P w1 w3 \<and> lookup w3 (gz_path plain) \<noteq> None"
proof -
  have ne: "tmp \<noteq> gz_path plain" using assms(3) tmp_not_gz by metis
  note r = sys_rename_ok [OF assms(4) ne]
  have g: "lookup w3 (gz_path plain) = Some g" using r assms(5,9) by simp
  have o': "lookup w3 p = lookup w1 p" if "p \<noteq> gz_path plain" "p \<noteq> tmp" for p
    using r assms(9,10) that by (simp add: changes_other)
  have "later w1 w3" using r assms(10) later_trans changes_later by blast
  then have "keeps gz part w1 w3"
    by (rule keeps_gzip [where n = n and gz = gz, OF _ assms(6,2,1,3) g assms(7,8) o'])
  moreover have "touches P w1 w3" unfolding touches_def
    by (intro allI impI o') (use assms(11,12) in auto)
  ultimately show ?thesis using g by (simp add: harmless_def)
qed

lemma compress_tmp [simp]:
  "is_tmp (tmp_path (gz_path p))" "tmp_path (gz_path p) \<in> compress_paths p"
  "tmp_path (gz_path p) \<noteq> gz_path p" "p \<noteq> tmp_path (gz_path p)" "gz_path p \<in> compress_paths p"
  by (simp_all add: compress_paths_def) (simp_all add: tmp_path_def gz_path_def tmp_suffix_def prod_eq_iff)

lemma harmless_then_quiet: "harmless gz part P a b \<Longrightarrow> quiet b c \<Longrightarrow> harmless gz part P a c"
  using harmless_trans harmless_quiet by blast

text \<open>The copy is in the temporary file; what a failure leaves there is removed.\<close>

lemma compress_file_drop:
  "harmless gz part (compress_paths plain) w v \<Longrightarrow>
   harmless gz part (compress_paths plain) w (snd (sys_remove (tmp_path (gz_path plain)) v))"
proof (erule harmless_trans)
  obtain e v' where r: "sys_remove (tmp_path (gz_path plain)) v = (e, v')" by fastforce
  then have "changes (tmp_path (gz_path plain)) v v'" using sys_remove_ok by blast
  from harmless_tmp [OF this compress_tmp(1,2)] r
  show "harmless gz part (compress_paths plain) v (snd (sys_remove (tmp_path (gz_path plain)) v))" by simp
qed

lemma compress_file_written:
  assumes "compress_file gz plain w = (e, w')" and "honest_world w"
    and "\<not> is_gz plain" and "plain \<noteq> part"
    and b: "sys_exists (gz_path plain) w = (False, w1)"
    and z: "write_gzip gz plain (tmp_path (gz_path plain)) w1 = (None, w2)"
  shows "harmless gz part (compress_paths plain) w w'"
proof -
  let ?gzp = "gz_path plain" and ?P = "compress_paths plain"
  let ?tmp = "tmp_path ?gzp"
  note q1 = sys_exists_quiet [OF b] and z' = write_gzip_ok [OF z compress_tmp(4)]
  obtain f g where f: "\<not> dead w1" "lookup w1 plain = Some f" "lookup w2 ?tmp = Some g"
      "f_synced g = f_content g" "f_content g = gz (snd plain) (f_content f)" using z' by blast
  have free: "lookup w1 ?gzp = None"
    using sys_exists_false [OF b assms(2)] f(1) quiet_lookup [OF q1] by auto
  have h2: "harmless gz part ?P w w2"
    using harmless_trans [OF harmless_quiet [OF q1] harmless_tmp [OF conjunct1 [OF z'] compress_tmp(1,2)]] .
  obtain e3 w3 where m: "sys_rename ?tmp ?gzp w2 = (e3, w3)" by fastforce
  note ren = compress_file_renamed [where gz = gz and n = "snd plain" and P = ?P and part = part,
      OF free assms(3) compress_tmp(1) m f(3,2,4,5) _ conjunct1 [OF z'] compress_tmp(2)]
  obtain e4 w4 where d: "sys_plain CSyncDir w3 = (e4, w4)" by fastforce
  have q4: "quiet w3 w4" using d by (rule sys_plain_quiet)
  show ?thesis
  proof (cases e3)
    case (Some x)
    with assms(1) b z m have "w' = snd (sys_remove ?tmp w3)" by (auto simp: compress_file_def split: prod.splits)
    moreover have "quiet w2 w3" using Some sys_rename_ok [OF m compress_tmp(3)] by simp
    ultimately show ?thesis using compress_file_drop [OF harmless_then_quiet [OF h2]] by simp
  next
    case r: None
    with ren have h3: "harmless gz part ?P w w4" "lookup w4 ?gzp \<noteq> None"
      using harmless_trans [OF harmless_quiet [OF q1]] quiet_lookup [OF q4] harmless_then_quiet [OF _ q4] by auto
    show ?thesis
    proof (cases e4)
      case (Some x)
      with assms(1) b z m r d have "w' = w4" by (auto simp: compress_file_def)
      with h3 show ?thesis by simp
    next
      case None
      with assms(1) b z m r d have "harmless gz part ?P w4 w'"
        by (intro compress_file_gzipped [OF h3(2) assms(3,4)]) (simp add: compress_file_def)
      with h3(1) show ?thesis by (rule harmless_trans)
    qed
  qed
qed

lemma compress_file_ok:
  assumes "compress_file gz plain w = (e, w')" and "honest_world w"
    and "\<not> is_gz plain" and "plain \<noteq> part"
  shows "harmless gz part (compress_paths plain) w w'"
proof -
  let ?gzp = "gz_path plain" and ?P = "compress_paths plain"
  obtain b w1 where b: "sys_exists ?gzp w = (b, w1)" by fastforce
  note q1 = sys_exists_quiet [OF b]
  obtain e2 w2 where z: "write_gzip gz plain (tmp_path ?gzp) w1 = (e2, w2)" by fastforce
  consider "b" | x where "\<not> b" "e2 = Some x" | "\<not> b" "e2 = None" by (cases e2) blast+
  then show ?thesis
  proof cases
    case 1
    with b have "lookup w1 ?gzp \<noteq> None" using sys_exists_true quiet_lookup [OF q1] by metis
    from compress_file_gzipped [OF this assms(3,4)]
    have "harmless gz part ?P w1 w'" using assms(1) b 1 by (simp add: compress_file_def)
    with q1 show ?thesis using harmless_trans harmless_quiet by blast
  next
    case 2
    have "harmless gz part ?P w w2"
      using write_gzip_ok [OF z compress_tmp(4)]
        harmless_trans [OF harmless_quiet [OF q1] harmless_tmp [OF _ compress_tmp(1,2)]] by blast
    moreover from assms(1) b 2 z have "w' = snd (sys_remove (tmp_path ?gzp) w2)"
      by (auto simp: compress_file_def split: prod.splits)
    ultimately show ?thesis using compress_file_drop by blast
  next
    case 3
    with b z show ?thesis using compress_file_written [OF assms] by simp
  qed
qed

end
