(* ===== verification/ArchiveRotate.thy ===== *)
theory ArchiveRotate
  imports ArchiveFiles
begin

text \<open>
  Repairing, finalizing and rotating the current file: the lines stay, and when a step succeeds the current
  file is gone.
\<close>

section \<open>Cutting a partial line\<close>

text \<open>What cutting leaves of a file: its whole lines, synced or not.\<close>

definition cut_of :: "disk_file \<Rightarrow> disk_file \<Rightarrow> bool" where
  "cut_of f f' \<longleftrightarrow> f' = f \<or> f_content f' = whole_lines (f_content f) \<and>
     (f_synced f' = f_synced f \<or> f_synced f' = whole_lines (f_content f))"

lemma cut_of_lines: "cut_of f f' \<Longrightarrow> complete_lines (f_content f') = complete_lines (f_content f)"
  by (auto simp: cut_of_def)

lemma cut_of_safe: "cut_of f f' \<Longrightarrow> has_line l (safe_bytes f) \<Longrightarrow> has_line l (safe_bytes f')"
  unfolding cut_of_def safe_bytes_def
  using has_line_common_whole has_line_safe [of l f] by (auto simp: safe_bytes_def)

definition cut_file :: "path \<Rightarrow> nat \<Rightarrow> world \<Rightarrow> (goerr + nat) \<times> world" where
  "cut_file p stop w = (case sys_truncate p stop w of
     (Some e, w) \<Rightarrow> (Inl e, snd (sys_plain CClose w))
   | (None, w) \<Rightarrow>
       (case sys_sync p w of
          (Some e, w) \<Rightarrow> (Inl e, snd (sys_plain CClose w))
        | (None, w) \<Rightarrow> (Inr stop, snd (sys_plain CClose w))))"

lemma cut_file_ok:
  assumes "cut_file p (length (whole_lines (f_content f))) w = (r, w')" and l: "lookup w p = Some f"
  shows "changes p w w' \<and> (\<exists>f'. lookup w' p = Some f' \<and> cut_of f f' \<and>
    (\<forall>n. r = Inr n \<longrightarrow> f_content f' = whole_lines (f_content f) \<and> n = length (f_content f')))"
proof -
  let ?c = "f_content f" and ?fin = "\<lambda>w. snd (sys_plain CClose w)"
  obtain e1 w1 where tr: "sys_truncate p (length (whole_lines ?c)) w = (e1, w1)" by fastforce
  obtain e2 w2 where sy: "sys_sync p w1 = (e2, w2)" by fastforce
  have c: "lookup (?fin v) = lookup v" "changes p v (?fin v)" for v
    by (simp_all add: quiet_lookup changes_quiet)
  have e1: "changes p w (?fin w1)" "changes p w1 (?fin w2)"
    using sys_truncate_ok [OF tr] sys_sync_ok [OF sy] changes_trans c(2) by blast+
  then have e2: "changes p w (?fin w2)" using sys_truncate_ok [OF tr] changes_trans by blast
  have "e1 = None \<Longrightarrow> lookup w1 p = Some (f\<lparr>f_content := whole_lines ?c\<rparr>)"
    using sys_truncate_ok [OF tr] l length_whole_lines [of ?c] whole_lines_take [of ?c] by simp
  then show ?thesis
    using assms(1) tr sy e1 e2 l sys_truncate_ok [OF tr] sys_sync_ok [OF sy] quiet_lookup [of w w1] quiet_lookup [of w1 w2]
    by (cases e1; cases e2) (auto simp: cut_file_def c cut_of_def whole_lines_take [symmetric])
qed

lemma cut_partial_line_ok:
  assumes "cut_partial_line p (length (f_content f)) w = (r, w')" and "lookup w p = Some f"
  shows "changes p w w' \<and> (\<exists>f'. lookup w' p = Some f' \<and> cut_of f f' \<and>
    (\<forall>n. r = Inr n \<longrightarrow> f_content f' = whole_lines (f_content f) \<and> n = length (f_content f')))"
proof (cases "f_content f = []")
  case True
  with assms show ?thesis by (auto simp: cut_partial_line_def cut_of_def whole_lines_def changes_quiet)
next
  case ne: False
  let ?c = "f_content f"
  obtain e1 w1 where o': "sys_plain COpen w = (e1, w1)" by fastforce
  note q1 = sys_plain_quiet [OF o']
  obtain r2 w2 where rd: "sys_read p w1 = (r2, w2)" by fastforce
  note q2 = quiet_trans [OF q1 sys_read_quiet [OF rd]]
  have l2: "lookup w2 p = Some f" using assms(2) quiet_lookup [OF q2] by simp
  have idle: ?thesis if "quiet w w'" "r = Inl x \<or> r = Inr (length ?c) \<and> ends_line ?c" for x
    using that assms(2) quiet_lookup [OF that(1)] by (auto simp: cut_of_def changes_quiet whole_lines_id [symmetric])
  show ?thesis
  proof (cases "e1 = None \<and> r2 = Inr ?c \<and> \<not> ends_line ?c")
    case True
    with assms(1) ne o' rd have "cut_file p (length (whole_lines ?c)) w2 = (r, w')"
      by (simp add: cut_partial_line_def cut_file_def last_newline_whole length_whole_lines_eq Let_def)
    from cut_file_ok [OF this l2] have "changes p w2 w' \<and> (\<exists>f'. lookup w' p = Some f' \<and> cut_of f f' \<and>
        (\<forall>n. r = Inr n \<longrightarrow> f_content f' = whole_lines ?c \<and> n = length (f_content f')))" .
    then show ?thesis using changes_trans [OF changes_quiet [OF q2]] by blast
  next
    case False
    have rd': "r2 = Inr ?c \<or> (\<exists>x. r2 = Inl x)"
      using sys_read_ok [of p w1 _ w2] rd assms(2) quiet_lookup [OF q1] by (cases r2) auto
    have "quiet w w1" "quiet w (snd (sys_plain CClose w2))" using q1 quiet_trans [OF q2 snd_plain_quiet] by blast+
    then have "\<exists>x. quiet w w' \<and> (r = Inl x \<or> r = Inr (length ?c) \<and> ends_line ?c)"
      using False rd' assms(1) ne o' rd
      by (cases e1) (auto simp: cut_partial_line_def last_newline_whole length_whole_lines_eq Let_def)
    then show ?thesis using idle by blast
  qed
qed

section \<open>Finalizing\<close>

lemma final_name_path:
  "t = (date_dir day, final_name p ts n) \<Longrightarrow>
   \<not> is_gz t \<and> \<not> is_tmp t \<and> t \<noteq> part_path o' \<and> part_path o' \<notin> compress_paths t"
  using gz_not_plain [OF part_path_plain(1)]
  by (auto simp: compress_paths_def not_sym [OF final_not_part] dest: arg_cong [where f = is_tmp] arg_cong [where f = is_gz])

lemma rename_part:
  assumes "sys_rename (part_path o') t w = (None, w')" and "t = (date_dir day, final_name p ts n)"
    and "dead w \<or> lookup w t = None \<and> lookup w (gz_path t) = None"
  shows "keeps gz (part_path o') w w' \<and> lookup w' (part_path o') = None"
proof -
  note t = final_name_path [OF assms(2)]
  then have r: "later w w'" "\<not> dead w" "lookup w (part_path o') \<noteq> None" "lookup w' t = lookup w (part_path o')"
      "lookup w' (part_path o') = None" "\<And>r. r \<noteq> part_path o' \<Longrightarrow> r \<noteq> t \<Longrightarrow> lookup w' r = lookup w r"
    using sys_rename_ok [OF assms(1)] by fastforce+
  then obtain f where f: "lookup w (part_path o') = Some f" by blast
  have "keeps gz (part_path o') w w'"
    by (rule keeps_rename [OF r(1) f, of t]) (use t r f assms(3) in auto)
  with r(5) show ?thesis by blast
qed

text \<open>The file has its final name; the directories are synced and it is compressed if configured.\<close>

definition named :: "(string \<Rightarrow> string \<Rightarrow> string) \<Rightarrow> path \<Rightarrow> store \<Rightarrow> world \<Rightarrow> (goerr + path) \<times> store \<times> world" where
  "named gz target s w =
     (let w = snd (sys_plain CSyncDir (snd (sys_plain CSyncDir w))) in
      if so_compress (ar_opts s) = compress_gzip then
        (case compress_file gz target w of
           (Some e, w) \<Rightarrow> (Inr target, s, w)
         | (None, w) \<Rightarrow> (Inr (gz_path target), s, w))
      else (Inr target, s, w))"

lemma named_ok:
  assumes "named gz t s w = (r, s', w')" and "honest_world w" and "t = (date_dir day, final_name p ts n)"
    and "lookup w (part_path o') = None"
  shows "s' = s \<and> (\<exists>x. r = Inr x) \<and> keeps gz (part_path o') w w' \<and> lookup w' (part_path o') = None"
proof -
  define w1 where "w1 = snd (sys_plain CSyncDir (snd (sys_plain CSyncDir w)))"
  have q: "quiet w w1" unfolding w1_def using quiet_trans snd_plain_quiet by blast
  then have h: "honest_world w1" using assms(2) honest_later by (auto simp: quiet_def)
  obtain e2 w2 where c: "compress_file gz t w1 = (e2, w2)" by fastforce
  note t = final_name_path [OF assms(3), of o']
  from compress_file_ok [OF c h, of "part_path o'"] t
  have c2: "harmless gz (part_path o') (compress_paths t) w1 w2" by blast
  have "keeps gz (part_path o') w w2" "lookup w2 (part_path o') = None"
    using keeps_trans [OF quiet_keeps [OF q]] c2 harmless_lookup [OF c2] t assms(4) quiet_lookup [OF q]
    by (auto simp: harmless_def)
  moreover have "keeps gz (part_path o') w w1" "lookup w1 (part_path o') = None"
    using quiet_keeps [OF q] quiet_lookup [OF q] assms(4) by simp_all
  ultimately show ?thesis
    using assms(1) c by (cases e2) (auto simp: named_def w1_def [symmetric] Let_def split: if_splits)
qed

lemma finalize_at_ok:
  assumes "finalize_at gz day s w = (r, s', w')" and "honest_world w"
  shows "(\<exists>n. s' = s\<lparr>ar_seq := n\<rparr>) \<and> keeps gz (part_of s) w w' \<and>
    (case r of Inl e \<Rightarrow> quiet w w' | Inr t \<Rightarrow> lookup w' (part_of s) = None)"
proof -
  obtain e1 w1 where m: "sys_plain CMkdir w = (e1, w1)" by fastforce
  note q1 = sys_plain_quiet [OF m]
  then have h1: "honest_world w1" using assms(2) honest_later by (auto simp: quiet_def)
  show ?thesis
  proof (cases "e1 = None \<and> pick_name (name_fuel w1) (date_dir day) day s w1 \<noteq> None")
    case False
    then have "quiet w w' \<and> s' = s \<and> (\<exists>e. r = Inl e)"
      using assms(1) m q1 by (cases e1) (auto simp: finalize_at_def)
    then show ?thesis by (auto simp: quiet_keeps intro: exI [of _ "ar_seq s"])
  next
    case True
    then obtain t s2 w2 where n: "pick_name (name_fuel w1) (date_dir day) day s w1 = Some (t, s2, w2)" by auto
    from pick_name_ok [OF this h1] obtain k where
      p: "quiet w1 w2" "s2 = s\<lparr>ar_seq := k\<rparr>" "t = (date_dir day, final_name (so_prefix (ar_opts s)) day k)"
        "dead w2 \<or> lookup w2 t = None \<and> lookup w2 (gz_path t) = None" by blast
    note q2 = quiet_trans [OF q1 p(1)]
    obtain e3 w3 where rn: "sys_rename (part_of s) t w2 = (e3, w3)" by fastforce
    have "part_of s \<noteq> t" using final_name_path [OF p(3), of "ar_opts s"] by blast
    note r = sys_rename_ok [OF rn this]
    show ?thesis
    proof (cases e3)
      case (Some x)
      then have "quiet w w3" using r quiet_trans [OF q2] by blast
      with assms(1) True m n rn Some p(2) show ?thesis by (auto simp: finalize_at_def quiet_keeps)
    next
      case None
      have k: "keeps gz (part_of s) w2 w3" "lookup w3 (part_of s) = None"
        using rename_part [OF rn [unfolded None] p(3,4)] by blast+
      have h3: "honest_world w3" using r honest_later [OF h1] p(1) later_trans by (metis quiet_def)
      have "named gz t s2 w3 = (r, s', w')"
        using assms(1) True m n rn None p(2) by (auto simp: finalize_at_def named_def)
      from named_ok [OF this h3 p(3) k(2)] show ?thesis
        using p(2) keeps_trans [OF keeps_trans [OF quiet_keeps [OF q2] k(1)]] by auto
    qed
  qed
qed

section \<open>Rotation\<close>

text \<open>The current file is cut, as it was, or gone; the lines stay.\<close>

definition drained :: "(string \<Rightarrow> string \<Rightarrow> string) \<Rightarrow> store_options \<Rightarrow> world \<Rightarrow> world \<Rightarrow> bool" where
  "drained gz o' w w' \<longleftrightarrow> keeps gz (part_path o') w w' \<and>
     (\<forall>f'. lookup w' (part_path o') = Some f' \<longrightarrow> (\<exists>f. lookup w (part_path o') = Some f \<and> cut_of f f'))"

lemma drained_quiet: "quiet w w' \<Longrightarrow> drained gz o' w w'"
  by (auto simp: drained_def quiet_keeps quiet_lookup cut_of_def)

lemma drained_before: "quiet w v \<Longrightarrow> drained gz o' v w' \<Longrightarrow> drained gz o' w w'"
  by (auto simp: drained_def quiet_lookup intro: keeps_trans quiet_keeps)

lemma drained_after: "drained gz o' w v \<Longrightarrow> quiet v w' \<Longrightarrow> drained gz o' w w'"
  by (auto simp: drained_def quiet_lookup intro: keeps_trans quiet_keeps)

lemma drained_gone: "keeps gz (part_path o') w w' \<Longrightarrow> lookup w' (part_path o') = None \<Longrightarrow> drained gz o' w w'"
  by (simp add: drained_def)

lemma drained_later: "drained gz o' w w' \<Longrightarrow> later w w'"
  by (simp add: drained_def keeps_def)

lemma store_finalize_ok:
  assumes "store_finalize gz ts s w = (r, s', w')" and "honest_world w"
  shows "(\<exists>n. s' = s\<lparr>ar_seq := n\<rparr>) \<and> keeps gz (part_of s) w w' \<and>
    (case r of Inl e \<Rightarrow> quiet w w' | Inr t \<Rightarrow> lookup w' (part_of s) = None)"
proof (cases "is_zero ts")
  case False
  with assms finalize_at_ok show ?thesis by (simp add: store_finalize_def)
next
  case True
  obtain st w1 where st: "sys_stat CStat (part_of s) w = (st, w1)" by fastforce
  note q1 = sys_stat_quiet [OF st]
  show ?thesis
  proof (cases st)
    case (StatOk n m)
    obtain ts' w2 where f: "first_timestamp (part_of s) m w1 = (ts', w2)" by fastforce
    note q2 = quiet_trans [OF q1 first_timestamp_quiet [OF f]]
    then have "honest_world w2" using assms(2) honest_later by (auto simp: quiet_def)
    moreover have "finalize_at gz ts' s w2 = (r, s', w')"
      using assms(1) True st StatOk f by (simp add: store_finalize_def)
    ultimately show ?thesis
      using finalize_at_ok [of gz ts' s w2 r s' w'] keeps_trans [OF quiet_keeps [OF q2]] quiet_trans [OF q2]
      by (auto split: sum.splits)
  qed (use assms True st q1 in \<open>auto simp: store_finalize_def quiet_keeps intro: exI [of _ "ar_seq s"]\<close>)
qed

lemma cut_drained:
  assumes "cut_partial_line (part_path o') (length (f_content f)) w = (r, w')" and "lookup w (part_path o') = Some f"
  shows "drained gz o' w w'"
proof -
  from cut_partial_line_ok [OF assms] obtain f' where f': "changes (part_path o') w w'"
      "lookup w' (part_path o') = Some f'" "cut_of f f'" by blast
  have "keeps gz (part_path o') w w'"
    using f' cut_of_safe assms(2) by (intro keeps_part) (auto simp: changes_def)
  with f' assms(2) show ?thesis by (auto simp: drained_def)
qed

text \<open>What rotating and recovering do with the current file once it is closed.\<close>

definition retire :: "(string \<Rightarrow> string \<Rightarrow> string) \<Rightarrow> gtime \<Rightarrow> nat \<Rightarrow> store \<Rightarrow> world \<Rightarrow> goerr option \<times> store \<times> world" where
  "retire gz ts sz s w =
     (if sz = 0 then (case sys_remove (part_of s) w of (e, w) \<Rightarrow> (e, s, w))
      else (case store_finalize gz ts s w of (Inl e, s, w) \<Rightarrow> (Some e, s, w) | (Inr t, s, w) \<Rightarrow> (None, s, w)))"

lemma retire_ok:
  assumes "retire gz ts (length (f_content f)) s w = (e, s', w')" and "honest_world w"
    and "lookup w (part_of s) = Some f"
  shows "(\<exists>n. s' = s\<lparr>ar_seq := n\<rparr>) \<and> drained gz (ar_opts s) w w' \<and> (e = None \<longrightarrow> lookup w' (part_of s) = None)"
proof (cases "f_content f = []")
  case True
  obtain e1 w1 where r: "sys_remove (part_of s) w = (e1, w1)" by fastforce
  note r' = sys_remove_ok [OF r]
  have "keeps gz (part_of s) w w1" if "e1 = None"
    using r' that True assms(3) by (intro keeps_part) (auto simp: changes_def safe_bytes_def)
  with True assms r r' show ?thesis
    by (cases e1) (auto simp: retire_def drained_quiet drained_gone intro: exI [of _ "ar_seq s"])
next
  case False
  obtain r s1 w1 where f: "store_finalize gz ts s w = (r, s1, w1)" by (metis prod_cases3)
  show ?thesis
    using store_finalize_ok [OF f assms(2)] f assms(1) False
    by (auto simp: retire_def drained_quiet drained_gone split: sum.splits)
qed

lemma sys_remove_there: "sys_remove p w = (Some e, w') \<Longrightarrow> lookup w p \<noteq> None \<Longrightarrow> \<not> is_sentinel ''file does not exist'' e"
  by (auto simp: sys_remove_def tick_def lookup_def io_error_def is_sentinel_def split: option.splits)

text \<open>Repairing the file found and retiring it.\<close>

lemma repair_ok:
  assumes c: "cut_partial_line (part_of s) (length (f_content f)) w = (Inr sz, w1)"
    and f: "lookup w (part_of s) = Some f" and h: "honest_world w"
    and r: "retire gz ts sz s w1 = (e, s', w')"
  shows "(\<exists>n. s' = s\<lparr>ar_seq := n\<rparr>) \<and> drained gz (ar_opts s) w w' \<and> (e = None \<longrightarrow> lookup w' (part_of s) = None)"
proof -
  from cut_partial_line_ok [OF c f] obtain f' where f': "changes (part_of s) w w1" "lookup w1 (part_of s) = Some f'"
      "cut_of f f'" "f_content f' = whole_lines (f_content f)" "sz = length (f_content f')" by blast
  have d: "drained gz (ar_opts s) w w1" by (rule cut_drained [OF c f])
  then have "honest_world w1" using h honest_later drained_later by blast
  from retire_ok [OF r [unfolded f'(5)] this f'(2)]
  have s': "\<exists>n. s' = s\<lparr>ar_seq := n\<rparr>" and d': "drained gz (ar_opts s) w1 w'"
    and n: "e = None \<longrightarrow> lookup w' (part_of s) = None" by blast+
  have "cut_of f g" if "cut_of f' g" for g
    using that f'(3,4) whole_lines_id [of "whole_lines (f_content f)"] by (auto simp: cut_of_def)
  then have "drained gz (ar_opts s) w w'"
    using d d' f f'(2) by (auto simp: drained_def intro: keeps_trans)
  with s' n show ?thesis by blast
qed

lemma forget_file_simps [simp]:
  "ar_opts (forget_file s) = ar_opts s" "\<not> ar_open (forget_file s)" "ar_closed (forget_file s) = ar_closed s"
  by (simp_all add: forget_file_def)

lemma same_seq [simp]: "\<exists>n. s = s\<lparr>ar_seq := n\<rparr>"
  by (rule exI [of _ "ar_seq s"]) simp

lemma store_rotate_ok:
  assumes "store_rotate gz s w = (e, s', w')" and "honest_world w" and "ar_open s"
  shows "(\<exists>n. s' = (forget_file s)\<lparr>ar_seq := n\<rparr>) \<and> drained gz (ar_opts s) w w' \<and> (e = None \<longrightarrow> lookup w' (part_of s) = None)"
proof -
  let ?s = "forget_file s"
  obtain e1 w1 where cl: "sys_plain CClose w = (e1, w1)" by fastforce
  note q1 = sys_plain_quiet [OF cl]
  obtain st w2 where st: "sys_stat CStat (part_of s) w1 = (st, w2)" by fastforce
  note q2 = quiet_trans [OF q1 sys_stat_quiet [OF st]]
  have idle: ?thesis if "quiet w w'" "s' = ?s" "e \<noteq> None"
    using that by (auto simp: drained_quiet)
  show ?thesis
  proof (cases "e1 = None \<and> (\<exists>n m. st = StatOk n m)")
    case False
    with assms cl st q1 q2 show ?thesis
      by (intro idle) (auto simp: store_rotate_def Let_def split: option.splits stat_result.splits)
  next
    case True
    then obtain n m where ok: "e1 = None" "st = StatOk n m" by blast
    from st ok(2) obtain f where f: "lookup w1 (part_of s) = Some f" "n = length (f_content f)"
      using sys_stat_ok by blast
    then have f2: "lookup w2 (part_of ?s) = Some f" using sys_stat_quiet [OF st] by (simp add: quiet_lookup)
    have h2: "honest_world w2" using q2 assms(2) honest_later by (auto simp: quiet_def)
    obtain r w3 where c: "cut_partial_line (part_of ?s) (length (f_content f)) w2 = (r, w3)" by fastforce
    show ?thesis
    proof (cases r)
      case (Inl x)
      with assms cl st ok f(2) c have "e \<noteq> None \<and> s' = ?s \<and> w' = w3" by (auto simp: store_rotate_def Let_def)
      with drained_before [OF q2 cut_drained [OF c f2]] show ?thesis
        by auto
    next
      case (Inr sz)
      from cut_partial_line_ok [OF c f2] have "lookup w3 (part_of s) \<noteq> None" by auto
      with assms cl st ok f(2) c Inr have "retire gz (ar_first_ts s) sz ?s w3 = (e, s', w')"
        by (auto simp: store_rotate_def retire_def Let_def split: prod.splits option.splits sum.splits if_splits
            dest: sys_remove_there)
      from repair_ok [OF c [unfolded Inr] f2 h2 this] show ?thesis
        using drained_before [OF q2] by auto
    qed
  qed
qed

end
