(* ===== verification/ArchiveInv.thy ===== *)
theory ArchiveInv
  imports ArchiveRotate
begin

text \<open>
  The invariant of an archive store, and that opening the file, appending, rotating and closing keep it. An
  append that reports success leaves its line kept.
\<close>

section \<open>The invariant of a store\<close>

text \<open>Truncating fails only on a dying machine, or else files are also rotated by age.\<close>

definition honest_truncate :: "world \<Rightarrow> bool" where
  "honest_truncate w \<longleftrightarrow> (\<forall>n. w_fault w CTruncate n \<noteq> None \<longrightarrow> (\<forall>k m. n < m \<longrightarrow> w_fault w k m = Some 0))"

definition fair :: "store_options \<Rightarrow> world \<Rightarrow> bool" where
  "fair o' w \<longleftrightarrow> honest_world w \<and> (0 < so_rotate_every o' \<or> honest_truncate w)"

text \<open>The current file holds lines of the store, and at most a partial one that the next rotation cuts.\<close>

definition part_ok :: "store_options \<Rightarrow> world \<Rightarrow> bool" where
  "part_ok o' w \<longleftrightarrow> (\<forall>f. lookup w (part_path o') = Some f \<longrightarrow>
     list_all store_line (complete_lines (f_content f)) \<and>
     (ends_line (f_content f) \<or> 0 < so_rotate_every o' \<or> dead w))"

text \<open>A store with its file open knows its size and, when a partial line ends it, that it must rotate.\<close>

definition store_inv :: "store_options \<Rightarrow> store \<Rightarrow> world \<Rightarrow> bool" where
  "store_inv o' s w \<longleftrightarrow> ar_opts s = o' \<and> part_ok o' w \<and> (ar_open s \<longrightarrow> (\<exists>f. lookup w (part_path o') = Some f \<and>
     ar_size s = length (f_content f) \<and> (ends_line (f_content f) \<or> is_zero (ar_opened_at s) \<or> dead w)))"

lemma fair_later: "fair o' w \<Longrightarrow> later w w' \<Longrightarrow> fair o' w'"
  unfolding fair_def honest_truncate_def using honest_later [of w w'] by (metis later_def)

lemma fair_honest: "fair o' w \<Longrightarrow> honest_world w"
  by (simp add: fair_def)

lemma part_ok_drained: "drained gz o' w w' \<Longrightarrow> part_ok o' w \<Longrightarrow> part_ok o' w'"
  using dead_later [OF _ drained_later] ends_line_whole
  unfolding drained_def part_ok_def cut_of_def by (metis complete_lines_whole)

lemma part_ok_gone: "lookup w (part_path o') = None \<Longrightarrow> part_ok o' w"
  by (simp add: part_ok_def)

lemma store_inv_closed: "ar_opts s = o' \<Longrightarrow> \<not> ar_open s \<Longrightarrow> part_ok o' w \<Longrightarrow> store_inv o' s w"
  by (simp add: store_inv_def)

section \<open>Opening\<close>

definition fresh_file :: disk_file where "fresh_file = \<lparr>f_content = [], f_synced = []\<rparr>"

text \<open>Opening the current file creates it if it is missing.\<close>

definition touched :: "store_options \<Rightarrow> world \<Rightarrow> world \<Rightarrow> bool" where
  "touched o' w w' \<longleftrightarrow> changes (part_path o') w w' \<and> (lookup w' (part_path o') = lookup w (part_path o') \<or>
     lookup w (part_path o') = None \<and> lookup w' (part_path o') = Some fresh_file)"

lemma touched_quiet: "quiet w w' \<Longrightarrow> touched o' w w'"
  by (simp add: touched_def changes_quiet quiet_lookup)

lemma touched_after: "touched o' w v \<Longrightarrow> quiet v w' \<Longrightarrow> touched o' w w'"
  using changes_trans [OF _ changes_quiet, of _ w v w'] by (auto simp: touched_def quiet_lookup)

lemma touched_keeps: "touched o' w w' \<Longrightarrow> keeps gz (part_path o') w w'"
  by (rule keeps_part) (auto simp: touched_def changes_def)

lemma touched_part_ok: "touched o' w w' \<Longrightarrow> part_ok o' w \<Longrightarrow> part_ok o' w'"
  using dead_later [OF _ changes_later]
  by (fastforce simp: touched_def part_ok_def fresh_file_def ends_line_def open_line_def)

lemma store_open_ok:
  assumes "store_open now s w = (e, s', w')" and "\<not> ar_open s"
  shows "touched (ar_opts s) w w' \<and> ar_opts s' = ar_opts s \<and> ar_closed s' = ar_closed s \<and> (e \<noteq> None \<longrightarrow> s' = s) \<and>
    (e = None \<longrightarrow> ar_open s' \<and> (\<exists>f. lookup w' (part_of s) = Some f \<and> ar_size s' = length (f_content f) \<and>
      (f_content f = [] \<or> is_zero (ar_opened_at s')) \<and> (lookup w (part_of s) = None \<longrightarrow> f_content f = [])))"
proof -
  obtain e1 w1 where op: "sys_open_append (part_of s) w = (e1, w1)" by fastforce
  note r = sys_open_append_ok [OF op]
  have t1: "touched (ar_opts s) w w1"
    using r touched_quiet by (cases e1) (auto simp: touched_def fresh_file_def split: option.splits)
  obtain st w2 where st: "sys_stat CStat (part_of s) w1 = (st, w2)" by fastforce
  note q2 = sys_stat_quiet [OF st]
  note t2 = touched_after [OF t1 q2]
  show ?thesis
  proof (cases "e1 = None \<and> (\<exists>n m. st = StatOk n m)")
    case False
    with assms op st t1 t2 show ?thesis
      by (auto simp: store_open_def split: option.splits stat_result.splits prod.splits
          intro: touched_after dest: sys_plain_quiet)
  next
    case True
    then obtain n m where ok: "e1 = None" "st = StatOk n m" by blast
    from st ok(2) obtain f where f: "lookup w1 (part_of s) = Some f" "n = length (f_content f)"
      using sys_stat_ok by blast
    obtain ts w3 where ft: "first_timestamp (part_of s) m w2 = (ts, w3)" by fastforce
    note t3 = touched_after [OF t2 first_timestamp_quiet [OF ft]]
    have "lookup w2 = lookup w1" "lookup w3 = lookup w1"
      using quiet_lookup [OF q2] quiet_lookup [OF first_timestamp_quiet [OF ft]] by simp_all
    moreover have "lookup w (part_of s) = None \<longrightarrow> f_content f = []" using r ok f(1) by auto
    ultimately show ?thesis
      using assms op st ok f ft t2 t3 by (auto simp: store_open_def Let_def is_zero_def split: if_splits)
  qed
qed

section \<open>Appending\<close>

text \<open>The file is open and a line may be written to its end.\<close>

definition at_line_end :: "store_options \<Rightarrow> store \<Rightarrow> world \<Rightarrow> bool" where
  "at_line_end o' s w \<longleftrightarrow> ar_open s \<and> (\<exists>f. lookup w (part_path o') = Some f \<and> ar_size s = length (f_content f) \<and>
     (ends_line (f_content f) \<or> dead w))"

lemma opened_inv:
  assumes "store_open now s w = (e, s', w')" and "\<not> ar_open s" and "ar_opts s = o'" and "part_ok o' w"
  shows "store_inv o' s' w' \<and> keeps gz (part_path o') w w' \<and> ar_opts s' = o' \<and> ar_closed s' = ar_closed s \<and>
    (e = None \<longrightarrow> ar_open s' \<and> (lookup w (part_path o') = None \<longrightarrow> at_line_end o' s' w'))"
proof -
  note r = store_open_ok [OF assms(1,2)]
  have p: "part_ok o' w'" using touched_part_ok r assms(3,4) by blast
  have "ends_line []" by (simp add: ends_line_def open_line_def)
  then show ?thesis
    using r assms(2,3) p touched_keeps [of o' w w' gz] by (cases e) (auto simp: store_inv_def at_line_end_def)
qed

lemma not_rotating:
  assumes "store_inv o' s w" and "ar_open s" and "\<not> should_rotate n now s"
  shows "at_line_end o' s w"
proof -
  from assms(1,2) obtain f where f: "lookup w (part_path o') = Some f" "ar_size s = length (f_content f)"
      "ends_line (f_content f) \<or> is_zero (ar_opened_at s) \<or> dead w"
      "ends_line (f_content f) \<or> 0 < so_rotate_every o' \<or> dead w" "ar_opts s = o'"
    by (auto simp: store_inv_def part_ok_def)
  have "f_content f = [] \<Longrightarrow> ends_line (f_content f)" by (simp add: ends_line_def open_line_def)
  with f assms(2,3) show ?thesis
    by (auto simp: at_line_end_def should_rotate_def split: if_splits)
qed

lemma store_rotate_inv:
  assumes "store_rotate gz s w = (e, s', w')" and "store_inv o' s w" and "fair o' w"
  shows "store_inv o' s' w' \<and> keeps gz (part_path o') w w' \<and> ar_opts s' = o' \<and> ar_closed s' = ar_closed s \<and> \<not> ar_open s' \<and>
    (ar_open s \<longrightarrow> e = None \<longrightarrow> lookup w' (part_path o') = None)"
proof (cases "ar_open s")
  case True
  from store_rotate_ok [OF assms(1) fair_honest [OF assms(3)] True] assms(2)
  have "(\<exists>n. s' = (forget_file s)\<lparr>ar_seq := n\<rparr>) \<and> drained gz o' w w' \<and> (e = None \<longrightarrow> lookup w' (part_path o') = None)"
    by (simp add: store_inv_def)
  with assms(2) show ?thesis
    using part_ok_drained [of gz o' w w'] by (auto simp: store_inv_def drained_def)
qed (use assms in \<open>auto simp: store_rotate_def store_inv_def\<close>)

lemma store_ready_ok:
  assumes "store_ready gz n now s w = (e, s', w')" and "store_inv o' s w" and "fair o' w"
  shows "store_inv o' s' w' \<and> keeps gz (part_path o') w w' \<and> ar_closed s' = ar_closed s \<and> (e = None \<longrightarrow> at_line_end o' s' w')"
proof -
  obtain e1 s1 w1 where a: "(if ar_open s then (None, s, w) else store_open now s w) = (e1, s1, w1)" by (metis prod_cases3)
  have 1: "store_inv o' s1 w1 \<and> keeps gz (part_path o') w w1 \<and> ar_closed s1 = ar_closed s \<and> (e1 = None \<longrightarrow> ar_open s1)"
  proof (cases "ar_open s")
    case False
    with a assms(2) show ?thesis using opened_inv [of now s w e1 s1 w1 o' gz] by (simp add: store_inv_def)
  qed (use a assms(2) in auto)
  show ?thesis
  proof (cases "e1 = None \<and> should_rotate n now s1")
    case False
    with assms(1) a 1 not_rotating show ?thesis by (cases e1) (auto simp: store_ready_def)
  next
    case True
    obtain e2 s2 w2 where b: "store_rotate gz s1 w1 = (e2, s2, w2)" by (metis prod_cases3)
    have f1: "fair o' w1" using 1 fair_later [OF assms(3)] by (simp add: keeps_def)
    note 2 = store_rotate_inv [OF b conjunct1 [OF 1] f1]
    have k2: "keeps gz (part_path o') w w2" using 1 2 keeps_trans by blast
    show ?thesis
    proof (cases e2)
      case (Some x)
      with assms(1) a True b 1 2 k2 show ?thesis by (auto simp: store_ready_def)
    next
      case None
      with assms(1) a True b have c: "store_open now s2 w2 = (e, s', w')" by (simp add: store_ready_def)
      have "part_ok o' w2" using 2 by (simp add: store_inv_def)
      with opened_inv [OF c, of o' gz] 1 2 None True show ?thesis
        using keeps_trans [OF k2] by auto
    qed
  qed
qed

text \<open>A failed write or sync: the bytes that landed are cut, or stay if the machine is dying or files rotate by age.\<close>

lemma abandon_ok:
  assumes "abandon n s w = (s', w')" and "lookup w (part_of s) = Some (f\<lparr>f_content := f_content f @ t\<rparr>)"
    and "ar_size s = length (f_content f)" and "n = length t" and "fair (ar_opts s) w"
  shows "s' = forget_file s \<and> changes (part_of s) w w' \<and>
    (lookup w' (part_of s) = Some f \<or>
     lookup w' (part_of s) = Some (f\<lparr>f_content := f_content f @ t\<rparr>) \<and> (0 < so_rotate_every (ar_opts s) \<or> dead w'))"
proof -
  obtain e1 w1 where t: "sys_truncate (part_of s) (ar_size s) w = (e1, w1)" by fastforce
  note r = sys_truncate_ok [OF t]
  let ?w = "snd (sys_plain CClose w1)"
  have q: "quiet w1 ?w" "quiet w (snd (sys_plain CClose w))" by simp_all
  show ?thesis
  proof (cases "n = 0")
    case True
    with assms quiet_lookup [OF q(2)] show ?thesis by (auto simp: abandon_def changes_quiet)
  next
    case False
    with assms(1) t have s: "s' = forget_file s" "w' = ?w" by (simp_all add: abandon_def Let_def)
    have "changes (part_of s) w w'" using r changes_trans [OF _ changes_quiet [OF q(1)]] s by blast
    moreover have "dead w1" if "e1 \<noteq> None" "\<not> 0 < so_rotate_every (ar_opts s)"
    proof -
      from that assms(5) have "\<forall>k m. w_tick w < m \<longrightarrow> w_fault w k m = Some 0"
        using r by (auto simp: fair_def honest_truncate_def)
      moreover have "w_tick w < w_tick w1 \<and> w_fault w1 = w_fault w"
        using t that(1) by (auto simp: sys_truncate_def tick_def split: option.splits)
      ultimately show ?thesis by (auto simp: dead_def)
    qed
    ultimately show ?thesis
      using r assms(2,3) s q dead_later [of w1 w'] quiet_lookup [OF q(1)] quiet_lookup [of w w1]
      by (cases e1) (auto simp: quiet_def)
  qed
qed

lemma append_failed:
  assumes a: "abandon (length t) s w1 = (s', w')" and t: "t = take n l" and l: "store_line l"
    and f: "lookup w (part_of s) = Some f" and f1: "lookup w1 (part_of s) = Some (f\<lparr>f_content := f_content f @ t\<rparr>)"
    and c: "changes (part_of s) w w1" and sz: "ar_size s = length (f_content f)"
    and e: "ends_line (f_content f) \<or> dead w \<and> t = []" and p: "part_ok (ar_opts s) w" and fr: "fair (ar_opts s) w"
  shows "store_inv (ar_opts s) s' w' \<and> keeps gz (part_of s) w w' \<and> ar_closed s' = ar_closed s"
proof -
  have "fair (ar_opts s) w1" using fr c fair_later by (auto simp: changes_def)
  from abandon_ok [OF a f1 sz _ this] have s': "s' = forget_file s" and c': "changes (part_of s) w1 w'"
    and l': "lookup w' (part_of s) = Some f \<or> lookup w' (part_of s) = Some (f\<lparr>f_content := f_content f @ t\<rparr>) \<and>
      (0 < so_rotate_every (ar_opts s) \<or> dead w')" by blast+
  have cc: "changes (part_of s) w w'" using changes_trans [OF c c'] .
  have lines: "list_all store_line (complete_lines (f_content f))" using p f by (simp add: part_ok_def)
  have "set (complete_lines (f_content f @ t)) \<subseteq> insert l (set (complete_lines (f_content f)))"
    using e t complete_lines_take [OF _ store_line_line [OF l]] by auto
  then have "list_all store_line (complete_lines (f_content f @ t))" using lines l by (auto simp: list_all_iff)
  then have "part_ok (ar_opts s) w'"
    using l' lines e dead_later [OF _ changes_later [OF cc]] by (auto simp: part_ok_def)
  moreover have "keeps gz (part_of s) w w'"
    by (rule keeps_part) (use cc l' f has_line_common_append in \<open>auto simp: changes_def safe_bytes_def\<close>)
  ultimately show ?thesis using s' by (simp add: store_inv_def)
qed

lemma sys_write_dead: "sys_write p s w = ((n, e), w') \<Longrightarrow> dead w \<Longrightarrow> n = 0"
  by (auto simp: sys_write_def tick_def dead_def)

text \<open>A line written and synced behind whole lines of the store is kept.\<close>

lemma appended_kept:
  assumes f: "lookup w (part_path o') = Some f" and f2: "lookup w2 (part_path o') = Some \<lparr>f_content = f_content f @ l, f_synced = f_content f @ l\<rparr>"
    and cc: "changes (part_path o') w w2" and el: "ends_line (f_content f)" and l: "store_line l" and p: "part_ok o' w"
  shows "part_ok o' w2 \<and> keeps gz (part_path o') w w2 \<and> kept gz (part_path o') w2 l"
proof -
  have ls: "list_all store_line (complete_lines (f_content f))" using p f by (simp add: part_ok_def)
  note one = store_line_line [OF l]
  have "has_line l (f_content f @ l)" by (rule has_line_last [OF el one ls])
  then have "kept gz (part_path o') w2 l" using f2 by (intro keptI [of _ _ _ "part_path o'"]) (simp add: home_def safe_bytes_def)
  moreover have "keeps gz (part_path o') w w2"
    by (rule keeps_part) (use cc f f2 has_line_append has_line_safe in \<open>auto simp: changes_def safe_bytes_def\<close>)
  moreover have "part_ok o' w2"
    using f2 ls l complete_lines_line [OF el one] ends_line_line [OF one] by (simp add: part_ok_def)
  ultimately show ?thesis by blast
qed

lemma append_line_ok:
  assumes a: "append_line l ts now s w = (e, s', w')" and at: "at_line_end (ar_opts s) s w" and l: "store_line l"
    and p: "part_ok (ar_opts s) w" and fr: "fair (ar_opts s) w"
  shows "store_inv (ar_opts s) s' w' \<and> keeps gz (part_of s) w w' \<and> ar_closed s' = ar_closed s \<and>
    (e = None \<longrightarrow> kept gz (part_of s) w' l)"
proof -
  from at obtain f where f: "lookup w (part_of s) = Some f" "ar_size s = length (f_content f)"
      "ends_line (f_content f) \<or> dead w" and op: "ar_open s" by (auto simp: at_line_end_def)
  obtain n e1 w1 where wr: "sys_write (part_of s) l w = ((n, e1), w1)" by (metis surj_pair)
  note r1 = sys_write_ok [OF wr]
  then have f1: "lookup w1 (part_of s) = Some (f\<lparr>f_content := f_content f @ take n l\<rparr>)" using f(1) by simp
  have n: "length (take n l) = n" using r1 by simp
  have end1: "ends_line (f_content f) \<or> dead w \<and> take n l = []" using f(3) sys_write_dead [OF wr] by auto
  obtain e2 w2 where sy: "sys_sync (part_of s) w1 = (e2, w2)" by fastforce
  note r2 = sys_sync_ok [OF sy]
  note fail = append_failed [where t = "take n l" and n = n and gz = gz, OF _ HOL.refl l f(1) _ _ f(2) end1 p fr]
  consider x where "e1 = Some x" | x where "e1 = None" "e2 = Some x" | "e1 = None" "e2 = None" by (cases e1; cases e2) auto
  then show ?thesis
  proof cases
    case 1
    with a wr have "abandon n s w1 = (s', w')" "e \<noteq> None" by (auto simp: append_line_def split: prod.splits)
    with fail [of w1] n f1 r1 show ?thesis by auto
  next
    case 2
    with a wr sy have "abandon n s w2 = (s', w')" "e \<noteq> None" by (auto simp: append_line_def split: prod.splits)
    moreover have q: "quiet w1 w2" using r2 2 by simp
    moreover have "changes (part_of s) w w2" using r1 changes_trans [OF _ changes_quiet [OF q]] by blast
    ultimately show ?thesis
      using fail [of w2] n f1 by (auto simp: quiet_lookup)
  next
    case 3
    then have nl: "n = length l" "\<not> dead w" using r1 by blast+
    let ?c = "f_content f @ l"
    have f2: "lookup w2 (part_of s) = Some \<lparr>f_content = ?c, f_synced = ?c\<rparr>"
      using r2 3 f1 nl by simp
    have cc: "changes (part_of s) w w2" using r1 r2 changes_trans by blast
    have el: "ends_line (f_content f)" using f(3) nl by blast
    note k = appended_kept [OF f(1) f2 cc el l p]
    have "w' = w2" "ar_opts s' = ar_opts s" "ar_closed s' = ar_closed s" "ar_size s' = length ?c"
      using a wr sy 3 nl f(2) by (auto simp: append_line_def Let_def split: if_splits)
    then show ?thesis
      using k f2 ends_line_line [OF store_line_line [OF l]] by (auto simp: store_inv_def)
  qed
qed

lemma store_append_ok:
  assumes "store_append gz ctx now env s w = (e, s', w')" and "store_inv o' s w" and "fair o' w"
  shows "store_inv o' s' w' \<and> keeps gz (part_path o') w w' \<and> ar_closed s' = ar_closed s \<and>
    (e = None \<longrightarrow> (\<exists>l. arch_encode env = Inr l \<and> kept gz (part_path o') w' l))"
proof (cases "ctx = None \<and> (\<exists>l. arch_encode env = Inr l) \<and> \<not> ar_closed s")
  case False
  with assms show ?thesis by (auto simp: store_append_def split: option.splits sum.splits)
next
  case True
  then obtain l where l: "ctx = None" "arch_encode env = Inr l" "\<not> ar_closed s" by blast
  obtain e1 s1 w1 where rd: "store_ready gz (length l) now s w = (e1, s1, w1)" by (metis prod_cases3)
  note 1 = store_ready_ok [OF rd assms(2,3)]
  show ?thesis
  proof (cases e1)
    case (Some x)
    with assms(1) l rd 1 show ?thesis by (auto simp: store_append_def)
  next
    case None
    with assms(1) l rd have a: "append_line l (received_at env) now s1 w1 = (e, s', w')" by (simp add: store_append_def)
    have o': "ar_opts s1 = o'" "part_ok o' w1" using 1 by (simp_all add: store_inv_def)
    have f1: "fair o' w1" using 1 fair_later [OF assms(3)] by (simp add: keeps_def)
    have "store_line l" using l(2) by (auto simp: store_line_def)
    note 2 = append_line_ok [OF a, unfolded o'(1), OF _ this o'(2) f1, of gz]
    show ?thesis
      using 1 2 None l(2) keeps_trans [of gz "part_path o'" w w1 w'] by auto
  qed
qed

lemma store_close_ok:
  assumes "store_close gz s w = (e, s', w')" and "store_inv o' s w" and "fair o' w"
  shows "store_inv o' s' w' \<and> keeps gz (part_path o') w w' \<and> ar_closed s'"
proof (cases "ar_closed s")
  case False
  obtain e1 s1 w1 where r: "store_rotate gz (s\<lparr>ar_closed := True\<rparr>) w = (e1, s1, w1)" by (metis prod_cases3)
  have "store_inv o' (s\<lparr>ar_closed := True\<rparr>) w" using assms(2) by (simp add: store_inv_def)
  note 1 = store_rotate_inv [OF r this assms(3)]
  with assms(1) False r show ?thesis
    by (cases e1) (auto simp: store_close_def Let_def store_inv_def)
qed (use assms in \<open>auto simp: store_close_def\<close>)

end
