(* ===== verification/ArchiveRecover.thy ===== *)
theory ArchiveRecover
  imports ArchiveInv
begin

text \<open>
  Opening a store on what an earlier run left, and crashes: both keep every line, and a store that opens has no
  current file.
\<close>

section \<open>Sweeping and recovering\<close>

fun kind_suffix :: "final_kind \<Rightarrow> string" where
  "kind_suffix FPlain = arch_extension"
| "kind_suffix FGzip = gzip_extension"
| "kind_suffix FTmp = gzip_extension @ tmp_suffix"

lemma final_kind_suffix:
  assumes "final_kind_of p n = Some k"
  shows "\<exists>x. n = x @ kind_suffix k"
proof -
  from assms obtain r where r: "drop (length p + 1) n = r" and d: "dropWhile is_digit (drop 17 r) = kind_suffix k"
    by (auto simp: final_kind_of_def Let_def split: if_splits)
  have "drop 17 r = takeWhile is_digit (drop 17 r) @ kind_suffix k" using d by (metis takeWhile_dropWhile_id)
  then have "n = (take (length p + 1) n @ take 17 r @ takeWhile is_digit (drop 17 r)) @ kind_suffix k"
    using r by (metis append.assoc append_take_drop_id)
  then show ?thesis by (rule exI)
qed

lemma plain_path:
  assumes "final_kind_of p (snd q) = Some FPlain"
  shows "\<not> is_gz q \<and> q \<noteq> part_path o' \<and> part_path o' \<notin> compress_paths q"
proof -
  from final_kind_suffix [OF assms] obtain x where x: "snd q = x @ arch_extension" by auto
  then have "\<not> is_gz q" "q \<noteq> part_path o'"
    by (auto simp: is_gz_def has_suffix_def has_prefix_def arch_extension_def part_path_def part_suffix_def)
  then show ?thesis
    using part_path_plain [of o'] by (auto simp: compress_paths_def dest: arg_cong [where f = is_tmp] arg_cong [where f = is_gz])
qed

lemma tmp_kind: "final_kind_of p (snd q) = Some FTmp \<Longrightarrow> is_tmp q"
  by (auto simp: is_tmp_def has_suffix_def has_prefix_def gzip_extension_def tmp_suffix_def dest!: final_kind_suffix)

text \<open>Housekeeping: the lines stay and the current file is not touched.\<close>

definition housekeeping :: "(string \<Rightarrow> string \<Rightarrow> string) \<Rightarrow> store_options \<Rightarrow> world \<Rightarrow> world \<Rightarrow> bool" where
  "housekeeping gz o' w w' \<longleftrightarrow> keeps gz (part_path o') w w' \<and> lookup w' (part_path o') = lookup w (part_path o')"

lemma housekeeping_refl [simp]: "housekeeping gz o' w w"
  by (simp add: housekeeping_def)

lemma housekeeping_trans: "housekeeping gz o' a b \<Longrightarrow> housekeeping gz o' b c \<Longrightarrow> housekeeping gz o' a c"
  by (auto simp: housekeeping_def intro: keeps_trans)

lemma housekeeping_quiet: "quiet w w' \<Longrightarrow> housekeeping gz o' w w'"
  by (simp add: housekeeping_def quiet_keeps quiet_lookup)

lemma housekeeping_honest: "housekeeping gz o' w w' \<Longrightarrow> honest_world w \<Longrightarrow> honest_world w'"
  by (auto simp: housekeeping_def keeps_def intro: honest_later)

lemma remove_all_tmp: "remove_all ps w = (e, w') \<Longrightarrow> \<forall>p \<in> set ps. is_tmp p \<Longrightarrow> housekeeping gz o' w w'"
proof (induction ps arbitrary: w)
  case (Cons p ps)
  obtain e1 w1 where r: "sys_remove p w = (e1, w1)" by fastforce
  then have c: "changes p w w1" using sys_remove_ok by blast
  have "p \<noteq> part_path o'" using Cons.prems(2) part_path_plain(2) [of o'] by auto
  then have h: "housekeeping gz o' w w1"
    using keeps_changes_tmp [OF c] Cons.prems(2) changes_other [OF c] by (simp add: housekeeping_def)
  show ?case
  proof (cases e1)
    case None
    with Cons r have "housekeeping gz o' w1 w'" by simp
    with h show ?thesis by (rule housekeeping_trans)
  qed (use Cons.prems r h in auto)
qed simp

lemma compress_all_ok:
  "\<forall>p \<in> set ps. \<exists>x. final_kind_of x (snd p) = Some FPlain \<Longrightarrow> honest_world w \<Longrightarrow> housekeeping gz o' w (compress_all gz ps w)"
proof (induction ps arbitrary: w)
  case (Cons p ps)
  then obtain x where "final_kind_of x (snd p) = Some FPlain" by auto
  note p = plain_path [OF this, of o']
  obtain e1 w1 where c: "compress_file gz p w = (e1, w1)" by fastforce
  from compress_file_ok [OF c Cons.prems(2), of "part_path o'"] p
  have h: "harmless gz (part_path o') (compress_paths p) w w1" by blast
  then have h: "housekeeping gz o' w w1"
    using p harmless_lookup [OF h, of "part_path o'"] by (simp add: housekeeping_def harmless_def)
  moreover have "housekeeping gz o' w1 (compress_all gz ps w1)"
    using Cons housekeeping_honest [OF h] by simp
  ultimately show ?case using c housekeeping_trans by simp
qed simp

lemma store_sweep_ok:
  assumes "store_sweep gz o' w = (e, w')" and "honest_world w"
  shows "housekeeping gz o' w w'"
proof -
  obtain e1 w1 where a: "sys_plain CWalk w = (e1, w1)" by fastforce
  have h1: "housekeeping gz o' w w1" by (rule housekeeping_quiet [OF sys_plain_quiet [OF a]])
  let ?tmps = "paths_of_kind (so_prefix o') FTmp w1" and ?plain = "paths_of_kind (so_prefix o') FPlain w1"
  obtain e2 w2 where b: "remove_all ?tmps w1 = (e2, w2)" by fastforce
  have "housekeeping gz o' w1 w2"
    by (rule remove_all_tmp [OF b]) (use tmp_kind in \<open>auto simp: paths_of_kind_def\<close>)
  with h1 have h2: "housekeeping gz o' w w2" by (rule housekeeping_trans)
  have "\<forall>p \<in> set ?plain. \<exists>x. final_kind_of x (snd p) = Some FPlain" by (auto simp: paths_of_kind_def)
  from compress_all_ok [OF this housekeeping_honest [OF h2 assms(2)]]
  have "housekeeping gz o' w (compress_all gz ?plain w2)" by (rule housekeeping_trans [OF h2])
  with assms(1) a b h1 h2 show ?thesis
    by (cases e1; cases e2) (auto simp: store_sweep_def Let_def split: if_splits)
qed

lemma sweep_keeps:
  assumes "store_sweep gz (ar_opts s) v = (x, v')" and "honest_world v" and "keeps gz (part_of s) w v"
  shows "keeps gz (part_of s) w v' \<and> lookup v' (part_of s) = lookup v (part_of s)"
  using store_sweep_ok [OF assms(1,2)] keeps_trans [OF assms(3)] by (simp add: housekeeping_def)

text \<open>The rest of recovery after a current file was found.\<close>

lemma recover_found:
  assumes c: "cut_partial_line (part_of s) (length (f_content f)) w = (r, w2)"
    and f: "lookup w (part_of s) = Some f" and h: "honest_world w"
    and r: "(case r of Inl x \<Rightarrow> (Some x, s, w2) | Inr sz \<Rightarrow>
      (case retire gz 0 sz s w2 of (Some x, s, w) \<Rightarrow> (Some x, s, w)
       | (None, s, w) \<Rightarrow> (case store_sweep gz (ar_opts s) w of (x, w) \<Rightarrow> (x, s, w)))) = (e, s', w')"
  shows "(\<exists>n. s' = s\<lparr>ar_seq := n\<rparr>) \<and> keeps gz (part_of s) w w' \<and> (e = None \<longrightarrow> lookup w' (part_of s) = None)"
proof (cases r)
  case (Inl x)
  with r cut_drained [OF c f] show ?thesis by (auto simp: drained_def)
next
  case (Inr sz)
  obtain e3 s3 w3 where t: "retire gz 0 sz s w2 = (e3, s3, w3)" by (metis prod_cases3)
  from repair_ok [OF c [unfolded Inr] f h t] have rp: "\<exists>n. s3 = s\<lparr>ar_seq := n\<rparr>"
    "keeps gz (part_of s) w w3" "e3 = None \<longrightarrow> lookup w3 (part_of s) = None" by (auto simp: drained_def)
  have h3: "honest_world w3" using honest_later [OF h] rp(2) by (simp add: keeps_def)
  show ?thesis
  proof (cases e3)
    case None
    with r Inr t have "s' = s3" "store_sweep gz (ar_opts s3) w3 = (e, w')" by (auto split: prod.splits)
    with rp None h3 sweep_keeps [of gz s w3 e w' w] show ?thesis by auto
  qed (use r Inr t rp in auto)
qed

lemma store_recover_ok:
  assumes "store_recover gz s w = (e, s', w')" and "honest_world w"
  shows "(\<exists>n. s' = s\<lparr>ar_seq := n\<rparr>) \<and> keeps gz (part_of s) w w' \<and> (e = None \<longrightarrow> lookup w' (part_of s) = None)"
proof -
  obtain st w1 where st: "sys_stat CStat (part_of s) w = (st, w1)" by fastforce
  note q1 = sys_stat_quiet [OF st]
  have h1: "honest_world w1" using honest_later [OF assms(2)] q1 by (simp add: quiet_def)
  show ?thesis
  proof (cases st)
    case StatFailed
    with assms(1) st q1 show ?thesis by (auto simp: store_recover_def Let_def quiet_keeps)
  next
    case StatAbsent
    then have "lookup w (part_of s) = None" using st sys_stat_absent by blast
    with assms(1) st StatAbsent show ?thesis
      using sweep_keeps [of gz s w1 e w' w] h1 quiet_keeps [OF q1] quiet_lookup [OF q1]
      by (auto simp: store_recover_def Let_def split: prod.splits)
  next
    case (StatOk n m)
    then obtain f where f: "lookup w1 (part_of s) = Some f" "n = length (f_content f)"
      using st sys_stat_ok quiet_lookup [OF q1] by metis
    obtain r w2 where c: "cut_partial_line (part_of s) (length (f_content f)) w1 = (r, w2)" by fastforce
    have "\<exists>x. (case r of Inl x \<Rightarrow> (Some x, s, w2) | Inr sz \<Rightarrow>
      (case retire gz 0 sz s w2 of (Some x, s, w) \<Rightarrow> (Some x, s, w)
       | (None, s, w) \<Rightarrow> (case store_sweep gz (ar_opts s) w of (x, w) \<Rightarrow> (x, s, w)))) = (x, s', w') \<and> (e = None \<longrightarrow> x = None)"
      using assms(1) st StatOk f(2) c
      by (auto simp: store_recover_def retire_def Let_def split: if_splits prod.splits option.splits sum.splits)
    with recover_found [OF c f(1) h1] have "(\<exists>n. s' = s\<lparr>ar_seq := n\<rparr>) \<and> keeps gz (part_of s) w1 w' \<and>
        (e = None \<longrightarrow> lookup w' (part_of s) = None)" by blast
    then show ?thesis using keeps_trans [OF quiet_keeps [OF q1]] by blast
  qed
qed

text \<open>A store that opens has no current file yet.\<close>

definition norm_options :: "store_options \<Rightarrow> store_options" where
  "norm_options o' = (if so_compress o' = [] then o'\<lparr>so_compress := compress_none\<rparr> else o')"

lemma norm_options_simps [simp]:
  "part_path (norm_options o') = part_path o'" "fair (norm_options o') w \<longleftrightarrow> fair o' w"
  by (simp_all add: norm_options_def part_path_def fair_def)

lemma open_store_ok:
  assumes "open_store gz o' w = (r, w')" and "honest_world w"
  shows "keeps gz (part_path o') w w' \<and>
    (\<forall>s. r = Inr s \<longrightarrow> \<not> ar_open s \<and> \<not> ar_closed s \<and> store_inv (norm_options o') s w')"
proof -
  let ?o = "norm_options o'"
  obtain e1 w1 where m: "sys_plain CMkdir w = (e1, w1)" by fastforce
  note q1 = sys_plain_quiet [OF m]
  have h1: "honest_world w1" using honest_later [OF assms(2)] q1 by (simp add: quiet_def)
  obtain e2 s2 w2 where rc: "store_recover gz (new_store ?o) w1 = (e2, s2, w2)" by (metis prod_cases3)
  note 2 = store_recover_ok [OF rc h1]
  have n: "ar_opts (new_store ?o) = ?o" "\<not> ar_open (new_store ?o)" "\<not> ar_closed (new_store ?o)"
    by (simp_all add: new_store_def)
  have k: "keeps gz (part_path o') w w1" "keeps gz (part_path o') w w2"
    using quiet_keeps [OF q1] keeps_trans [OF quiet_keeps [OF q1]] 2 n by auto
  have i: "store_inv ?o s2 w2 \<and> \<not> ar_open s2 \<and> \<not> ar_closed s2" if "e2 = None"
    using 2 n that part_ok_gone [of w2 ?o] by (auto simp: store_inv_def)
  have "(\<exists>x. r = Inl x) \<and> (w' = w \<or> w' = w1 \<or> w' = w2) \<or> e2 = None \<and> r = Inr s2 \<and> w' = w2"
    using assms(1) m rc unfolding open_store_def norm_options_def [symmetric] Let_def
    by (cases e1; cases e2) (simp_all split: if_splits, blast+)
  with i k show ?thesis by auto
qed

section \<open>Crashes\<close>

lemma crash_in_gz: "in_gz gz l f \<Longrightarrow> file_after_crash f f' \<Longrightarrow> in_gz gz l f'"
  by (auto simp: in_gz_def file_after_crash_def)

lemma crash_safe:
  assumes "has_line l (safe_bytes f)" and "file_after_crash f f'"
  shows "has_line l (safe_bytes f')"
proof -
  have s: "safe_bytes f' = f_content f'" using assms(2) by (simp add: safe_bytes_def file_after_crash_def)
  show ?thesis
  proof (cases "f_content f = f_synced f")
    case True
    with assms have "f_content f' = safe_bytes f" by (simp add: file_after_crash_def safe_bytes_def)
    with assms(1) s show ?thesis by simp
  next
    case False
    with assms(2) have "take (length (safe_bytes f)) (f_content f') = safe_bytes f" by (simp add: file_after_crash_def)
    then have "f_content f' = safe_bytes f @ drop (length (safe_bytes f)) (f_content f')" by (metis append_take_drop_id)
    with assms(1) s has_line_append show ?thesis by metis
  qed
qed

lemma crash_there: "crash w w' \<Longrightarrow> lookup w p = Some f \<Longrightarrow> \<exists>f'. lookup w' p = Some f' \<and> file_after_crash f f'"
  by (auto simp: crash_def dest: spec [of _ p])

lemma crash_back: "crash w w' \<Longrightarrow> lookup w' p = Some f' \<Longrightarrow> \<exists>f. lookup w p = Some f \<and> file_after_crash f f'"
  by (cases "lookup w p") (auto simp: crash_def dest: spec [of _ p] crash_there)

lemma crash_kept:
  assumes "crash w w'" and "kept gz part w l"
  shows "kept gz part w' l"
proof -
  from assms(2) obtain p where "home gz part w p l" by (auto simp: kept_def)
  then obtain f where f: "lookup w p = Some f" "\<not> is_tmp p"
    "if is_gz p then in_gz gz l f
     else has_line l (safe_bytes f) \<and> (p \<noteq> part \<longrightarrow> (\<forall>g. lookup w (gz_path p) = Some g \<longrightarrow> in_gz gz l g))"
    by (auto simp: home_def)
  from crash_there [OF assms(1) f(1)] obtain f' where f': "lookup w' p = Some f'" "file_after_crash f f'" by blast
  have "home gz part w' p l"
    using f f' crash_in_gz crash_safe crash_back [OF assms(1)] unfolding home_def by (metis (no_types, lifting))
  then show ?thesis by (rule keptI)
qed

end
