(* ===== verification/ArchiveNames.thy ===== *)
theory ArchiveNames
  imports ArchiveRecover
begin

text \<open>
  Stores that share a directory: a finalized name belongs to one prefix only, and sweeping touches no file of
  another prefix.
\<close>

section \<open>Names of different stores\<close>

lemma final_kind_split:
  assumes "final_kind_of p n = Some k"
  shows "\<exists>a d. n = p @ ''-'' @ a @ ''-'' @ d @ kind_suffix k \<and> length a = 16 \<and> d \<noteq> [] \<and> list_all is_digit d"
proof -
  define r where "r = drop (length p + 1) n"
  define d where "d = takeWhile is_digit (drop 17 r)"
  from assms have n: "has_prefix (p @ ''-'') n" and ts: "take 2 (drop 15 r) = ''Z-''" and d: "d \<noteq> []"
    and x: "dropWhile is_digit (drop 17 r) = kind_suffix k"
    by (auto simp: final_kind_of_def Let_def r_def d_def split: if_splits)
  from n have nr: "n = p @ ''-'' @ r" by (auto simp: has_prefix_iff r_def)
  have r: "r = take 15 r @ take 2 (drop 15 r) @ drop 17 r"
  proof -
    have "drop 2 (drop 15 r) = drop 17 r" by simp
    then have "drop 15 r = take 2 (drop 15 r) @ drop 17 r" by (metis append_take_drop_id)
    then show ?thesis by (metis append_take_drop_id)
  qed
  have "drop 17 r = d @ kind_suffix k" unfolding d_def x [symmetric] by simp
  then have r': "r = (take 15 r @ ''Z'') @ ''-'' @ d @ kind_suffix k"
    by (metis r ts append.assoc append_Cons append_Nil)
  have "n = p @ ''-'' @ ((take 15 r @ ''Z'') @ ''-'' @ d @ kind_suffix k)"
    unfolding nr using r' by (rule arg_cong [where f = "\<lambda>r. p @ ''-'' @ r"])
  moreover have "length (take 15 r @ ''Z'') = 16" using ts by (cases "15 \<le> length r") auto
  moreover have "list_all is_digit d" by (auto simp: d_def list_all_iff dest: set_takeWhileD)
  ultimately show ?thesis using d by (metis append.assoc)
qed

lemma kind_suffix_inj: "d @ kind_suffix k = d' @ kind_suffix k' \<Longrightarrow> list_all is_digit d \<Longrightarrow> list_all is_digit d' \<Longrightarrow> d = d'"
proof -
  have dot: "\<exists>s. kind_suffix k = CHR ''.'' # s" for k
    by (cases k) (simp_all add: arch_extension_def gzip_extension_def tmp_suffix_def)
  assume e: "d @ kind_suffix k = d' @ kind_suffix k'" and d: "list_all is_digit d" and d': "list_all is_digit d'"
  have nodot: "\<not> is_digit (CHR ''.'')" by (simp add: is_digit_def)
  have "takeWhile is_digit (d @ kind_suffix k) = d" if "list_all is_digit d" for d k
    using that dot [of k] nodot by (auto simp: list_all_iff takeWhile_append2)
  with e d d' show ?thesis by metis
qed

lemma last_dash:
  assumes "x @ ''-'' @ d @ kind_suffix k = x' @ ''-'' @ d' @ kind_suffix k'"
    and "list_all is_digit d" and "list_all is_digit d'"
  shows "x = x' \<and> d = d'"
proof -
  have nd: "CHR ''-'' \<notin> set (d @ kind_suffix k)" if "list_all is_digit d" for d k
    using that by (cases k) (auto simp: list_all_iff is_digit_def arch_extension_def gzip_extension_def tmp_suffix_def)
  have s: "takeWhile (\<lambda>c. c \<noteq> CHR ''-'') (rev (x @ ''-'' @ t)) = rev t" if "CHR ''-'' \<notin> set t" for x t
  proof -
    have "rev (x @ ''-'' @ t) = rev t @ CHR ''-'' # rev x" by simp
    moreover have "takeWhile (\<lambda>c. c \<noteq> CHR ''-'') (rev t @ CHR ''-'' # rev x) =
        rev t @ takeWhile (\<lambda>c. c \<noteq> CHR ''-'') (CHR ''-'' # rev x)"
      by (rule takeWhile_append2) (use that in auto)
    ultimately show ?thesis by simp
  qed
  have "d @ kind_suffix k = d' @ kind_suffix k'"
    using s [OF nd [OF assms(2)], of x k] s [OF nd [OF assms(3)], of x' k'] assms(1)
    by (metis append_Cons append_Nil rev_is_rev_conv)
  moreover from this have "d = d'" using kind_suffix_inj assms(2,3) by blast
  ultimately show ?thesis using assms(1) by simp
qed

lemma final_kind_prefix:
  assumes "final_kind_of p n = Some k" and "final_kind_of q n = Some k'"
  shows "p = q"
proof -
  from final_kind_split [OF assms(1)] obtain a d where
    a: "n = (p @ ''-'' @ a) @ ''-'' @ d @ kind_suffix k" "length a = 16" "list_all is_digit d" by auto
  from final_kind_split [OF assms(2)] obtain b e where
    b: "n = (q @ ''-'' @ b) @ ''-'' @ e @ kind_suffix k'" "length b = 16" "list_all is_digit e" by auto
  from a b have "p @ ''-'' @ a = q @ ''-'' @ b" using last_dash [of "p @ ''-'' @ a" d k "q @ ''-'' @ b" e k'] by auto
  with a(2) b(2) show ?thesis by (simp add: append_eq_append_conv [of "''-'' @ a" "''-'' @ b", symmetric])
qed


text \<open>The files a finalized file is compressed to have finalized names of the same prefix.\<close>

lemma final_kind_plus:
  assumes "final_kind_of p n = Some FPlain"
  shows "final_kind_of p (n @ ''.gz'') = Some FGzip" and "final_kind_of p (n @ ''.gz.tmp'') = Some FTmp"
proof -
  define r where "r = drop (length p + 1) n"
  define d where "d = takeWhile is_digit (drop 17 r)"
  have fk: "final_kind_of p n = (if \<not> has_prefix (p @ ''-'') n then None
    else if list_all is_digit (take 8 r) \<and> take 1 (drop 8 r) = ''T'' \<and> list_all is_digit (take 6 (drop 9 r)) \<and>
            take 2 (drop 15 r) = ''Z-'' \<and> d \<noteq> []
         then map_of [(arch_extension, FPlain), (gzip_extension, FGzip), (gzip_extension @ tmp_suffix, FTmp)]
           (dropWhile is_digit (drop 17 r)) else None)"
    by (simp add: final_kind_of_def Let_def r_def d_def)
  with assms have n: "has_prefix (p @ ''-'') n" and ts: "take 2 (drop 15 r) = ''Z-''" and dn: "d \<noteq> []"
    and g: "list_all is_digit (take 8 r)" "take 1 (drop 8 r) = ''T''" "list_all is_digit (take 6 (drop 9 r))"
    and x: "dropWhile is_digit (drop 17 r) = arch_extension"
    by (auto simp: arch_extension_def gzip_extension_def tmp_suffix_def split: if_splits)
  have l: "17 \<le> length r" using dn by (cases "17 \<le> length r") (auto simp: d_def)
  have ln: "length p + 1 \<le> length n" using n by (auto simp: has_prefix_iff)
  have dr: "drop (length p + 1) (n @ s) = r @ s" for s using ln by (simp add: r_def)
  have e: "drop 17 r = d @ arch_extension" unfolding d_def x [symmetric] by simp
  have dd: "list_all is_digit d" by (auto simp: d_def list_all_iff dest: set_takeWhileD)
  have "final_kind_of p (n @ s) = map_of [(arch_extension, FPlain), (gzip_extension, FGzip), (gzip_extension @ tmp_suffix, FTmp)]
      (arch_extension @ s)" for s
  proof -
    have w: "dropWhile is_digit (d @ arch_extension @ s) = arch_extension @ s" "takeWhile is_digit (d @ arch_extension @ s) = d"
      using dd by (simp_all add: list_all_iff arch_extension_def is_digit_def dropWhile_append2 takeWhile_append2)
    have f: "take 8 (r @ s) = take 8 r" "take 1 (drop 8 (r @ s)) = take 1 (drop 8 r)" "take 6 (drop 9 (r @ s)) = take 6 (drop 9 r)"
      "take 2 (drop 15 (r @ s)) = take 2 (drop 15 r)" "drop 17 (r @ s) = d @ arch_extension @ s"
      using l e by simp_all
    have "has_prefix (p @ ''-'') (n @ s)" using n by (auto simp: has_prefix_iff)
    then show ?thesis
      unfolding final_kind_of_def Let_def dr by (simp only: f w g ts dn simp_thms if_True if_False)
  qed
  then show "final_kind_of p (n @ ''.gz'') = Some FGzip" "final_kind_of p (n @ ''.gz.tmp'') = Some FTmp"
    by (simp_all add: arch_extension_def gzip_extension_def tmp_suffix_def)
qed


section \<open>What housekeeping touches\<close>

lemma touches_plain: "touches P w (snd (sys_plain k w))"
  by (rule touches_quiet) simp

lemma touches_remove: "p \<in> P \<Longrightarrow> touches P w (snd (sys_remove p w))"
  using sys_remove_ok [of p w "fst (sys_remove p w)" "snd (sys_remove p w)"]
    touches_changes [of p w "snd (sys_remove p w)" P] by simp

lemma touches_rename: "p \<in> P \<Longrightarrow> q \<in> P \<Longrightarrow> p \<noteq> q \<Longrightarrow> sys_rename p q w = (e, w') \<Longrightarrow> touches P w w'"
  using sys_rename_ok [of p q w e w'] by (cases e) (auto simp: touches_def quiet_lookup)

lemma compress_file_touches: "touches (compress_paths plain) w (snd (compress_file gz plain w))"
proof -
  let ?P = "compress_paths plain" and ?tmp = "tmp_path (gz_path plain)"
  obtain b w1 where b: "sys_exists (gz_path plain) w = (b, w1)" by fastforce
  have t1: "touches ?P w w1" by (rule touches_quiet [OF sys_exists_quiet [OF b]])
  obtain e2 w2 where z: "write_gzip gz plain ?tmp w1 = (e2, w2)" by fastforce
  have t2: "touches ?P w w2"
    using write_gzip_ok [OF z compress_tmp(4)] touches_changes [OF _ compress_tmp(2)] touches_trans [OF t1] by blast
  obtain e3 w3 where m: "sys_rename ?tmp (gz_path plain) w2 = (e3, w3)" by fastforce
  have t3: "touches ?P w w3"
    by (rule touches_trans [OF t2 touches_rename [OF compress_tmp(2,5,3) m]])
  obtain e4 w4 where d: "sys_plain CSyncDir w3 = (e4, w4)" by fastforce
  have t4: "touches ?P w w4" using touches_trans [OF t3 touches_plain [of ?P w3 CSyncDir]] d by simp
  have fin: "touches ?P w (snd (case sys_remove plain v of (Some e, w) \<Rightarrow> (Some e, w) | (None, w) \<Rightarrow> (None, snd (sys_plain CSyncDir w))))"
    if "touches ?P w v" for v
  proof -
    have "touches ?P w (snd (sys_remove plain v))"
      by (rule touches_trans [OF that touches_remove]) (simp add: compress_paths_def)
    then show ?thesis using touches_trans [OF _ touches_plain] by (auto split: prod.splits option.splits)
  qed
  have drop: "touches ?P w (snd (sys_remove ?tmp v))" if "touches ?P w v" for v
    by (rule touches_trans [OF that touches_remove]) simp
  have "compress_file gz plain w =
      (if b then (case sys_remove plain w1 of (Some e, w) \<Rightarrow> (Some e, w) | (None, w) \<Rightarrow> (None, snd (sys_plain CSyncDir w)))
       else (case e2 of Some e \<Rightarrow> (Some e, snd (sys_remove ?tmp w2))
        | None \<Rightarrow> (case e3 of Some e \<Rightarrow> (Some e, snd (sys_remove ?tmp w3))
          | None \<Rightarrow> (case e4 of Some e \<Rightarrow> (Some (Wrap ''fsync'' [e]), w4)
            | None \<Rightarrow> (case sys_remove plain w4 of (Some e, w) \<Rightarrow> (Some e, w) | (None, w) \<Rightarrow> (None, snd (sys_plain CSyncDir w)))))))"
    using b z m d by (cases b; cases e2; cases e3; cases e4) (simp_all add: compress_file_def)
  then show ?thesis
    using fin [OF t1] fin [OF t4] drop [OF t2] drop [OF t3] t4 by (auto split: option.splits)
qed

lemma remove_all_touches: "set ps \<subseteq> P \<Longrightarrow> remove_all ps w = (e, w') \<Longrightarrow> touches P w w'"
proof (induction ps arbitrary: w)
  case (Cons p ps)
  obtain e1 w1 where r: "sys_remove p w = (e1, w1)" by fastforce
  have "touches P w w1" using touches_remove [of p P w] Cons.prems(1) r by simp
  with Cons r show ?case by (cases e1) (auto intro: touches_trans)
qed simp

lemma compress_all_touches: "(\<And>p. p \<in> set ps \<Longrightarrow> compress_paths p \<subseteq> P) \<Longrightarrow> touches P w (compress_all gz ps w)"
proof (induction ps arbitrary: w)
  case (Cons p ps)
  have "touches P w (snd (compress_file gz p w))"
    using compress_file_touches [of p w gz] Cons.prems [of p] by (auto simp: touches_def)
  moreover have "touches P (snd (compress_file gz p w)) (compress_all gz ps (snd (compress_file gz p w)))"
    by (rule Cons.IH) (use Cons.prems in simp)
  ultimately show ?case by (auto intro: touches_trans)
qed simp

text \<open>Sweeping touches files with a finalized name of the store's prefix only.\<close>

lemma store_sweep_touches:
  assumes "store_sweep gz o' w = (e, w')"
  shows "touches {p. final_kind_of (so_prefix o') (snd p) \<noteq> None} w w'"
proof -
  let ?P = "{p. final_kind_of (so_prefix o') (snd p) \<noteq> None}"
  obtain e1 w1 where a: "sys_plain CWalk w = (e1, w1)" by fastforce
  have t1: "touches ?P w w1" using touches_plain [of ?P w CWalk] a by simp
  let ?tmps = "paths_of_kind (so_prefix o') FTmp w1" and ?plain = "paths_of_kind (so_prefix o') FPlain w1"
  obtain e2 w2 where b: "remove_all ?tmps w1 = (e2, w2)" by fastforce
  have "touches ?P w1 w2" by (rule remove_all_touches [OF _ b]) (auto simp: paths_of_kind_def)
  with t1 have t2: "touches ?P w w2" by (rule touches_trans)
  have "touches ?P w2 (compress_all gz ?plain w2)"
  proof (rule compress_all_touches)
    fix p assume "p \<in> set ?plain"
    then have "final_kind_of (so_prefix o') (snd p) = Some FPlain" by (auto simp: paths_of_kind_def)
    then show "compress_paths p \<subseteq> ?P"
      using final_kind_plus by (auto simp: compress_paths_def gz_path_def tmp_path_def tmp_suffix_def)
  qed
  with t2 have "touches ?P w (compress_all gz ?plain w2)" by (rule touches_trans)
  with assms a b t1 t2 show ?thesis
    by (cases e1; cases e2) (auto simp: store_sweep_def Let_def split: if_splits)
qed

end
