(* ===== verification/ArchiveSystem.thy ===== *)
theory ArchiveSystem
  imports ArchiveNames
begin

text \<open>
  The archive sink as a system of opens, appends, closes, stops and crashes, and what holds of every run.
\<close>

section \<open>The archive as a system\<close>

text \<open>
  A run of the archive sink over its directory: the store, if one is open, the files, and the events its
  \<open>Process\<close> reported as archived. The process may stop or the machine crash at any moment; a crash in the middle of an
  operation is one whose calls all fail from some call on. \<open>fair\<close> says what of the calls that fail is
  assumed.
\<close>

record archive_run =
  ru_store :: "store option"
  ru_world :: world
  ru_acked :: "envelope list"

definition run_init :: "store_options \<Rightarrow> archive_run \<Rightarrow> bool" where
  "run_init o' r \<longleftrightarrow> ru_store r = None \<and> ru_acked r = [] \<and> fair o' (ru_world r)"

inductive run_step :: "(string \<Rightarrow> string \<Rightarrow> string) \<Rightarrow> store_options \<Rightarrow> archive_run \<Rightarrow> archive_run \<Rightarrow> bool"
  for gz :: "string \<Rightarrow> string \<Rightarrow> string" and o' :: store_options
where
  run_open: "ru_store r = None \<Longrightarrow> open_store gz o' (ru_world r) = (Inr s, w) \<Longrightarrow>
    run_step gz o' r (r\<lparr>ru_store := Some s, ru_world := w\<rparr>)"
| run_open_fails: "ru_store r = None \<Longrightarrow> open_store gz o' (ru_world r) = (Inl e, w) \<Longrightarrow>
    run_step gz o' r (r\<lparr>ru_world := w\<rparr>)"
| run_ack: "ru_store r = Some s \<Longrightarrow> archive_process gz ans env (s, ru_world r) = (None, s', w) \<Longrightarrow>
    run_step gz o' r (r\<lparr>ru_store := Some s', ru_world := w, ru_acked := env # ru_acked r\<rparr>)"
| run_nack: "ru_store r = Some s \<Longrightarrow> archive_process gz ans env (s, ru_world r) = (Some e, s', w) \<Longrightarrow>
    run_step gz o' r (r\<lparr>ru_store := Some s', ru_world := w\<rparr>)"
| run_close: "ru_store r = Some s \<Longrightarrow> store_close gz s (ru_world r) = (e, s', w) \<Longrightarrow>
    run_step gz o' r (r\<lparr>ru_store := Some s', ru_world := w\<rparr>)"
| run_stop: "run_step gz o' r (r\<lparr>ru_store := None\<rparr>)"
| run_crash: "crash (ru_world r) w \<Longrightarrow> fair o' w \<Longrightarrow> run_step gz o' r (r\<lparr>ru_store := None, ru_world := w\<rparr>)"

text \<open>The line of an event is in one of the files of the store.\<close>

definition archived :: "(string \<Rightarrow> string \<Rightarrow> string) \<Rightarrow> store_options \<Rightarrow> world \<Rightarrow> envelope \<Rightarrow> bool" where
  "archived gz o' w env \<longleftrightarrow> (\<exists>l. arch_encode env = Inr l \<and> kept gz (part_path o') w l)"

definition run_inv :: "(string \<Rightarrow> string \<Rightarrow> string) \<Rightarrow> store_options \<Rightarrow> archive_run \<Rightarrow> bool" where
  "run_inv gz o' r \<longleftrightarrow> fair o' (ru_world r) \<and> (\<forall>s. ru_store r = Some s \<longrightarrow> store_inv (norm_options o') s (ru_world r)) \<and>
     (\<forall>env \<in> set (ru_acked r). archived gz o' (ru_world r) env)"

lemma archived_keeps: "keeps gz (part_path o') w w' \<Longrightarrow> archived gz o' w env \<Longrightarrow> archived gz o' w' env"
  by (auto simp: archived_def keeps_def)

lemma archived_crash: "crash w w' \<Longrightarrow> archived gz o' w env \<Longrightarrow> archived gz o' w' env"
  by (auto simp: archived_def intro: crash_kept)

lemma keeps_fair: "keeps gz part w w' \<Longrightarrow> fair o' w \<Longrightarrow> fair o' w'"
  by (auto simp: keeps_def intro: fair_later)

lemma archive_process_ok:
  assumes "archive_process gz ans env (s, w) = (e, s', w')" and "store_inv (norm_options o') s w" and "fair o' w"
  shows "store_inv (norm_options o') s' w' \<and> keeps gz (part_path o') w w' \<and> (e = None \<longrightarrow> archived gz o' w' env)"
proof -
  obtain x where x: "store_append gz (fst ans) (snd ans) env s w = (x, s', w')" "e = None \<longleftrightarrow> x = None"
    using assms(1) by (auto simp: archive_process_def split: prod.splits option.splits)
  from store_append_ok [OF x(1) assms(2)] assms(3) x(2) show ?thesis by (auto simp: archived_def)
qed

lemma run_inv_init: "run_init o' r \<Longrightarrow> run_inv gz o' r"
  by (simp add: run_init_def run_inv_def)

lemma run_inv_step:
  assumes "run_inv gz o' r" and "run_step gz o' r r'"
  shows "run_inv gz o' r'"
  using assms(2)
proof cases
  case (run_open s w)
  with open_store_ok [OF run_open(3)] assms(1) show ?thesis
    by (auto simp: run_inv_def fair_honest intro: archived_keeps keeps_fair)
next
  case (run_open_fails e w)
  with open_store_ok [OF run_open_fails(3)] assms(1) show ?thesis
    by (auto simp: run_inv_def fair_honest intro: archived_keeps keeps_fair)
next
  case (run_ack s ans env s' w)
  with archive_process_ok [OF run_ack(3), of o'] assms(1) show ?thesis
    by (auto simp: run_inv_def intro: archived_keeps keeps_fair)
next
  case (run_nack s ans env e s' w)
  with archive_process_ok [OF run_nack(3), of o'] assms(1) show ?thesis
    by (auto simp: run_inv_def intro: archived_keeps keeps_fair)
next
  case (run_close s e s' w)
  with store_close_ok [OF run_close(3), of "norm_options o'"] assms(1) show ?thesis
    by (auto simp: run_inv_def intro: archived_keeps keeps_fair)
next
  case run_stop
  with assms(1) show ?thesis by (simp add: run_inv_def)
next
  case (run_crash w)
  with assms(1) archived_crash show ?thesis by (auto simp: run_inv_def)
qed

interpretation arch_run: invariant_system "run_init o'" "run_step gz o'" "run_inv gz o'" for gz o'
  by unfold_locales (auto intro: run_inv_init run_inv_step)
section \<open>The destination contract\<close>

text \<open>No error of the store is the program's own \<open>ErrSkipped\<close>.\<close>

definition unskipped :: "goerr option \<Rightarrow> bool" where
  "unskipped x \<longleftrightarrow> (\<forall>e. x = Some e \<longrightarrow> \<not> is_skipped e)"

lemma unskipped_simps [simp]:
  "unskipped None" "unskipped (Some (Msg m))" "unskipped (Some (Wrap m [e])) \<longleftrightarrow> unskipped (Some e)"
  "unskipped (Some io_error)" "unskipped (Some err_not_exist)"
  by (auto simp: unskipped_def is_skipped_def is_sentinel_def io_error_def err_not_exist_def)

lemma unskipped_plain: "unskipped (fst (sys_plain k w))" "unskipped (fst (sys_open_append p w))"
  "unskipped (fst (sys_rename p q w))" "unskipped (fst (sys_remove p w))" "unskipped (fst (sys_sync p w))"
  "unskipped (fst (sys_truncate p n w))" "unskipped (snd (fst (sys_write p l w)))"
  by (auto simp: sys_plain_def sys_open_append_def sys_rename_def sys_remove_def sys_sync_def sys_truncate_def
      sys_write_def split: prod.splits option.splits)

lemma unskipped_result:
  "sys_plain k w = (e, w') \<Longrightarrow> unskipped e" "sys_open_append p w = (e, w') \<Longrightarrow> unskipped e"
  "sys_rename p q w = (e, w') \<Longrightarrow> unskipped e" "sys_remove p w = (e, w') \<Longrightarrow> unskipped e"
  "sys_sync p w = (e, w') \<Longrightarrow> unskipped e" "sys_truncate p n w = (e, w') \<Longrightarrow> unskipped e"
  "sys_write p l w = ((n, e), w') \<Longrightarrow> unskipped e"
  using unskipped_plain by (metis fst_conv snd_conv)+

lemma unskipped_read: "sys_read p w = (Inl e, w') \<Longrightarrow> unskipped (Some e)"
  by (auto simp: sys_read_def split: prod.splits option.splits)

lemma unskipped_cut: "cut_partial_line p n w = (Inl e, w') \<Longrightarrow> unskipped (Some e)"
  by (auto simp: cut_partial_line_def Let_def split: if_splits prod.splits option.splits sum.splits
      dest: unskipped_result unskipped_read)

lemma unskipped_finalize_at: "finalize_at gz d s w = (Inl e, s', w') \<Longrightarrow> unskipped (Some e)"
  by (auto simp: finalize_at_def Let_def split: if_splits prod.splits option.splits dest: unskipped_result)

lemma unskipped_finalize: "store_finalize gz d s w = (Inl e, s', w') \<Longrightarrow> unskipped (Some e)"
  by (auto simp: store_finalize_def split: if_splits prod.splits stat_result.splits dest: unskipped_finalize_at)

lemma unskipped_rotate: "store_rotate gz s w = (e, s', w') \<Longrightarrow> unskipped e"
  by (auto simp: store_rotate_def Let_def split: if_splits prod.splits option.splits sum.splits stat_result.splits
      dest: unskipped_result unskipped_cut unskipped_finalize)

lemma unskipped_open: "store_open now s w = (e, s', w') \<Longrightarrow> unskipped e"
  by (auto simp: store_open_def Let_def split: if_splits prod.splits option.splits stat_result.splits dest: unskipped_result)

lemma unskipped_ready: "store_ready gz n now s w = (e, s', w') \<Longrightarrow> unskipped e"
  by (auto simp: store_ready_def split: if_splits prod.splits option.splits dest: unskipped_open unskipped_rotate)

lemma unskipped_append_line: "append_line l ts now s w = (e, s', w') \<Longrightarrow> unskipped e"
  by (auto simp: append_line_def Let_def split: if_splits prod.splits option.splits dest: unskipped_result)

lemma unskipped_encode: "arch_encode env = Inl e \<Longrightarrow> unskipped (Some e)"
  by (auto simp: arch_encode_def permanent_def unskipped_def is_skipped_def is_sentinel_def split: if_splits option.splits)

lemma unskipped_process:
  assumes "archive_process gz ans env sw = (e, sw')" and "unskipped (fst ans)"
  shows "unskipped e"
  using assms
  by (auto simp: archive_process_def store_append_def split: prod.splits option.splits sum.splits if_splits
      dest: unskipped_encode unskipped_ready unskipped_append_line)

interpretation arch: destination "archive_process gz" "\<lambda>sw env. archived gz o' (snd sw) env" "\<lambda>env. True"
  "\<lambda>sw. store_inv (norm_options o') (fst sw) (snd sw) \<and> fair o' (snd sw)" "\<lambda>ans. unskipped (fst ans)" for gz o'
proof unfold_locales
  fix sw ans env sw'
  assume g: "store_inv (norm_options o') (fst sw) (snd sw) \<and> fair o' (snd sw)"
  note p = archive_process_ok [of gz ans env "fst sw" "snd sw" _ "fst sw'" "snd sw'" o', simplified]
  show "archive_process gz ans env sw = (None, sw') \<Longrightarrow> archived gz o' (snd sw') env"
    using p [of None] g by blast
  fix e
  show "unskipped (fst ans) \<Longrightarrow> archive_process gz ans env sw = (Some e, sw') \<Longrightarrow> is_skipped e \<Longrightarrow> \<not> True"
    using unskipped_process [of gz ans env sw "Some e" sw'] by (simp add: unskipped_def)
  fix r ev'
  show "archive_process gz ans env sw = (r, sw') \<Longrightarrow> archived gz o' (snd sw) ev' \<Longrightarrow> archived gz o' (snd sw') ev'"
    using p [of r] g archived_keeps by blast
  show "archive_process gz ans env sw = (r, sw') \<Longrightarrow>
      store_inv (norm_options o') (fst sw') (snd sw') \<and> fair o' (snd sw')"
    using p [of r] g keeps_fair by blast
qed

end
