(* ===== verification/ArchiveProps.thy ===== *)
theory ArchiveProps
  imports ArchiveSystem
begin

text \<open>
  The properties of the archive sink, with a sample store and disk for their witnesses.
\<close>

section \<open>A sample store\<close>

definition sample_store :: store_options where
  "sample_store = \<lparr>so_dir = ''/a'', so_prefix = ''raw'', so_compress = ''gzip'', so_rotate_size = 10, so_rotate_every = 0\<rparr>"

text \<open>A directory without files; some calls may fail.\<close>

definition sample_disk :: "(call \<Rightarrow> nat \<Rightarrow> nat option) \<Rightarrow> world" where
  "sample_disk faults = \<lparr>w_files = [], w_fault = faults, w_mtime = (\<lambda>n. 0), w_tick = 0\<rparr>"

definition no_faults :: "call \<Rightarrow> nat \<Rightarrow> nat option" where "no_faults k n = None"

definition sample_gzip :: "string \<Rightarrow> string \<Rightarrow> string" where "sample_gzip n c = n @ newline # c"

lemma sample_opens:
  "\<exists>s w s' w'. open_store sample_gzip sample_store (sample_disk no_faults) = (Inr s, w) \<and>
     archive_process sample_gzip (None, 5) sample_envelope (s, w) = (None, s', w')"
proof -
  have c: "case open_store sample_gzip sample_store (sample_disk no_faults) of
      (Inr s, w) \<Rightarrow> fst (archive_process sample_gzip (None, 5) sample_envelope (s, w)) = None
    | (Inl e, w) \<Rightarrow> False"
    by code_simp
  obtain r w where o': "open_store sample_gzip sample_store (sample_disk no_faults) = (r, w)" by fastforce
  with c obtain s where s: "r = Inr s" by (cases r) auto
  with c o' have "fst (archive_process sample_gzip (None, 5) sample_envelope (s, w)) = None" by simp
  with o' s show ?thesis by (metis prod.collapse)
qed

lemma sample_fair: "fair sample_store (sample_disk no_faults)"
  by (simp add: fair_def honest_world_def honest_truncate_def sample_disk_def no_faults_def)

section \<open>Properties\<close>


text \<open>A crash that kept what was written.\<close>

definition settle :: "world \<Rightarrow> world" where
  "settle w = w\<lparr>w_files := map (\<lambda>(p, f). (p, f\<lparr>f_synced := f_content f\<rparr>)) (w_files w)\<rparr>"

lemma lookup_settle: "lookup (settle w) p = map_option (\<lambda>f. f\<lparr>f_synced := f_content f\<rparr>) (lookup w p)"
  by (simp add: lookup_def settle_def map_of_map)

lemma crash_settle: "crash w (settle w)"
proof -
  have "file_after_crash f (f\<lparr>f_synced := f_content f\<rparr>)" for f
    using common_prefix_split [of "f_content f" "f_synced f"]
    by (auto simp: file_after_crash_def safe_bytes_def) (metis append_eq_conv_conj)
  then show ?thesis by (simp add: crash_def lookup_settle split: option.splits)
qed

lemma fair_settle [simp]: "fair o' (settle w) \<longleftrightarrow> fair o' w"
  by (simp add: fair_def honest_world_def honest_truncate_def settle_def)

lemma sample_run:
  "\<exists>r. reachable (run_init sample_store) (run_step sample_gzip sample_store) r \<and> ru_store r = None \<and>
     ru_acked r = [sample_envelope]"
proof -
  let ?st = "run_step sample_gzip sample_store"
  let ?r0 = "\<lparr>ru_store = None, ru_world = sample_disk no_faults, ru_acked = []\<rparr>"
  obtain s w s' w' where 1: "open_store sample_gzip sample_store (sample_disk no_faults) = (Inr s, w)"
    and 2: "archive_process sample_gzip (None, 5) sample_envelope (s, w) = (None, s', w')" using sample_opens by blast
  let ?r1 = "?r0\<lparr>ru_store := Some s, ru_world := w\<rparr>"
  let ?r2 = "?r1\<lparr>ru_store := Some s', ru_world := w', ru_acked := [sample_envelope]\<rparr>"
  have i: "run_init sample_store ?r0" by (simp add: run_init_def sample_fair)
  have s1: "?st ?r0 ?r1" by (rule run_open) (simp_all add: 1)
  have s2: "?st ?r1 ?r2" using run_ack [of ?r1 s sample_gzip "(None, 5)" sample_envelope s' w' sample_store] 2 by simp
  have reach: "reachable (run_init sample_store) ?st ?r2"
    using i s1 s2 by (meson reachable_init reachable_step)
  then have "fair sample_store w'" using arch_run.reachable_inv [OF reach] by (simp add: run_inv_def)
  then have "?st ?r2 (?r2\<lparr>ru_store := None, ru_world := settle w'\<rparr>)"
    by (intro run_crash) (simp_all add: crash_settle)
  with reach have "reachable (run_init sample_store) ?st (?r2\<lparr>ru_store := None, ru_world := settle w'\<rparr>)"
    by (rule reachable_step)
  then show ?thesis by (intro exI conjI, assumption) simp_all
qed





text \<open>
  The search for the name of a finalized file ends: one more try than there are files is enough,
  whatever the existence tests answer.
\<close>

theorem archive_name_search_ends: "pick_name (name_fuel w) dir day s w \<noteq> None"
  by (rule pick_name_ends)

text \<open>
  Sinks that share a directory leave each other's archives alone: the sweep at start-up changes no
  file whose name is a finalized name of another prefix, even when one prefix extends the other.
\<close>

theorem archive_sweep_spares_others:
  assumes "store_sweep gz o' w = (e, w')" and "final_kind_of q (snd p) = Some k" and "q \<noteq> so_prefix o'"
  shows "lookup w' p = lookup w p"
proof -
  have "final_kind_of (so_prefix o') (snd p) = None"
    using final_kind_prefix assms(2,3) by (metis option.exhaust)
  with store_sweep_touches [OF assms(1)] show ?thesis by (simp add: touches_def)
qed

definition shared_disk :: world where
  "shared_disk = put_file (''2026/01/01'', ''raw-2-20260101T000000Z-1.jsonl'') \<lparr>f_content = ''x'', f_synced = ''x''\<rparr> (sample_disk no_faults)"

theorem archive_sweep_spares_others_witness:
  "\<exists>w'. store_sweep sample_gzip sample_store shared_disk = (None, w') \<and>
     map_option f_content (lookup w' (''2026/01/01'', ''raw-2-20260101T000000Z-1.jsonl'')) = Some ''x''"
proof -
  let ?p = "(''2026/01/01'', ''raw-2-20260101T000000Z-1.jsonl'')"
  have 1: "fst (store_sweep sample_gzip sample_store shared_disk) = None" by code_simp
  then obtain w' where s: "store_sweep sample_gzip sample_store shared_disk = (None, w')" by (metis prod.collapse)
  have k: "final_kind_of ''raw-2'' (snd ?p) = Some FPlain" by code_simp
  have "lookup w' ?p = lookup shared_disk ?p"
    by (rule archive_sweep_spares_others [OF s k]) (simp add: sample_store_def)
  then show ?thesis using s by (simp add: shared_disk_def)
qed

text \<open>
  C39: a failed write whose truncation fails too costs the next event when files do not rotate by age: the
  next append is acknowledged, but its line continues the partial one, and reading the file gives no event.
\<close>

definition two_faults :: "call \<Rightarrow> nat \<Rightarrow> nat option" where
  "two_faults k n = (if k = CWrite \<and> n = 5 then Some 3 else if k = CTruncate then Some 0 else None)"


text \<open>
  C40: the backward search of a current file in chunks of 64 KiB finds the offset after its last newline,
  the length of its whole lines, wherever the newline stands.
\<close>

theorem archive_last_newline_exact:
  assumes "pos \<le> length c"
  shows "last_newline c pos = length (whole_lines (take pos c))"
  by (rule last_newline_whole [OF assms])

theorem archive_last_newline_exact_witness: "last_newline (''ab'' @ [newline] @ ''cd'') 5 = 3"
  by (subst archive_last_newline_exact) (simp_all add: whole_lines_def newline_def)

end
