(* ===== verification/SinkDriver.thy ===== *)
theory SinkDriver
  imports OtlpFacts
begin

text \<open>
  The contract between a destination class and its driver (the \<open>Exporter\<close>, \<open>Writer\<close> interfaces of
  \<open>sink/trace/sink.go\<close>, \<open>sink/log/sink.go\<close> and \<open>sink/analytics/sink.go\<close>), as a locale, and the OTLP client
  as a driver. A driver returns nil only once its destination has taken the batch.
\<close>

section \<open>The contract\<close>

locale driver =
  fixes deliver :: "'a \<Rightarrow> 'x \<Rightarrow> 'd \<Rightarrow> goerr option \<times> 'd"
    and taken :: "'d \<Rightarrow> 'x \<Rightarrow> bool"
    and answers :: "'a \<Rightarrow> bool"
    and good :: "'d \<Rightarrow> bool"
  assumes deliver_ok: "good d \<Longrightarrow> deliver ans x d = (None, d') \<Longrightarrow> taken d' x"
    and deliver_keeps: "deliver ans x d = (r, d') \<Longrightarrow> taken d y \<Longrightarrow> taken d' y"
    and deliver_unskipped: "answers ans \<Longrightarrow> deliver ans x d = (Some e, d') \<Longrightarrow> \<not> is_skipped e"
    and deliver_good: "good d \<Longrightarrow> deliver ans x d = (r, d') \<Longrightarrow> good d'"

section \<open>The OTLP client\<close>

text \<open>\<open>ExportSpans\<close> and \<open>ExportLogs\<close>, with the batches a collector has answered with success.\<close>

definition client_export ::
  "otlp_config \<Rightarrow> (int \<Rightarrow> export_answer) \<Rightarrow> 'i list \<Rightarrow> 'i list list \<Rightarrow> goerr option \<times> 'i list list" where
  "client_export cfg ans items batches = (case export_items cfg ans items of
     (Some e, ds, rej) \<Rightarrow> (Some e, batches)
   | (None, ds, rej) \<Rightarrow> (None, if items = [] then batches else batches @ [items]))"

definition batch_taken :: "'i list list \<Rightarrow> 'i list \<Rightarrow> bool" where
  "batch_taken batches items \<longleftrightarrow> items = [] \<or> items \<in> set batches"

text \<open>What the transport reports is not an error of the program's own.\<close>

definition client_answers :: "(int \<Rightarrow> export_answer) \<Rightarrow> bool" where
  "client_answers ans \<longleftrightarrow> (\<forall>n x. ea_outcome (ans n) = Inl x \<longrightarrow> \<not> is_permanent x \<and> \<not> is_skipped x)"

lemma export_items_unskipped:
  assumes "client_answers ans" and "export_items cfg ans items = (Some e, ds, rej)"
  shows "\<not> is_skipped e"
proof -
  have "export_loop cfg ans 0 = (Some e, ds, rej)"
    using assms(2) by (auto simp: export_items_def otlp_export_def split: if_splits)
  from export_loop_outcome [OF this] obtain n where "ends_with cfg ans n (Some e) rej"
    by (auto simp: Let_def)
  from ends_not_skipped [OF this] assms(1) show ?thesis by (simp add: client_answers_def)
qed

interpretation client: driver "client_export cfg" batch_taken client_answers "\<lambda>d. True" for cfg
proof unfold_locales
  fix ans d d' r e and x y :: "'b list"
  show "client_export cfg ans x d = (None, d') \<Longrightarrow> batch_taken d' x"
    by (auto simp: client_export_def batch_taken_def split: prod.splits option.splits if_splits)
  show "client_export cfg ans x d = (r, d') \<Longrightarrow> batch_taken d y \<Longrightarrow> batch_taken d' y"
    by (auto simp: client_export_def batch_taken_def split: prod.splits option.splits if_splits)
  show "client_answers ans \<Longrightarrow> client_export cfg ans x d = (Some e, d') \<Longrightarrow> \<not> is_skipped e"
    using export_items_unskipped by (fastforce simp: client_export_def split: prod.splits option.splits if_splits)
qed simp

section \<open>Errors of the projection\<close>

lemma normalize_unskipped: "normalize env = Inl e \<Longrightarrow> permanent (Some e) = Some x \<Longrightarrow> \<not> is_skipped x"
  by (auto simp: normalize_def decode_run_def decode_job_def decode_payload_def resolve_repository_def
      malformed_def err_malformed_def permanent_def is_skipped_def is_sentinel_def Let_def
      split: if_splits sum.splits option.splits)

lemma err_skipped_is_skipped [simp]: "is_skipped err_skipped"
  by (simp add: is_skipped_def err_skipped_def is_sentinel_def)

lemma is_skipped_nodes [simp]:
  "is_skipped (Wrap m [e]) = is_skipped e" "is_skipped (PermanentE e) = is_skipped e" "\<not> is_skipped (Msg m)"
  "\<not> is_skipped (GoogleAPI n)"
  by (simp_all add: is_skipped_def is_sentinel_def)

lemma is_skipped_permanent [simp]: "is_skipped (the (permanent (Some e))) = is_skipped e"
  by (simp add: permanent_def)

lemma permanent_Some [simp]: "permanent (Some e) \<noteq> None"
  by (simp add: permanent_def)

lemma is_skipped_permanentD: "permanent (Some e) = Some x \<Longrightarrow> is_skipped x = is_skipped e"
  by (auto simp: permanent_def split: if_splits)

end
