(* ===== verification/Trace.thy ===== *)
theory Trace
  imports SinkDriver
begin

text \<open>
  Package \<open>trace\<close> (\<open>internal/sink/trace\<close>): the projection of completed runs and jobs into spans, and the sink
  over an exporter. The exporter is an argument, under the contract \<open>driver\<close>; the otlp driver is an instance.
\<close>

section \<open>Projection\<close>

definition prefix_run :: string where "prefix_run = ''run:''"
definition prefix_job :: string where "prefix_job = ''job:''"
definition prefix_step :: string where "prefix_step = ''step:''"

type_synonym attrs = "(string \<times> goval) list"

definition set_string :: "string \<Rightarrow> string option \<Rightarrow> attrs \<Rightarrow> attrs" where
  "set_string k v m = (case v of None \<Rightarrow> m | Some s \<Rightarrow> AList.update k (GStr s) m)"

definition set_labels :: "string list option \<Rightarrow> attrs \<Rightarrow> attrs" where
  "set_labels ls m = (case ls of None \<Rightarrow> m
     | Some l \<Rightarrow> if l = [] then m else AList.update ''github.labels'' (GStrs l) m)"

definition span_status :: "string option \<Rightarrow> int \<times> string" where
  "span_status c = (case c of
     None \<Rightarrow> (status_unset, [])
   | Some s \<Rightarrow> if s = ''success'' then (status_ok, [])
       else if s = ''failure'' \<or> s = ''timed_out'' then (status_error, s)
       else (status_unset, []))"

definition run_attrs :: "run \<Rightarrow> attrs" where
  "run_attrs r = set_string ''github.conclusion'' (r_conclusion r) (set_string ''github.actor'' (r_actor r)
     (set_string ''github.head_branch'' (r_head_branch r) (set_string ''github.workflow.name'' (r_workflow_name r)
     [(''github.repository'', GStr (r_repository r)), (''github.workflow.path'', GStr (r_workflow_path r)),
      (''github.run_id'', GInt (r_run_id r)), (''github.run_number'', GInt (r_run_number r)),
      (''github.run_attempt'', GInt (r_run_attempt r)), (''github.event'', GStr (r_trigger_event r)),
      (''github.head_sha'', GStr (r_head_sha r)), (''github.html_url'', GStr (r_html_url r))])))"

definition run_name :: "run \<Rightarrow> string" where
  "run_name r = (case r_workflow_name r of Some n \<Rightarrow> n | None \<Rightarrow> r_workflow_path r)"

definition run_span :: "run \<Rightarrow> span" where
  "run_span r = (let (code, msg) = span_status (r_conclusion r) in
     \<lparr>sp_trace_id = run_trace_id r, sp_span_id = run_root_span_id r, sp_parent_id = replicate 8 (CHR 0x00),
      sp_name = prefix_run @ run_name r, sp_kind = span_kind_internal,
      sp_start = or_time (r_started_at r) (r_created_at r), sp_end = r_updated_at r, sp_attrs = run_attrs r,
      sp_status_code = code, sp_status_msg = msg\<rparr>)"

definition job_attrs :: "job \<Rightarrow> attrs" where
  "job_attrs j = set_labels (j_labels j) (set_string ''github.conclusion'' (j_conclusion j)
     (set_string ''github.runner_group'' (j_runner_group j) (set_string ''github.runner_name'' (j_runner_name j)
     (set_string ''github.head_branch'' (j_head_branch j) (set_string ''github.workflow.name'' (j_workflow_name j)
     [(''github.repository'', GStr (j_repository j)), (''github.run_id'', GInt (j_run_id j)),
      (''github.run_attempt'', GInt (j_run_attempt j)), (''github.job_id'', GInt (j_job_id j)),
      (''github.head_sha'', GStr (j_head_sha j)), (''github.html_url'', GStr (j_html_url j))])))))"

definition step_span :: "job \<Rightarrow> step \<Rightarrow> span option" where
  "step_span j s = (case (s_started_at s, s_completed_at s) of
     (Some start, Some end') \<Rightarrow>
       (let (code, msg) = span_status (s_conclusion s) in
        Some \<lparr>sp_trace_id = job_trace_id j, sp_span_id = step_own_span_id s j, sp_parent_id = job_own_span_id j,
          sp_name = prefix_step @ s_name s, sp_kind = span_kind_internal, sp_start = start, sp_end = end',
          sp_attrs = set_string ''github.step.conclusion'' (s_conclusion s) [(''github.step.number'', GInt (s_number s))],
          sp_status_code = code, sp_status_msg = msg\<rparr>)
   | _ \<Rightarrow> None)"

definition job_span :: "execution \<Rightarrow> job \<Rightarrow> span" where
  "job_span exec j = (let (code, msg) = span_status (j_conclusion j) in
     \<lparr>sp_trace_id = job_trace_id j, sp_span_id = job_own_span_id j, sp_parent_id = job_parent_span_id j,
      sp_name = prefix_job @ j_name j, sp_kind = span_kind_internal,
      sp_start = or_time (j_started_at j) (j_created_at j), sp_end = or_time (j_completed_at j) (event_time exec),
      sp_attrs = job_attrs j, sp_status_code = code, sp_status_msg = msg\<rparr>)"

definition job_spans :: "execution \<Rightarrow> job \<Rightarrow> span list" where
  "job_spans exec j = job_span exec j # List.map_filter (step_span j) (j_steps j)"

definition trace_project :: "execution \<Rightarrow> goerr + span list" where
  "trace_project exec = (case x_kind exec of
     KindRun \<Rightarrow> (case x_run exec of
         Some r \<Rightarrow> if r_status r = status_completed then Inr [run_span r] else Inl err_skipped
       | None \<Rightarrow> Inl err_skipped)
   | KindJob \<Rightarrow> (case x_job exec of
         Some j \<Rightarrow> if j_status j = status_completed then Inr (job_spans exec j) else Inl err_skipped
       | None \<Rightarrow> Inl err_skipped)
   | KindNone \<Rightarrow> Inl err_skipped)"

section \<open>The sink\<close>

text \<open>\<open>export\<close> takes the answers around the call, the spans and the destination.\<close>

definition trace_process ::
  "('a \<Rightarrow> span list \<Rightarrow> 'd \<Rightarrow> goerr option \<times> 'd) \<Rightarrow> 'a \<Rightarrow> envelope \<Rightarrow> 'd \<Rightarrow> goerr option \<times> 'd" where
  "trace_process export ans env d = (case normalize env of
     Inl e \<Rightarrow> (permanent (Some e), d)
   | Inr exec \<Rightarrow>
       (case trace_project exec of
          Inl e \<Rightarrow> (Some e, d)
        | Inr spans \<Rightarrow>
            (case export ans spans d of
               (Some e, d) \<Rightarrow> (Some (Wrap ''export spans'' [e]), d)
             | (None, d) \<Rightarrow> (None, d))))"

section \<open>The spans of a trace\<close>

text \<open>One tree: a first span, and the others its children, in its trace.\<close>

definition span_tree :: "span list \<Rightarrow> bool" where
  "span_tree spans \<longleftrightarrow> (case spans of [] \<Rightarrow> False
     | root # kids \<Rightarrow> (\<forall>k \<in> set kids. sp_trace_id k = sp_trace_id root \<and> sp_parent_id k = sp_span_id root))"

lemma step_span_Some:
  "step_span j s = Some sp \<Longrightarrow> sp_trace_id sp = job_trace_id j \<and> sp_parent_id sp = job_own_span_id j \<and>
     sp_span_id sp = step_own_span_id s j \<and> s_started_at s = Some (sp_start sp) \<and> s_completed_at s = Some (sp_end sp)"
  by (auto simp: step_span_def Let_def split: option.splits prod.splits)

lemma step_span_None: "step_span j s = None \<longleftrightarrow> s_started_at s = None \<or> s_completed_at s = None"
  by (auto simp: step_span_def Let_def split: option.splits prod.splits)

lemma job_spans_tree: "span_tree (job_spans exec j)"
  by (auto simp: span_tree_def job_spans_def job_span_def Let_def List.map_filter_def
      dest: step_span_Some split: prod.splits)

lemma run_spans_tree: "span_tree [run_span r]"
  by (simp add: span_tree_def)

lemma project_tree: "trace_project exec = Inr spans \<Longrightarrow> span_tree spans"
  by (auto simp: trace_project_def job_spans_tree run_spans_tree split: exec_kind.splits option.splits if_splits)

lemma project_error: "trace_project exec = Inl e \<Longrightarrow> e = err_skipped"
  by (auto simp: trace_project_def split: exec_kind.splits option.splits if_splits)

lemma project_wanted:
  "(\<exists>spans. trace_project exec = Inr spans) \<longleftrightarrow>
     (x_kind exec = KindRun \<and> (\<exists>r. x_run exec = Some r \<and> r_status r = status_completed)) \<or>
     (x_kind exec = KindJob \<and> (\<exists>j. x_job exec = Some j \<and> j_status j = status_completed))"
  by (auto simp: trace_project_def split: exec_kind.splits option.splits)

section \<open>The sink as a destination\<close>

definition spans_of :: "envelope \<Rightarrow> span list option" where
  "spans_of env = (case normalize env of
     Inl e \<Rightarrow> None
   | Inr exec \<Rightarrow> (case trace_project exec of Inl e \<Rightarrow> None | Inr spans \<Rightarrow> Some spans))"

definition trace_delivered :: "('d \<Rightarrow> span list \<Rightarrow> bool) \<Rightarrow> 'd \<Rightarrow> envelope \<Rightarrow> bool" where
  "trace_delivered taken d env \<longleftrightarrow> (\<exists>spans. spans_of env = Some spans \<and> taken d spans)"

text \<open>\<open>Exporter\<close>: a driver of spans.\<close>

locale exporter = driver export taken answers good
  for export :: "'a \<Rightarrow> span list \<Rightarrow> 'd \<Rightarrow> goerr option \<times> 'd" and taken :: "'d \<Rightarrow> span list \<Rightarrow> bool"
    and answers :: "'a \<Rightarrow> bool" and good :: "'d \<Rightarrow> bool"
begin

lemma trace_process_ok:
  "good d \<Longrightarrow> trace_process export ans env d = (None, d') \<Longrightarrow> trace_delivered taken d' env"
  by (auto simp: trace_process_def trace_delivered_def spans_of_def permanent_def dest: deliver_ok
      split: sum.splits prod.splits option.splits if_splits)

lemma trace_process_keeps:
  "trace_process export ans env d = (r, d') \<Longrightarrow> trace_delivered taken d ev \<Longrightarrow> trace_delivered taken d' ev"
  by (auto simp: trace_process_def trace_delivered_def dest: deliver_keeps
      split: sum.splits prod.splits option.splits)

lemma trace_process_skip:
  "answers ans \<Longrightarrow> trace_process export ans env d = (Some e, d') \<Longrightarrow> is_skipped e \<Longrightarrow> spans_of env = None"
  by (auto simp: trace_process_def spans_of_def dest: deliver_unskipped normalize_unskipped
      split: sum.splits prod.splits option.splits)

end

interpretation span_client: exporter "client_export cfg" batch_taken client_answers "\<lambda>d. True" for cfg
  by unfold_locales

interpretation otlp_trace: destination "trace_process (client_export cfg)" "trace_delivered batch_taken"
  "\<lambda>env. spans_of env \<noteq> None" "\<lambda>d. True" client_answers for cfg
proof (unfold_locales, goal_cases)
  case 1
  then show ?case by (blast intro: span_client.trace_process_ok)
next
  case 2
  then show ?case by (simp add: span_client.trace_process_skip)
next
  case 3
  then show ?case by (elim span_client.trace_process_keeps)
qed simp

end
