(* ===== verification/Log.thy ===== *)
theory Log
  imports Trace
begin

text \<open>
  Package \<open>log\<close> (\<open>internal/sink/log\<close>): the projection of every event into one OTLP record, the sink over a
  writer, and the otlp driver, which exports each record on its own.
\<close>

section \<open>Projection\<close>

definition log_body :: "envelope \<Rightarrow> string \<Rightarrow> string" where
  "log_body env name = ev_event env @ (if ev_action env \<noteq> [] then '' '' @ ev_action env else []) @
     (if name \<noteq> [] then '': '' @ name else [])"

definition log_run_name :: "run \<Rightarrow> string" where
  "log_run_name r = (case r_workflow_name r of Some n \<Rightarrow> n | None \<Rightarrow> r_workflow_path r)"

definition put_if :: "bool \<Rightarrow> string \<Rightarrow> goval \<Rightarrow> attrs \<Rightarrow> attrs" where
  "put_if b k v m = (if b then AList.update k v m else m)"

definition put_all :: "attrs \<Rightarrow> attrs \<Rightarrow> attrs" where
  "put_all kvs m = fold (\<lambda>(k, v). AList.update k v) kvs m"

definition envelope_attrs :: "envelope \<Rightarrow> exec_kind \<Rightarrow> attrs" where
  "envelope_attrs env kind =
     put_if (repository env \<noteq> []) ''github.repository'' (GStr (repository env))
     (put_if (repository_id env \<noteq> 0) ''github.repository_id'' (GInt (repository_id env))
     (put_if (hook_id env \<noteq> []) ''github.hook_id'' (GStr (hook_id env))
     (put_if (ev_action env \<noteq> []) ''github.webhook.action'' (GStr (ev_action env))
     [(''github.delivery_guid'', GStr (delivery_guid env)), (''github.webhook.event'', GStr (ev_event env)),
      (''antwatcher.kind'', GStr (kind_string kind)),
      (''antwatcher.received_at'', GStr (format_rfc3339 (received_at env))),
      (''antwatcher.schema_version'', GInt (schema_version env))])))"

definition log_run_attrs :: "run \<Rightarrow> attrs \<Rightarrow> attrs" where
  "log_run_attrs r m =
     set_string ''github.actor'' (r_actor r) (set_string ''github.head_branch'' (r_head_branch r)
     (set_string ''github.conclusion'' (r_conclusion r) (set_string ''github.workflow.name'' (r_workflow_name r)
     (put_all [(''github.repository_id'', GInt (r_repository_id r)), (''github.repository'', GStr (r_repository r)),
      (''github.workflow.id'', GInt (r_workflow_id r)), (''github.workflow.path'', GStr (r_workflow_path r)),
      (''github.run_id'', GInt (r_run_id r)), (''github.run_number'', GInt (r_run_number r)),
      (''github.run_attempt'', GInt (r_run_attempt r)), (''github.status'', GStr (r_status r)),
      (''github.event'', GStr (r_trigger_event r)), (''github.head_sha'', GStr (r_head_sha r)),
      (''github.html_url'', GStr (r_html_url r))] m))))"

text \<open>The loop over the steps: how many are completed, failed and skipped.\<close>

definition count_step :: "step \<Rightarrow> int \<times> int \<times> int \<Rightarrow> int \<times> int \<times> int" where
  "count_step s acc = (case acc of (completed, failed, skipped) \<Rightarrow>
     let completed = (if s_status s = status_completed then completed + 1 else completed) in
     case s_conclusion s of
       None \<Rightarrow> (completed, failed, skipped)
     | Some c \<Rightarrow> if c = ''failure'' \<or> c = ''timed_out'' then (completed, failed + 1, skipped)
         else if c = ''skipped'' then (completed, failed, skipped + 1)
         else (completed, failed, skipped))"

definition log_job_attrs :: "job \<Rightarrow> attrs \<Rightarrow> attrs" where
  "log_job_attrs j m = (let (completed, failed, skipped) = fold count_step (j_steps j) (0, 0, 0) in
     put_all [(''github.steps.total'', GInt (int (length (j_steps j)))), (''github.steps.completed'', GInt completed),
       (''github.steps.failed'', GInt failed), (''github.steps.skipped'', GInt skipped)]
     (set_labels (j_labels j) (set_string ''github.runner_group'' (j_runner_group j)
     (set_string ''github.runner_name'' (j_runner_name j) (set_string ''github.head_branch'' (j_head_branch j)
     (set_string ''github.conclusion'' (j_conclusion j) (set_string ''github.workflow.name'' (j_workflow_name j)
     (put_all [(''github.repository_id'', GInt (j_repository_id j)), (''github.repository'', GStr (j_repository j)),
      (''github.run_id'', GInt (j_run_id j)), (''github.run_attempt'', GInt (j_run_attempt j)),
      (''github.job_id'', GInt (j_job_id j)), (''github.job.name'', GStr (j_name j)),
      (''github.status'', GStr (j_status j)), (''github.head_sha'', GStr (j_head_sha j)),
      (''github.html_url'', GStr (j_html_url j))] m))))))))"

definition log_severity :: "string option \<Rightarrow> int \<times> string" where
  "log_severity c = (case c of
     None \<Rightarrow> (otlp_info, ''INFO'')
   | Some s \<Rightarrow> if s = ''failure'' \<or> s = ''timed_out'' then (otlp_error, ''ERROR'')
       else if s = ''cancelled'' then (otlp_warn, ''WARN'')
       else (otlp_info, ''INFO''))"

text \<open>The identifiers of a record without an entity are arrays of zero bytes.\<close>

definition zero_trace :: string where "zero_trace = replicate 16 (CHR 0x00)"
definition zero_span :: string where "zero_span = replicate 8 (CHR 0x00)"

definition log_project :: "execution \<Rightarrow> log_record" where
  "log_project exec =
     (let env = x_envelope exec;
          (sev, txt) = log_severity None;
          rec = \<lparr>lr_time = event_time exec, lr_observed = received_at env, lr_severity = sev, lr_severity_text = txt,
            lr_body = [], lr_attrs = envelope_attrs env (x_kind exec), lr_trace_id = zero_trace, lr_span_id = zero_span\<rparr>;
          (name, rec) = (case x_kind exec of
              KindRun \<Rightarrow> (case x_run exec of
                  Some r \<Rightarrow> (let (sev, txt) = log_severity (r_conclusion r) in
                    (log_run_name r, rec\<lparr>lr_attrs := log_run_attrs r (lr_attrs rec), lr_severity := sev,
                       lr_severity_text := txt, lr_trace_id := run_trace_id r, lr_span_id := run_root_span_id r\<rparr>))
                | None \<Rightarrow> ([], rec))
            | KindJob \<Rightarrow> (case x_job exec of
                  Some j \<Rightarrow> (let (sev, txt) = log_severity (j_conclusion j) in
                    (j_name j, rec\<lparr>lr_attrs := log_job_attrs j (lr_attrs rec), lr_severity := sev,
                       lr_severity_text := txt, lr_trace_id := job_trace_id j, lr_span_id := job_own_span_id j\<rparr>))
                | None \<Rightarrow> ([], rec))
            | KindNone \<Rightarrow> ([], rec))
      in rec\<lparr>lr_body := log_body env name\<rparr>)"

section \<open>The sink\<close>

definition log_process ::
  "('a \<Rightarrow> log_record \<Rightarrow> 'd \<Rightarrow> goerr option \<times> 'd) \<Rightarrow> 'a \<Rightarrow> envelope \<Rightarrow> 'd \<Rightarrow> goerr option \<times> 'd" where
  "log_process writer ans env d = (case normalize env of
     Inl e \<Rightarrow> (permanent (Some e), d)
   | Inr exec \<Rightarrow>
       (case writer ans (log_project exec) d of
          (Some e, d) \<Rightarrow> (Some (Wrap ''write log record'' [e]), d)
        | (None, d) \<Rightarrow> (None, d)))"

text \<open>The otlp driver.\<close>

definition otlp_write ::
  "otlp_config \<Rightarrow> (int \<Rightarrow> export_answer) \<Rightarrow> log_record \<Rightarrow> log_record list list \<Rightarrow> goerr option \<times> log_record list list" where
  "otlp_write cfg ans rec batches = client_export cfg ans [rec] batches"

section \<open>The sink as a destination\<close>

definition log_delivered :: "('d \<Rightarrow> log_record \<Rightarrow> bool) \<Rightarrow> 'd \<Rightarrow> envelope \<Rightarrow> bool" where
  "log_delivered taken d env \<longleftrightarrow> (\<exists>exec. normalize env = Inr exec \<and> taken d (log_project exec))"

text \<open>\<open>Writer\<close>: a driver of single records.\<close>

locale log_writer = driver writer taken answers good
  for writer :: "'a \<Rightarrow> log_record \<Rightarrow> 'd \<Rightarrow> goerr option \<times> 'd" and taken :: "'d \<Rightarrow> log_record \<Rightarrow> bool"
    and answers :: "'a \<Rightarrow> bool" and good :: "'d \<Rightarrow> bool"
begin

lemma log_process_ok: "good d \<Longrightarrow> log_process writer ans env d = (None, d') \<Longrightarrow> log_delivered taken d' env"
  by (auto simp: log_process_def log_delivered_def permanent_def dest: deliver_ok
      split: sum.splits prod.splits option.splits if_splits)

lemma log_process_keeps:
  "log_process writer ans env d = (r, d') \<Longrightarrow> log_delivered taken d ev \<Longrightarrow> log_delivered taken d' ev"
  by (auto simp: log_process_def log_delivered_def dest: deliver_keeps
      split: sum.splits prod.splits option.splits)

lemma log_process_unskipped:
  "answers ans \<Longrightarrow> log_process writer ans env d = (Some e, d') \<Longrightarrow> \<not> is_skipped e"
  by (auto simp: log_process_def dest: deliver_unskipped normalize_unskipped
      split: sum.splits prod.splits option.splits)

end

interpretation log_client: log_writer "otlp_write cfg" "\<lambda>batches rec. batch_taken batches [rec]" client_answers "\<lambda>d. True" for cfg
  by unfold_locales
    (auto simp: otlp_write_def intro: client.deliver_ok client.deliver_keeps dest: client.deliver_unskipped)

interpretation otlp_log: destination "log_process (otlp_write cfg)"
  "log_delivered (\<lambda>batches rec. batch_taken batches [rec])" "\<lambda>env. True" "\<lambda>d. True" client_answers for cfg
proof (unfold_locales, goal_cases)
  case 1
  then show ?case by (blast intro: log_client.log_process_ok)
next
  case 2
  then show ?case by (simp add: log_client.log_process_unskipped)
next
  case 3
  then show ?case by (elim log_client.log_process_keeps)
qed simp

end
