(* ===== verification/LogStdout.thy ===== *)
theory LogStdout
  imports Log ArchiveEncode
begin

text \<open>
  The stdout driver of the log class (\<open>internal/sink/log/drivers/stdout\<close>): one JSON document per record,
  compact or indented, written to a stream.
\<close>

section \<open>Configuration\<close>

record stdout_config =
  so_stream :: string
  so_pretty :: bool

definition stdout_default_config :: stdout_config where
  "stdout_default_config = \<lparr>so_stream = ''stdout'', so_pretty = False\<rparr>"

definition stdout_validate :: "stdout_config \<Rightarrow> goerr option" where
  "stdout_validate c = (if so_stream c = ''stdout'' \<or> so_stream c = ''stderr'' then None
     else Some (Msg ''stream must be stdout or stderr''))"

section \<open>Encode\<close>

text \<open>\<open>json.Marshal\<close> escapes the three characters that matter to HTML, which \<open>json_quote\<close> leaves alone.\<close>

definition html_char :: "char \<Rightarrow> string" where
  "html_char c = (if c = CHR ''<'' \<or> c = CHR ''>'' \<or> c = CHR ''&''
     then [bslash, CHR ''u'', CHR ''0'', CHR ''0'', hex_char (of_char c div 16), hex_char (of_char c mod 16)] else [c])"

definition marshal_string :: "string \<Rightarrow> string" where
  "marshal_string s = concat (map html_char (json_quote s))"

text \<open>
  The values of attributes; \<open>other\<close> is what \<open>json.Marshal\<close> makes of a value of a type no projection uses.
\<close>

fun marshal_value :: "(goval \<Rightarrow> goerr + string) \<Rightarrow> goval \<Rightarrow> goerr + string" where
  "marshal_value other (GStr s) = Inr (marshal_string s)"
| "marshal_value other (GInt i) = Inr (format_int i)"
| "marshal_value other (GBool b) = Inr (if b then ''true'' else ''false'')"
| "marshal_value other (GStrs ss) = Inr (''['' @ intercalate '','' (map marshal_string ss) @ '']'')"
| "marshal_value other v = other v"

definition marshal_member :: "string \<Rightarrow> string \<Rightarrow> string" where
  "marshal_member k text = marshal_string k @ '':'' @ text"

definition marshal_object :: "string list \<Rightarrow> string" where
  "marshal_object ms = ''{'' @ intercalate '','' ms @ ''}''"

fun marshal_members :: "(goval \<Rightarrow> goerr + string) \<Rightarrow> attrs \<Rightarrow> goerr + string list" where
  "marshal_members other [] = Inr []"
| "marshal_members other ((k, v) # m) = (case marshal_value other v of
     Inl e \<Rightarrow> Inl e
   | Inr t \<Rightarrow> (case marshal_members other m of Inl e \<Rightarrow> Inl e | Inr ts \<Rightarrow> Inr (marshal_member k t # ts)))"

definition format_time :: "gtime \<Rightarrow> string" where
  "format_time t = (if is_zero t then [] else format_rfc3339 t)"

record stdout_record =
  sr_time :: string
  sr_observed :: string
  sr_severity :: string
  sr_severity_number :: int
  sr_body :: string
  sr_trace_id :: string
  sr_span_id :: string
  sr_attributes :: attrs

definition stdout_encode :: "log_record \<Rightarrow> stdout_record" where
  "stdout_encode rec =
     \<lparr>sr_time = format_time (lr_time rec), sr_observed = format_time (lr_observed rec),
      sr_severity = lr_severity_text rec, sr_severity_number = lr_severity rec, sr_body = lr_body rec,
      sr_trace_id = (if zero_id (lr_trace_id rec) then [] else hex_encode (lr_trace_id rec)),
      sr_span_id = (if zero_id (lr_span_id rec) then [] else hex_encode (lr_span_id rec)),
      sr_attributes = lr_attrs rec\<rparr>"

definition string_member :: "string \<Rightarrow> string \<Rightarrow> string list" where
  "string_member k s = (if s = [] then [] else [marshal_member k (marshal_string s)])"

definition marshal_record :: "(goval \<Rightarrow> goerr + string) \<Rightarrow> stdout_record \<Rightarrow> goerr + string" where
  "marshal_record other r = (case marshal_members other (sort_kv (sr_attributes r)) of
     Inl e \<Rightarrow> Inl e
   | Inr ats \<Rightarrow> Inr (marshal_object
       ([marshal_member ''time'' (marshal_string (sr_time r))] @ string_member ''observed_time'' (sr_observed r) @
        [marshal_member ''severity'' (marshal_string (sr_severity r)),
         marshal_member ''severity_number'' (format_int (sr_severity_number r)),
         marshal_member ''body'' (marshal_string (sr_body r))] @
        string_member ''trace_id'' (sr_trace_id r) @ string_member ''span_id'' (sr_span_id r) @
        (if ats = [] then [] else [marshal_member ''attributes'' (marshal_object ats)]))))"

text \<open>\<open>json.Indent\<close> by two spaces: \<open>need\<close> is the delayed indentation after an opening bracket.\<close>

definition indent_line :: "nat \<Rightarrow> string" where
  "indent_line depth = newline # replicate (2 * depth) (CHR '' '')"

fun json_indent :: "scan \<Rightarrow> bool \<Rightarrow> nat \<Rightarrow> string \<Rightarrow> string" where
  "json_indent st need depth [] = []"
| "json_indent st need depth (c # s) =
     (if st \<noteq> Outside then c # json_indent (scan_step st c) need depth s
      else if json_space c then json_indent st need depth s
      else if c = CHR ''}'' \<or> c = CHR '']'' then
        (if need then c # json_indent st False depth s
         else indent_line (depth - 1) @ c # json_indent st False (depth - 1) s)
      else let pre = (if need then indent_line (depth + 1) else []);
               depth = (if need then depth + 1 else depth) in
        pre @ (if c = CHR ''{'' \<or> c = CHR ''['' then c # json_indent st True depth s
          else if c = CHR '','' then c # indent_line depth @ json_indent st False depth s
          else if c = CHR '':'' then c # CHR '' '' # json_indent st False depth s
          else c # json_indent (scan_step st c) False depth s))"

section \<open>Write\<close>

text \<open>
  The answers around a write: the context's error before it, and how many bytes the stream takes before
  it fails with what. The state is what the stream has been written.
\<close>

type_synonym stdout_answer = "ctx_err option \<times> (nat \<times> goerr) option"

definition stdout_document :: "bool \<Rightarrow> (goval \<Rightarrow> goerr + string) \<Rightarrow> log_record \<Rightarrow> goerr + string" where
  "stdout_document pretty other rec = (case marshal_record other (stdout_encode rec) of
     Inl e \<Rightarrow> Inl e
   | Inr doc \<Rightarrow> Inr (if pretty then json_indent Outside False 0 doc else doc))"

definition stdout_write ::
  "bool \<Rightarrow> (goval \<Rightarrow> goerr + string) \<Rightarrow> stdout_answer \<Rightarrow> log_record \<Rightarrow> string \<Rightarrow> goerr option \<times> string" where
  "stdout_write pretty other ans rec out = (case fst ans of
     Some c \<Rightarrow> (Some (CtxErr c), out)
   | None \<Rightarrow> (case stdout_document pretty other rec of
         Inl e \<Rightarrow> (permanent (Some (Wrap ''encode log record'' [e])), out)
       | Inr doc \<Rightarrow>
           let data = doc @ [newline] in
           (case snd ans of
              Some (n, e) \<Rightarrow> (Some (Wrap ''write log record'' [e]), out @ take n data)
            | None \<Rightarrow> (None, out @ data))))"

section \<open>What is on the stream\<close>

definition printed :: "bool \<Rightarrow> (goval \<Rightarrow> goerr + string) \<Rightarrow> string \<Rightarrow> log_record \<Rightarrow> bool" where
  "printed pretty other out rec \<longleftrightarrow>
     (\<exists>doc a b. stdout_document pretty other rec = Inr doc \<and> out = a @ (doc @ [newline]) @ b)"

definition stdout_answers :: "(goval \<Rightarrow> goerr + string) \<Rightarrow> stdout_answer \<Rightarrow> bool" where
  "stdout_answers other ans \<longleftrightarrow> (\<forall>n e. snd ans = Some (n, e) \<longrightarrow> \<not> is_skipped e) \<and>
     (\<forall>v e. other v = Inl e \<longrightarrow> \<not> is_skipped e)"

lemma stdout_write_ok: "stdout_write pretty other ans rec out = (None, out') \<Longrightarrow>
  \<exists>doc. stdout_document pretty other rec = Inr doc \<and> out' = out @ doc @ [newline]"
  by (auto simp: stdout_write_def Let_def permanent_def split: option.splits sum.splits if_splits)

lemma stdout_write_grows: "stdout_write pretty other ans rec out = (r, out') \<Longrightarrow> \<exists>w. out' = out @ w"
  by (auto simp: stdout_write_def Let_def split: option.splits sum.splits)

end
