(* ===== verification/LogFacts.thy ===== *)
theory LogFacts
  imports LogStdout
begin

text \<open>
  What the log class writes: every record encodes, its document holds no newline, indentation only adds
  white space, and the identifiers and the severity agree with the spans of the trace class.
\<close>

section \<open>Attributes\<close>

text \<open>The types of the attributes a projection sets, all of which encode.\<close>

fun plain_value :: "goval \<Rightarrow> bool" where
  "plain_value (GStr s) = True"
| "plain_value (GInt i) = True"
| "plain_value (GStrs ss) = True"
| "plain_value v = False"

definition plain :: "attrs \<Rightarrow> bool" where
  "plain m \<longleftrightarrow> list_all (\<lambda>kv. plain_value (snd kv)) m \<and> distinct (map fst m)"

lemma list_all_update: "list_all P m \<Longrightarrow> P (k, v) \<Longrightarrow> list_all P (AList.update k v m)"
  by (induction m) auto

lemma plain_update [simp, intro]: "plain m \<Longrightarrow> plain_value v \<Longrightarrow> plain (AList.update k v m)"
  by (simp add: plain_def list_all_update distinct_update)

lemma plain_put_all: "list_all (\<lambda>kv. plain_value (snd kv)) kvs \<Longrightarrow> plain m \<Longrightarrow> plain (put_all kvs m)"
  by (induction kvs arbitrary: m) (auto simp: put_all_def)

lemma plain_setters:
  "plain m \<Longrightarrow> plain (set_string k s m)"
  "plain m \<Longrightarrow> plain (set_labels ls m)"
  "plain m \<Longrightarrow> plain_value v \<Longrightarrow> plain (put_if b k v m)"
  by (auto simp: set_string_def set_labels_def put_if_def split: option.splits)

lemma plain_envelope: "plain (envelope_attrs env kind)"
  by (auto simp: envelope_attrs_def intro!: plain_setters) (simp add: plain_def)

lemma plain_run: "plain m \<Longrightarrow> plain (log_run_attrs r m)"
  by (auto simp: log_run_attrs_def intro!: plain_setters plain_put_all)

lemma plain_job: "plain m \<Longrightarrow> plain (log_job_attrs j m)"
  by (auto simp: log_job_attrs_def Let_def intro!: plain_setters plain_put_all split: prod.splits)

lemma plain_project: "plain (lr_attrs (log_project exec))"
  by (auto simp: log_project_def Let_def plain_envelope plain_run plain_job
      split: exec_kind.splits option.splits prod.splits)

section \<open>The document\<close>

lemma html_char_free: "c \<noteq> newline \<Longrightarrow> free (html_char c)"
  by (auto simp: html_char_def hex_char_free bslash_def newline_def hex_char_free [unfolded newline_def])

lemma html_free: "free s \<Longrightarrow> free (concat (map html_char s))"
  by (induction s) (auto simp: html_char_free)

lemma marshal_string_free [simp]: "free (marshal_string s)"
  by (simp add: marshal_string_def html_free)

lemma marshal_member_free [simp]: "free (marshal_member k t) \<longleftrightarrow> free t"
  by (simp add: marshal_member_def newline_def)

lemma marshal_object_free [simp]: "list_all free ms \<Longrightarrow> free (marshal_object ms)"
  by (simp add: marshal_object_def free_intercalate newline_def)

lemma string_member_free [simp]: "list_all free (string_member k s)"
  by (simp add: string_member_def)

lemma marshal_value_plain: "plain_value v \<Longrightarrow> \<exists>t. marshal_value other v = Inr t \<and> free t"
  by (cases v) (auto simp: newline_def list_all_iff intro!: free_intercalate)

lemma marshal_members_plain:
  "list_all (\<lambda>kv. plain_value (snd kv)) m \<Longrightarrow> \<exists>ts. marshal_members other m = Inr ts \<and> list_all free ts"
proof (induction m)
  case (Cons kv m)
  obtain k v where kv: "kv = (k, v)" by fastforce
  from Cons kv obtain ts where "marshal_members other m = Inr ts" "list_all free ts" by auto
  moreover from Cons.prems kv marshal_value_plain obtain t where "marshal_value other v = Inr t" "free t"
    by fastforce
  ultimately show ?case using kv by simp
qed simp

lemma plain_sorted: "plain m \<Longrightarrow> list_all (\<lambda>kv. plain_value (snd kv)) (sort_kv m)"
  unfolding plain_def list_all_iff using mset_sort_kv [of m] by (metis set_mset_mset)

text \<open>\<open>encode log record\<close> cannot fail on a projected record, and the document is one line.\<close>

lemma document_ok: "\<exists>doc. stdout_document False other (log_project exec) = Inr doc \<and> newline \<notin> set doc"
proof -
  obtain ts where "marshal_members other (sort_kv (lr_attrs (log_project exec))) = Inr ts" "list_all free ts"
    using marshal_members_plain [OF plain_sorted [OF plain_project]] by blast
  then show ?thesis
    by (auto simp: stdout_document_def marshal_record_def stdout_encode_def simp flip: free_def)
qed

section \<open>Indentation\<close>

lemma strip_blanks: "list_all json_space w \<Longrightarrow> strip Outside (w @ s) = strip Outside s"
  by (induction w) auto

lemma indent_line_blank [simp]: "list_all json_space (indent_line d)"
  by (simp add: indent_line_def json_space_def newline_def list_all_iff)

lemma strip_indent_line [simp]: "strip Outside (indent_line d @ s) = strip Outside s"
  by (simp add: strip_blanks)

lemma strip_space [simp]: "strip Outside (CHR '' '' # s) = strip Outside s"
  by (simp add: json_space_def)

lemma strip_indent: "strip st (json_indent st need depth s) = strip st s"
proof (induction st need depth s rule: json_indent.induct)
  case (2 st need depth c s)
  have d: "dquote \<noteq> CHR ''{''" "dquote \<noteq> CHR ''}''" "dquote \<noteq> CHR ''[''" "dquote \<noteq> CHR '']''"
    "dquote \<noteq> CHR '',''" "dquote \<noteq> CHR '':''" by (simp_all add: dquote_def)
  show ?case
    using 2 d by (auto simp: Let_def json_space_def)
qed simp

lemma pretty_compact:
  "stdout_document True other rec = Inr p \<Longrightarrow>
     \<exists>doc. stdout_document False other rec = Inr doc \<and> strip Outside p = strip Outside doc"
  by (auto simp: stdout_document_def strip_indent split: sum.splits)

section \<open>The stream\<close>

text \<open>The line of an event and the lines of the deliveries that were acked.\<close>

definition line_of :: "(goval \<Rightarrow> goerr + string) \<Rightarrow> envelope \<Rightarrow> string" where
  "line_of other env = (case normalize env of
     Inl e \<Rightarrow> []
   | Inr exec \<Rightarrow> (case stdout_document False other (log_project exec) of Inl e \<Rightarrow> [] | Inr doc \<Rightarrow> doc @ [newline]))"

definition message_line :: "(goval \<Rightarrow> goerr + string) \<Rightarrow> message \<Rightarrow> string" where
  "message_line other m = (case from_message (Some m) of Inl e \<Rightarrow> [] | Inr env \<Rightarrow> line_of other env)"

text \<open>A stream that fails takes nothing of the document.\<close>

definition whole_writes :: "stdout_answer \<Rightarrow> bool" where
  "whole_writes ans \<longleftrightarrow> (\<forall>n e. snd ans = Some (n, e) \<longrightarrow> n = 0)"

lemma log_stdout_step:
  assumes "log_process (stdout_write False other) ans env out = (r, out')" and "whole_writes ans"
    and "stdout_answers other ans"
  shows "(r = None \<longrightarrow> out' = out @ line_of other env) \<and> (r \<noteq> None \<longrightarrow> out' = out) \<and>
    (\<forall>e. r = Some e \<longrightarrow> \<not> is_skipped e)"
proof (cases "normalize env")
  case (Inl e)
  with assms(1) show ?thesis by (auto simp: log_process_def line_of_def dest: normalize_unskipped)
next
  case (Inr exec)
  obtain doc where doc: "stdout_document False other (log_project exec) = Inr doc"
    using document_ok by blast
  from assms Inr doc show ?thesis
    by (auto simp: log_process_def stdout_write_def line_of_def whole_writes_def stdout_answers_def is_skipped_def
        is_sentinel_def Let_def split: option.splits prod.splits)
qed

lemma line_of_one_line: "normalize env = Inr exec \<Longrightarrow> one_line (line_of other env)"
  using document_ok [of other exec] by (auto simp: line_of_def one_line_def)

lemma log_stdout_handle:
  assumes "handle (log_process (stdout_write False other) ans) now m h out = (r, h', out')"
    and "whole_writes ans \<and> stdout_answers other ans"
  shows "out' = out @ (if r = None then message_line other m else []) \<and> (r = None \<longrightarrow> one_line (message_line other m))"
proof (cases "from_message (Some m)")
  case (Inl e)
  with assms(1) show ?thesis by (auto simp: handle_def h_stall_def Let_def)
next
  case (Inr env)
  obtain r1 out1 where p: "log_process (stdout_write False other) ans env out = (r1, out1)" by fastforce
  note s = log_stdout_step [OF p conjunct1 [OF assms(2)] conjunct2 [OF assms(2)]]
  from assms(1) Inr p s have r: "r = r1" "out' = out1"
    by (auto simp: handle_def h_stall_def Let_def split: option.splits if_splits)
  have "\<exists>exec. normalize env = Inr exec" if "r = None"
    using that r p by (auto simp: log_process_def permanent_def split: sum.splits if_splits)
  with r s Inr line_of_one_line show ?thesis by (auto simp: message_line_def)
qed

end
