(* ===== verification/SpanLogProps.thy ===== *)
theory SpanLogProps
  imports LogFacts
begin

text \<open>Properties of the trace and log classes over the router, and of the two projections side by side.\<close>

section \<open>Identities\<close>

lemma log_project_run:
  assumes "x_kind exec = KindRun" and "x_run exec = Some r"
  shows "lr_trace_id (log_project exec) = run_trace_id r" "lr_span_id (log_project exec) = run_root_span_id r"
    "lr_severity (log_project exec) = fst (log_severity (r_conclusion r))"
  using assms by (simp_all add: log_project_def Let_def split: prod.splits)

lemma log_project_job:
  assumes "x_kind exec = KindJob" and "x_job exec = Some j"
  shows "lr_trace_id (log_project exec) = job_trace_id j" "lr_span_id (log_project exec) = job_own_span_id j"
    "lr_severity (log_project exec) = fst (log_severity (j_conclusion j))"
  using assms by (simp_all add: log_project_def Let_def split: prod.splits)

lemma run_span_simps [simp]:
  "sp_trace_id (run_span r) = run_trace_id r" "sp_span_id (run_span r) = run_root_span_id r"
  "sp_status_code (run_span r) = fst (span_status (r_conclusion r))"
  by (simp_all add: run_span_def split: prod.splits)

lemma job_span_simps [simp]:
  "sp_trace_id (job_span x j) = job_trace_id j" "sp_span_id (job_span x j) = job_own_span_id j"
  "sp_parent_id (job_span x j) = job_parent_span_id j"
  "sp_status_code (job_span x j) = fst (span_status (j_conclusion j))"
  by (simp_all add: job_span_def split: prod.splits)

lemma severity_status: "fst (log_severity c) = otlp_error \<longleftrightarrow> fst (span_status c) = status_error"
  by (simp add: log_severity_def span_status_def status_unset_def status_ok_def status_error_def otlp_info_def
      otlp_error_def otlp_warn_def split: option.splits)

lemma trace_project_cases:
  assumes "trace_project exec = Inr (root # kids)"
  obtains (run) r where "x_kind exec = KindRun" "x_run exec = Some r" "root = run_span r" "kids = []"
  | (job) j where "x_kind exec = KindJob" "x_job exec = Some j" "root = job_span exec j"
      "kids = List.map_filter (step_span j) (j_steps j)"
  using assms by (auto simp: trace_project_def job_spans_def split: exec_kind.splits option.splits if_splits)

lemma project_root:
  assumes "trace_project exec = Inr (root # kids)"
  shows "lr_trace_id (log_project exec) = sp_trace_id root \<and> lr_span_id (log_project exec) = sp_span_id root \<and>
    (lr_severity (log_project exec) = otlp_error \<longleftrightarrow> sp_status_code root = status_error)"
  using assms
  by (cases rule: trace_project_cases) (simp_all add: log_project_run log_project_job severity_status)

lemma map_filter_length:
  "length (List.map_filter (step_span j) ss) =
     length (filter (\<lambda>s. s_started_at s \<noteq> None \<and> s_completed_at s \<noteq> None) ss)"
  by (induction ss) (auto simp: List.map_filter_simps step_span_None dest: step_span_Some split: option.splits)

lemma project_length:
  assumes "x_kind exec = KindJob" and "x_job exec = Some j" and "trace_project exec = Inr spans"
  shows "length spans = 1 + length (filter (\<lambda>s. s_started_at s \<noteq> None \<and> s_completed_at s \<noteq> None) (j_steps j))"
  using assms by (auto simp: trace_project_def job_spans_def map_filter_length split: if_splits)

lemma project_parent:
  assumes "x_kind jx = KindJob" and "x_job jx = Some j" and "trace_project jx = Inr (jroot # jkids)"
    and "x_kind rx = KindRun" and "x_run rx = Some r" and "trace_project rx = Inr (rroot # rkids)"
    and "j_repository_id j = r_repository_id r" and "j_run_id j = r_run_id r" and "j_run_attempt j = r_run_attempt r"
  shows "sp_trace_id jroot = sp_trace_id rroot \<and> sp_parent_id jroot = sp_span_id rroot"
  using assms(1,2,4,5,7-)
  by (cases rule: trace_project_cases [OF assms(3)]; cases rule: trace_project_cases [OF assms(6)])
    (simp_all add: job_trace_id_def run_trace_id_def job_parent_span_id_def run_root_span_id_def)

section \<open>A sample event\<close>

text \<open>The completion of run 7 in repository 5.\<close>

definition run_payload :: string where
  "run_payload = ''{'' @ json_member ''workflow_run'' (''{'' @ json_member ''id'' ''7'' @ '','' @
     json_member ''run_attempt'' ''1'' @ '','' @ json_member ''status'' (json_quote status_completed) @ ''}'') @ ''}''"

definition run_event :: envelope where
  "run_event = empty_envelope\<lparr>schema_version := 1, delivery_guid := ''g'', ev_event := event_workflow_run,
     received_at := 1, repository_id := 5, repository := ''a/b'', payload := run_payload\<rparr>"

lemma run_event_reads: "from_message (Some (to_message run_event)) = Inr run_event"
  by (rule from_to_message) code_simp

lemma run_event_completed:
  obtains exec r where "normalize run_event = Inr exec" "trace_project exec = Inr [run_span r]"
    "x_kind exec = KindRun" "x_run exec = Some r"
proof -
  have "case normalize run_event of Inr x \<Rightarrow> x_kind x = KindRun \<and>
      (case x_run x of Some r \<Rightarrow> r_status r = status_completed | None \<Rightarrow> False) | _ \<Rightarrow> False"
    by code_simp
  then show ?thesis
    using that by (auto simp: trace_project_def split: sum.splits option.splits)
qed

section \<open>Properties\<close>


definition taken_at_once :: "int \<Rightarrow> export_answer" where
  "taken_at_once n = \<lparr>ea_before = None, ea_outcome = Inr (0, []), ea_ctx = None, ea_deadline = None, ea_sleep = None\<rparr>"

lemma client_takes: "items \<noteq> [] \<Longrightarrow> client_export local_config taken_at_once items b = (None, b @ [items])"
  by (simp add: client_export_def export_items_def otlp_export_def export_loop.simps taken_at_once_def)


text \<open>
  C29: for whatever completes, the log record carries the trace and span identifiers of the first span the
  trace class emits, and is an error exactly when the span is; a job contributes one child span per step
  with both times, and its span hangs under the root span of the run it names, in the same trace, though
  neither sees the other.
\<close>

theorem spans_and_records_agree:
  assumes "trace_project exec = Inr (root # kids)"
  shows "lr_trace_id (log_project exec) = sp_trace_id root \<and> lr_span_id (log_project exec) = sp_span_id root \<and>
    (lr_severity (log_project exec) = otlp_error \<longleftrightarrow> sp_status_code root = status_error) \<and>
    (\<forall>j. x_kind exec = KindJob \<longrightarrow> x_job exec = Some j \<longrightarrow>
      length kids = length (filter (\<lambda>s. s_started_at s \<noteq> None \<and> s_completed_at s \<noteq> None) (j_steps j)) \<and>
      (\<forall>rx r rroot rkids. x_kind rx = KindRun \<longrightarrow> x_run rx = Some r \<longrightarrow> trace_project rx = Inr (rroot # rkids) \<longrightarrow>
        j_repository_id j = r_repository_id r \<longrightarrow> j_run_id j = r_run_id r \<longrightarrow> j_run_attempt j = r_run_attempt r \<longrightarrow>
        sp_trace_id root = sp_trace_id rroot \<and> sp_parent_id root = sp_span_id rroot))"
  using project_root [OF assms] project_length [OF _ _ assms] project_parent [OF _ _ assms] by auto

theorem spans_and_records_agree_witness:
  "\<exists>exec root. normalize run_event = Inr exec \<and> trace_project exec = Inr [root] \<and>
     lr_span_id (log_project exec) = sp_span_id root"
proof -
  obtain exec r where x: "normalize run_event = Inr exec" "trace_project exec = Inr [run_span r]"
    by (rule run_event_completed)
  from spans_and_records_agree [OF x(2)] x show ?thesis by blast
qed



end
