(* ===== verification/Analytics.thy ===== *)
theory Analytics
  imports SinkDriver
begin

text \<open>
  Package \<open>analytics\<close> (\<open>internal/sink/analytics\<close>): the projection into rows, the portable schema of the base
  table, the query of the current view and the sink over a writer.
\<close>

section \<open>Records\<close>

record arecord =
  an_record_id :: string
  an_kind :: record_kind
  an_repository_id :: int
  an_repository :: "string option"
  an_workflow_id :: "int option"
  an_workflow_name :: "string option"
  an_workflow_path :: "string option"
  an_run_id :: int
  an_run_number :: "int option"
  an_run_attempt :: int
  an_job_id :: "int option"
  an_job_name :: "string option"
  an_step_number :: "int option"
  an_step_name :: "string option"
  an_status :: "string option"
  an_conclusion :: "string option"
  an_status_rank :: int
  an_created_at :: "gtime option"
  an_started_at :: "gtime option"
  an_completed_at :: "gtime option"
  an_queued_ms :: "int option"
  an_duration_ms :: "int option"
  an_trigger_event :: "string option"
  an_head_branch :: "string option"
  an_head_sha :: "string option"
  an_actor :: "string option"
  an_runner_name :: "string option"
  an_runner_group :: "string option"
  an_labels :: "string list option"
  an_html_url :: "string option"
  an_event_time :: gtime
  an_received_at :: gtime
  an_delivery_guid :: string
  an_schema_version :: int

type_synonym fields = "(string \<times> goval) list"

definition set_str :: "string \<Rightarrow> string option \<Rightarrow> fields \<Rightarrow> fields" where
  "set_str k v f = (case v of None \<Rightarrow> f | Some x \<Rightarrow> AList.update k (GStr x) f)"

definition set_int :: "string \<Rightarrow> int option \<Rightarrow> fields \<Rightarrow> fields" where
  "set_int k v f = (case v of None \<Rightarrow> f | Some x \<Rightarrow> AList.update k (GInt x) f)"

definition set_time :: "string \<Rightarrow> gtime option \<Rightarrow> fields \<Rightarrow> fields" where
  "set_time k v f = (case v of None \<Rightarrow> f | Some x \<Rightarrow> AList.update k (GTime x) f)"

definition set_strs :: "string \<Rightarrow> string list option \<Rightarrow> fields \<Rightarrow> fields" where
  "set_strs k v f = (case v of None \<Rightarrow> f | Some x \<Rightarrow> AList.update k (GStrs x) f)"

text \<open>The columns that are not NULL.\<close>

definition record_values :: "arecord \<Rightarrow> fields" where
  "record_values r = (
     let f = [(''record_id'', GStr (an_record_id r)), (''kind'', GStr (record_kind_string (an_kind r))),
       (''repository_id'', GInt (an_repository_id r)), (''run_id'', GInt (an_run_id r)),
       (''run_attempt'', GInt (an_run_attempt r)), (''status_rank'', GInt (an_status_rank r)),
       (''event_time'', GTime (an_event_time r)), (''received_at'', GTime (an_received_at r)),
       (''delivery_guid'', GStr (an_delivery_guid r)), (''schema_version'', GInt (an_schema_version r))];
     f = set_str ''repository'' (an_repository r) f;
     f = set_int ''workflow_id'' (an_workflow_id r) f;
     f = set_str ''workflow_name'' (an_workflow_name r) f;
     f = set_str ''workflow_path'' (an_workflow_path r) f;
     f = set_int ''run_number'' (an_run_number r) f;
     f = set_int ''job_id'' (an_job_id r) f;
     f = set_str ''job_name'' (an_job_name r) f;
     f = set_int ''step_number'' (an_step_number r) f;
     f = set_str ''step_name'' (an_step_name r) f;
     f = set_str ''status'' (an_status r) f;
     f = set_str ''conclusion'' (an_conclusion r) f;
     f = set_time ''created_at'' (an_created_at r) f;
     f = set_time ''started_at'' (an_started_at r) f;
     f = set_time ''completed_at'' (an_completed_at r) f;
     f = set_int ''queued_ms'' (an_queued_ms r) f;
     f = set_int ''duration_ms'' (an_duration_ms r) f;
     f = set_str ''trigger_event'' (an_trigger_event r) f;
     f = set_str ''head_branch'' (an_head_branch r) f;
     f = set_str ''head_sha'' (an_head_sha r) f;
     f = set_str ''actor'' (an_actor r) f;
     f = set_str ''runner_name'' (an_runner_name r) f;
     f = set_str ''runner_group'' (an_runner_group r) f;
     f = set_strs ''labels'' (an_labels r) f;
     f = set_str ''html_url'' (an_html_url r) f
     in f)"

section \<open>Projection\<close>

text \<open>Cloning drops the difference between no labels and an empty list.\<close>

definition non_empty :: "string \<Rightarrow> string option" where "non_empty s = (if s = [] then None else Some s)"
definition non_zero :: "gtime \<Rightarrow> gtime option" where "non_zero t = (if is_zero t then None else Some t)"
definition clone_labels :: "string list option \<Rightarrow> string list option" where
  "clone_labels ls = (case ls of None \<Rightarrow> None | Some l \<Rightarrow> if l = [] then None else Some l)"

definition rank_in_progress :: int where "rank_in_progress = 2"
definition rank_completed :: int where "rank_completed = 3"

definition timings ::
  "string \<Rightarrow> gtime option \<Rightarrow> gtime option \<Rightarrow> gtime option \<Rightarrow> int option \<times> int option" where
  "timings status created started completed = (let rank = status_rank status in
     ((case (created, started) of
         (Some c, Some s) \<Rightarrow> if rank_in_progress \<le> rank then Some (milliseconds (time_sub s c)) else None
       | _ \<Rightarrow> None),
      (case (started, completed) of
         (Some s, Some c) \<Rightarrow> if rank_completed \<le> rank then Some (milliseconds (time_sub c s)) else None
       | _ \<Rightarrow> None)))"

definition run_record :: "execution \<Rightarrow> run \<Rightarrow> arecord" where
  "run_record exec r = (
     let env = x_envelope exec;
         created = non_zero (r_created_at r);
         completed = (if r_status r = status_completed then non_zero (r_updated_at r) else None);
         (queued, duration) = timings (r_status r) created (r_started_at r) completed
     in \<lparr>an_record_id = run_record_id r, an_kind = RecordRun, an_repository_id = r_repository_id r,
         an_repository = non_empty (r_repository r), an_workflow_id = Some (r_workflow_id r),
         an_workflow_name = r_workflow_name r, an_workflow_path = non_empty (r_workflow_path r),
         an_run_id = r_run_id r, an_run_number = Some (r_run_number r), an_run_attempt = r_run_attempt r,
         an_job_id = None, an_job_name = None, an_step_number = None, an_step_name = None,
         an_status = non_empty (r_status r), an_conclusion = r_conclusion r, an_status_rank = status_rank (r_status r),
         an_created_at = created, an_started_at = r_started_at r, an_completed_at = completed,
         an_queued_ms = queued, an_duration_ms = duration, an_trigger_event = non_empty (r_trigger_event r),
         an_head_branch = r_head_branch r, an_head_sha = non_empty (r_head_sha r), an_actor = r_actor r,
         an_runner_name = None, an_runner_group = None, an_labels = None, an_html_url = non_empty (r_html_url r),
         an_event_time = event_time exec, an_received_at = received_at env,
         an_delivery_guid = delivery_guid env, an_schema_version = schema_version env\<rparr>)"

definition job_record :: "execution \<Rightarrow> job \<Rightarrow> arecord" where
  "job_record exec j = (
     let env = x_envelope exec;
         created = non_zero (j_created_at j);
         (queued, duration) = timings (j_status j) created (j_started_at j) (j_completed_at j)
     in \<lparr>an_record_id = job_record_id j, an_kind = RecordJob, an_repository_id = j_repository_id j,
         an_repository = non_empty (j_repository j), an_workflow_id = None,
         an_workflow_name = j_workflow_name j, an_workflow_path = None,
         an_run_id = j_run_id j, an_run_number = None, an_run_attempt = j_run_attempt j,
         an_job_id = Some (j_job_id j), an_job_name = non_empty (j_name j), an_step_number = None, an_step_name = None,
         an_status = non_empty (j_status j), an_conclusion = j_conclusion j, an_status_rank = status_rank (j_status j),
         an_created_at = created, an_started_at = j_started_at j, an_completed_at = j_completed_at j,
         an_queued_ms = queued, an_duration_ms = duration, an_trigger_event = None,
         an_head_branch = j_head_branch j, an_head_sha = non_empty (j_head_sha j), an_actor = None,
         an_runner_name = j_runner_name j, an_runner_group = j_runner_group j, an_labels = clone_labels (j_labels j),
         an_html_url = non_empty (j_html_url j), an_event_time = event_time exec, an_received_at = received_at env,
         an_delivery_guid = delivery_guid env, an_schema_version = schema_version env\<rparr>)"

definition step_record :: "execution \<Rightarrow> job \<Rightarrow> step \<Rightarrow> arecord" where
  "step_record exec j s = (
     let env = x_envelope exec;
         status = (if s_status s = [] then j_status j else s_status s);
         (queued, duration) = timings status None (s_started_at s) (s_completed_at s)
     in \<lparr>an_record_id = step_record_id s j, an_kind = RecordStep, an_repository_id = j_repository_id j,
         an_repository = non_empty (j_repository j), an_workflow_id = None,
         an_workflow_name = j_workflow_name j, an_workflow_path = None,
         an_run_id = j_run_id j, an_run_number = None, an_run_attempt = j_run_attempt j,
         an_job_id = Some (j_job_id j), an_job_name = non_empty (j_name j), an_step_number = Some (s_number s),
         an_step_name = non_empty (s_name s), an_status = non_empty status, an_conclusion = s_conclusion s,
         an_status_rank = status_rank status, an_created_at = None, an_started_at = s_started_at s,
         an_completed_at = s_completed_at s, an_queued_ms = None, an_duration_ms = duration, an_trigger_event = None,
         an_head_branch = j_head_branch j, an_head_sha = non_empty (j_head_sha j), an_actor = None,
         an_runner_name = j_runner_name j, an_runner_group = j_runner_group j, an_labels = clone_labels (j_labels j),
         an_html_url = None, an_event_time = step_event_time exec s, an_received_at = received_at env,
         an_delivery_guid = delivery_guid env, an_schema_version = schema_version env\<rparr>)"

definition analytics_project :: "execution \<Rightarrow> goerr + arecord list" where
  "analytics_project exec = (case x_kind exec of
     KindRun \<Rightarrow> (case x_run exec of Some r \<Rightarrow> Inr [run_record exec r] | None \<Rightarrow> Inl err_skipped)
   | KindJob \<Rightarrow> (case x_job exec of
         Some j \<Rightarrow> Inr (job_record exec j # map (step_record exec j) (j_steps j))
       | None \<Rightarrow> Inl err_skipped)
   | KindNone \<Rightarrow> Inl err_skipped)"

section \<open>The schema\<close>

definition type_string :: string where "type_string = ''string''"
definition type_int64 :: string where "type_int64 = ''int64''"
definition type_timestamp :: string where "type_timestamp = ''timestamp''"
definition type_bool :: string where "type_bool = ''bool''"
definition type_string_array :: string where "type_string_array = ''string_array''"

lemmas type_defs = type_string_def type_int64_def type_timestamp_def type_bool_def type_string_array_def

record column =
  co_name :: string
  co_type :: string
  co_required :: bool
  co_description :: string

definition column :: "string \<Rightarrow> string \<Rightarrow> bool \<Rightarrow> string \<Rightarrow> column" where
  "column n t req d = \<lparr>co_name = n, co_type = t, co_required = req, co_description = d\<rparr>"

record partition =
  pa_column :: string
  pa_granularity :: string

record schema =
  sc_columns :: "column list"
  sc_partition :: partition
  sc_cluster :: "string list"

definition current_schema :: schema where
  "current_schema = \<lparr>sc_columns = [
      column ''record_id'' type_string True ''entity identity, stable across events and redeliveries'',
      column ''kind'' type_string True ''run, job, or step'',
      column ''repository_id'' type_int64 True ''GitHub repository id'',
      column ''repository'' type_string False ''owner/name'',
      column ''workflow_id'' type_int64 False ''workflow definition id (run rows)'',
      column ''workflow_name'' type_string False ''workflow display name'',
      column ''workflow_path'' type_string False ''workflow file path (run rows)'',
      column ''run_id'' type_int64 True ''workflow run id'',
      column ''run_number'' type_int64 False ''human-visible run counter (run rows)'',
      column ''run_attempt'' type_int64 True ''run attempt, 1 for the first'',
      column ''job_id'' type_int64 False ''job id (job and step rows)'',
      column ''job_name'' type_string False ''job display name (job and step rows)'',
      column ''step_number'' type_int64 False ''1-based step index (step rows)'',
      column ''step_name'' type_string False ''step display name (step rows)'',
      column ''status'' type_string False ''queued, in_progress, completed, ...'',
      column ''conclusion'' type_string False ''success, failure, cancelled, skipped, ... once completed'',
      column ''status_rank'' type_int64 True ''lifecycle order of status: completed 3, in_progress 2, scheduled 1, unknown 0'',
      column ''created_at'' type_timestamp False ''entity created (run and job rows)'',
      column ''started_at'' type_timestamp False ''entity started'',
      column ''completed_at'' type_timestamp False ''entity completed'',
      column ''queued_ms'' type_int64 False ''started_at - created_at once started'',
      column ''duration_ms'' type_int64 False ''completed_at - started_at once completed'',
      column ''trigger_event'' type_string False ''event that triggered the run (run rows)'',
      column ''head_branch'' type_string False ''branch of the head commit'',
      column ''head_sha'' type_string False ''head commit sha'',
      column ''actor'' type_string False ''login that created the run (run rows)'',
      column ''runner_name'' type_string False ''runner that picked the job up (job and step rows)'',
      column ''runner_group'' type_string False ''runner group (job and step rows)'',
      column ''labels'' type_string_array False ''runner labels requested by the job (job and step rows)'',
      column ''html_url'' type_string False ''GitHub page of the entity'',
      column ''event_time'' type_timestamp True ''when the reported transition happened; partition column'',
      column ''received_at'' type_timestamp True ''when antwatcher received the delivery'',
      column ''delivery_guid'' type_string True ''X-GitHub-Delivery of the source webhook'',
      column ''schema_version'' type_int64 True ''antwatcher envelope schema version''],
     sc_partition = \<lparr>pa_column = ''event_time'', pa_granularity = ''day''\<rparr>,
     sc_cluster = [''repository'', ''kind'']\<rparr>"

definition column_names :: "schema \<Rightarrow> string list" where "column_names s = map co_name (sc_columns s)"

definition schema_column :: "schema \<Rightarrow> string \<Rightarrow> column option" where
  "schema_column s name = List.find (\<lambda>c. co_name c = name) (sc_columns s)"

fun columns_error :: "string list \<Rightarrow> column list \<Rightarrow> goerr option" where
  "columns_error seen [] = None"
| "columns_error seen (c # cs) =
     (if co_name c = [] then Some (Msg ''analytics schema: column with empty name'')
      else if co_name c \<in> set seen then Some (Msg ''analytics schema: duplicate column'')
      else if co_type c \<notin> set [type_string, type_int64, type_timestamp, type_bool, type_string_array]
      then Some (Msg ''analytics schema: unknown type'')
      else columns_error (co_name c # seen) cs)"

definition schema_validate :: "schema \<Rightarrow> goerr option" where
  "schema_validate s = (case columns_error [] (sc_columns s) of
     Some e \<Rightarrow> Some e
   | None \<Rightarrow>
       (case (if pa_column (sc_partition s) = [] then None
          else case schema_column s (pa_column (sc_partition s)) of
              None \<Rightarrow> Some (Msg ''analytics schema: partition column does not exist'')
            | Some c \<Rightarrow>
                if co_type c \<noteq> type_timestamp then Some (Msg ''analytics schema: partition column is no timestamp'')
                else if pa_granularity (sc_partition s) \<noteq> ''day''
                then Some (Msg ''analytics schema: partition granularity is not supported'') else None) of
          Some e \<Rightarrow> Some e
        | None \<Rightarrow> if \<exists>name \<in> set (sc_cluster s). schema_column s name = None
            then Some (Msg ''analytics schema: cluster column does not exist'') else None))"

definition view_suffix :: string where "view_suffix = ''_current''"

definition view_name :: "string \<Rightarrow> string" where "view_name table = table @ view_suffix"

definition backquote :: string where "backquote = [CHR 0x60]"

definition current_view_sql :: "string \<Rightarrow> string" where
  "current_view_sql table = ''SELECT * FROM '' @ backquote @ table @ backquote @ '' '' @
     ''QUALIFY ROW_NUMBER() OVER (PARTITION BY record_id ORDER BY status_rank DESC, event_time DESC, '' @
     ''received_at DESC) = 1''"

text \<open>
  What the query means: a row is current when no row of the same record precedes it in the order the query
  names; rows that are equal in it are ties, of which a warehouse picks one.
\<close>

definition row_key :: "arecord \<Rightarrow> int \<times> gtime \<times> gtime" where
  "row_key r = (an_status_rank r, an_event_time r, an_received_at r)"

definition key_less :: "int \<times> gtime \<times> gtime \<Rightarrow> int \<times> gtime \<times> gtime \<Rightarrow> bool" where
  "key_less k l \<longleftrightarrow> (case (k, l) of ((a, b, c), (x, y, z)) \<Rightarrow> a < x \<or> a = x \<and> (b < y \<or> b = y \<and> c < z))"

definition current_rows :: "arecord list \<Rightarrow> string \<Rightarrow> arecord list" where
  "current_rows rows rid = (let own = filter (\<lambda>r. an_record_id r = rid) rows in
     filter (\<lambda>r. \<not> list_ex (\<lambda>s. key_less (row_key r) (row_key s)) own) own)"

section \<open>The sink\<close>

text \<open>
  \<open>Sink\<close> and its writer. The answers around a call: the error of a context that ends while another caller
  runs \<open>EnsureSchema\<close>, and the writer's own answers for \<open>EnsureSchema\<close> and \<open>Write\<close>.
\<close>

record asink =
  as_ensure :: bool
  as_ensured :: bool

definition ensure_schema ::
  "('a \<Rightarrow> schema \<Rightarrow> 'd \<Rightarrow> goerr option \<times> 'd) \<Rightarrow> goerr option \<times> 'a \<Rightarrow> asink \<times> 'd \<Rightarrow> goerr option \<times> asink \<times> 'd" where
  "ensure_schema ensure ans sd = (case sd of (s, d) \<Rightarrow>
     if \<not> as_ensure s \<or> as_ensured s then (None, s, d)
     else case fst ans of
         Some e \<Rightarrow> (Some e, s, d)
       | None \<Rightarrow> (case ensure (snd ans) current_schema d of
             (Some e, d) \<Rightarrow> (Some e, s, d)
           | (None, d) \<Rightarrow> (None, s\<lparr>as_ensured := True\<rparr>, d)))"

definition analytics_process ::
  "('a \<Rightarrow> schema \<Rightarrow> 'd \<Rightarrow> goerr option \<times> 'd) \<Rightarrow> ('b \<Rightarrow> arecord list \<Rightarrow> 'd \<Rightarrow> goerr option \<times> 'd)
    \<Rightarrow> (goerr option \<times> 'a) \<times> 'b \<Rightarrow> envelope \<Rightarrow> asink \<times> 'd \<Rightarrow> goerr option \<times> asink \<times> 'd" where
  "analytics_process ensure write ans env sd = (case normalize env of
     Inl e \<Rightarrow> (permanent (Some e), sd)
   | Inr exec \<Rightarrow>
       (case analytics_project exec of
          Inl e \<Rightarrow> (Some e, sd)
        | Inr records \<Rightarrow>
            (case ensure_schema ensure (fst ans) sd of
               (Some e, sd) \<Rightarrow> (Some (Wrap ''ensure analytics schema'' [e]), sd)
             | (None, s, d) \<Rightarrow>
                 (case write (snd ans) records d of
                    (Some e, d) \<Rightarrow> (Some (Wrap ''write analytics records'' [e]), s, d)
                  | (None, d) \<Rightarrow> (None, s, d)))))"

end
