(* ===== verification/BigQuery.thy ===== *)
theory BigQuery
  imports Analytics
begin

text \<open>
  The BigQuery driver of the analytics class (\<open>internal/sink/analytics/drivers/bigquery\<close>): its configuration,
  the table schema, the encoding of rows, the classification of errors and the writer. The service is a
  record of its tables and the batches it has committed; its answers, the Storage Write API adapters
  (\<open>adapt\<close>) and \<open>proto.Marshal\<close> (\<open>marshal\<close>) are arguments.
\<close>

section \<open>Configuration\<close>

record bq_config =
  bc_project :: string
  bc_dataset :: string
  bc_table :: string
  bc_credentials_file :: string
  bc_ensure_table :: bool
  bc_ensure_view :: bool

definition bq_default_config :: bq_config where
  "bq_default_config = \<lparr>bc_project = [], bc_dataset = [], bc_table = [], bc_credentials_file = [],
     bc_ensure_table = True, bc_ensure_view = True\<rparr>"

definition lower_letter :: "char \<Rightarrow> bool" where "lower_letter c \<longleftrightarrow> 97 \<le> (of_char c :: nat) \<and> (of_char c :: nat) \<le> 122"
definition upper_letter :: "char \<Rightarrow> bool" where "upper_letter c \<longleftrightarrow> 65 \<le> (of_char c :: nat) \<and> (of_char c :: nat) \<le> 90"

definition plain_project :: "string \<Rightarrow> bool" where
  "plain_project s \<longleftrightarrow> 6 \<le> length s \<and> length s \<le> 30 \<and> lower_letter (hd s) \<and>
     (lower_letter (last s) \<or> is_digit (last s)) \<and>
     list_all (\<lambda>c. lower_letter c \<or> is_digit c \<or> c = CHR ''-'') s"

definition project_ok :: "string \<Rightarrow> bool" where
  "project_ok s = (case cut_at (CHR '':'') s of
     None \<Rightarrow> plain_project s
   | Some (domain, rest) \<Rightarrow> domain \<noteq> [] \<and>
       list_all (\<lambda>c. lower_letter c \<or> is_digit c \<or> c = CHR ''.'' \<or> c = CHR ''-'') domain \<and> plain_project rest)"

definition dataset_ok :: "string \<Rightarrow> bool" where
  "dataset_ok s \<longleftrightarrow> s \<noteq> [] \<and> length s \<le> 1000 \<and>
     list_all (\<lambda>c. lower_letter c \<or> upper_letter c \<or> is_digit c \<or> c = CHR ''_'') s"

text \<open>The classes of a table id over ASCII; a name with other characters is decided by \<open>unicode\<close>.\<close>

definition table_ok :: "(string \<Rightarrow> bool) \<Rightarrow> string \<Rightarrow> bool" where
  "table_ok unicode s = (if list_all (\<lambda>c. (of_char c :: nat) < 128) s
     then s \<noteq> [] \<and> length s \<le> 1000 \<and> list_all (\<lambda>c. lower_letter c \<or> upper_letter c \<or> is_digit c \<or>
       c = CHR ''_'' \<or> c = CHR ''-'' \<or> c = CHR '' '') s
     else unicode s)"

definition bq_validate :: "(string \<Rightarrow> bool) \<Rightarrow> bq_config \<Rightarrow> goerr option" where
  "bq_validate unicode c =
     (if bc_project c = [] then Some (Msg ''project is required'')
      else if \<not> project_ok (bc_project c) then Some (Msg ''not a valid project id'')
      else if bc_dataset c = [] then Some (Msg ''dataset is required'')
      else if \<not> dataset_ok (bc_dataset c) then Some (Msg ''dataset may contain only letters, digits, and underscores'')
      else if bc_table c = [] then Some (Msg ''table is required'')
      else if \<not> table_ok unicode (bc_table c) then Some (Msg ''table may contain only letters and numbers'')
      else if has_suffix view_suffix (bc_table c) then Some (Msg ''table must not end with the suffix of the view'')
      else None)"

definition bq_table_id :: "bq_config \<Rightarrow> string" where
  "bq_table_id c = bc_project c @ ''.'' @ bc_dataset c @ ''.'' @ bc_table c"

definition bq_view_id :: "bq_config \<Rightarrow> string" where
  "bq_view_id c = bc_project c @ ''.'' @ bc_dataset c @ ''.'' @ view_name (bc_table c)"

section \<open>Errors\<close>

definition google_code :: "goerr \<Rightarrow> int option" where
  "google_code = err_find (\<lambda>e. case e of GoogleAPI n \<Rightarrow> Some n | _ \<Rightarrow> None)"

definition status_code :: "goerr \<Rightarrow> grpc_code option" where
  "status_code = err_find (\<lambda>e. case e of GRPCStatus c m r \<Rightarrow> Some c | _ \<Rightarrow> None)"

definition bq_classify :: "goerr \<Rightarrow> goerr" where
  "bq_classify e =
     (if is_ctx_err Canceled e \<or> is_ctx_err DeadlineExceeded e then e
      else case google_code e of
          Some n \<Rightarrow> if n \<in> set [400, 401, 403, 404, 409, 412] then the (permanent (Some e)) else e
        | None \<Rightarrow>
            (case status_code e of
               Some c \<Rightarrow> if c \<in> set [InvalidArgument, PermissionDenied, Unauthenticated, NotFound, FailedPrecondition,
                   OutOfRange, AlreadyExists, Unimplemented] then the (permanent (Some e)) else e
             | None \<Rightarrow> e))"

definition is_not_found :: "goerr \<Rightarrow> bool" where "is_not_found e \<longleftrightarrow> google_code e = Some 404"
definition is_conflict :: "goerr \<Rightarrow> bool" where "is_conflict e \<longleftrightarrow> google_code e = Some 409"

section \<open>Table schema\<close>

record bq_field =
  bf_name :: string
  bf_type :: string
  bf_required :: bool
  bf_repeated :: bool
  bf_description :: string

definition field_type :: "string \<Rightarrow> (string \<times> bool) option" where
  "field_type t = (if t = type_string then Some (''STRING'', False)
     else if t = type_int64 then Some (''INTEGER'', False)
     else if t = type_timestamp then Some (''TIMESTAMP'', False)
     else if t = type_bool then Some (''BOOLEAN'', False)
     else if t = type_string_array then Some (''STRING'', True) else None)"

fun table_fields :: "column list \<Rightarrow> goerr + bq_field list" where
  "table_fields [] = Inr []"
| "table_fields (c # cs) = (case field_type (co_type c) of
     None \<Rightarrow> Inl (Wrap ''column'' [Msg ''unsupported column type''])
   | Some (ft, repeated) \<Rightarrow> (case table_fields cs of
         Inl e \<Rightarrow> Inl e
       | Inr fs \<Rightarrow> Inr (\<lparr>bf_name = co_name c, bf_type = ft, bf_required = co_required c \<and> \<not> repeated,
           bf_repeated = repeated, bf_description = co_description c\<rparr> # fs)))"

definition table_schema :: "schema \<Rightarrow> goerr + bq_field list" where
  "table_schema s = (case schema_validate s of Some e \<Rightarrow> Inl e | None \<Rightarrow> table_fields (sc_columns s))"

text \<open>The metadata of a table or of a view: what the service keeps of it.\<close>

record bq_meta =
  bm_schema :: "bq_field list"
  bm_partition :: "(string \<times> string) option"
  bm_cluster :: "string list"
  bm_view_query :: string

definition table_metadata :: "schema \<Rightarrow> goerr + bq_meta" where
  "table_metadata s = (case table_schema s of
     Inl e \<Rightarrow> Inl e
   | Inr fs \<Rightarrow> Inr \<lparr>bm_schema = fs,
       bm_partition = (if pa_column (sc_partition s) = [] then None else Some (''DAY'', pa_column (sc_partition s))),
       bm_cluster = sc_cluster s, bm_view_query = []\<rparr>)"

definition view_metadata :: "string \<Rightarrow> bq_meta" where
  "view_metadata table_id = \<lparr>bm_schema = [], bm_partition = None, bm_cluster = [], bm_view_query = current_view_sql table_id\<rparr>"

text \<open>What is wrong with an existing table; a column listed twice counts as its last entry.\<close>

definition field_problem :: "bq_field list \<Rightarrow> bq_field \<Rightarrow> goerr option" where
  "field_problem have f = (case List.find (\<lambda>g. bf_name g = bf_name f) (rev have) of
     None \<Rightarrow> Some (Msg ''column is missing'')
   | Some g \<Rightarrow>
       if bf_type g \<noteq> bf_type f then Some (Msg ''column has another type'')
       else if bf_repeated g \<noteq> bf_repeated f then Some (Msg ''column repeats differently'')
       else if bf_required g \<and> \<not> bf_required f then Some (Msg ''column is REQUIRED but rows may leave it NULL'')
       else None)"

definition verify_schema :: "schema \<Rightarrow> bq_field list \<Rightarrow> goerr option" where
  "verify_schema s have = (case table_schema s of
     Inl e \<Rightarrow> Some e
   | Inr fs \<Rightarrow> (let problems = some_errs (map (field_problem have) fs) in
       if problems \<noteq> [] then Some (Msg ''table schema mismatch'') else None))"

section \<open>Rows\<close>

datatype pkind = PKString | PKInt64 | PKBool

datatype pvalue = PStr string | PInt int | PBool bool | PStrs "string list"

record pfield =
  pf_name :: string
  pf_kind :: pkind
  pf_list :: bool

definition row_descriptor :: "(bq_field list \<Rightarrow> goerr + pfield list) \<Rightarrow> schema \<Rightarrow> goerr + pfield list" where
  "row_descriptor adapt s = (case table_schema s of
     Inl e \<Rightarrow> Inl e
   | Inr fs \<Rightarrow> (case adapt fs of Inl e \<Rightarrow> Inl (Wrap ''descriptor'' [e]) | Inr d \<Rightarrow> Inr d))"

definition unix_micro :: "gtime \<Rightarrow> int" where "unix_micro t = wrap64 ((t - unix_epoch) div 1000)"

text \<open>One assignment to a dynamic message; \<open>None\<close> is the panic on a value of the wrong type.\<close>

definition message_set :: "pfield \<Rightarrow> pvalue \<Rightarrow> pvalue option" where
  "message_set f v = (case v of
     PStr s \<Rightarrow> if pf_kind f = PKString \<and> \<not> pf_list f then Some v else None
   | PInt i \<Rightarrow> if pf_kind f = PKInt64 \<and> \<not> pf_list f then Some v else None
   | PBool b \<Rightarrow> if pf_kind f = PKBool \<and> \<not> pf_list f then Some v else None
   | PStrs ss \<Rightarrow> if pf_list f \<and> (ss = [] \<or> pf_kind f = PKString) then Some v else None)"

definition row_value :: "goval \<Rightarrow> pvalue option" where
  "row_value v = (case v of
     GStr s \<Rightarrow> Some (PStr s) | GInt i \<Rightarrow> Some (PInt i) | GTime t \<Rightarrow> Some (PInt (unix_micro t))
   | GBool b \<Rightarrow> Some (PBool b) | GStrs ss \<Rightarrow> Some (PStrs ss) | _ \<Rightarrow> None)"

fun message_fields :: "pfield list \<Rightarrow> fields \<Rightarrow> (goerr + (string \<times> pvalue) list) option" where
  "message_fields d [] = Some (Inr [])"
| "message_fields d ((name, v) # m) = (case List.find (\<lambda>f. pf_name f = name) d of
     None \<Rightarrow> Some (Inl (Msg ''column is not in the table descriptor''))
   | Some f \<Rightarrow> (case row_value v of
         None \<Rightarrow> Some (Inl (Msg ''column has unsupported value type''))
       | Some pv \<Rightarrow> (case message_set f pv of
             None \<Rightarrow> None
           | Some pv \<Rightarrow> (case message_fields d m of
                 None \<Rightarrow> None
               | Some (Inl e) \<Rightarrow> Some (Inl e)
               | Some (Inr ms) \<Rightarrow> Some (Inr ((name, pv) # ms))))))"

definition bq_message :: "pfield list \<Rightarrow> arecord \<Rightarrow> (goerr + (string \<times> pvalue) list) option" where
  "bq_message d r = message_fields d (record_values r)"

type_synonym marshaller = "(string \<times> pvalue) list \<Rightarrow> goerr + string"

definition bq_encode :: "marshaller \<Rightarrow> pfield list \<Rightarrow> arecord \<Rightarrow> (goerr + string) option" where
  "bq_encode marshal d r = (case bq_message d r of
     None \<Rightarrow> None
   | Some (Inl e) \<Rightarrow> Some (Inl e)
   | Some (Inr m) \<Rightarrow> (case marshal m of Inl e \<Rightarrow> Some (Inl (Wrap ''marshal row'' [e])) | Inr b \<Rightarrow> Some (Inr b)))"

fun encode_rows :: "marshaller \<Rightarrow> pfield list \<Rightarrow> arecord list \<Rightarrow> (goerr + string list) option" where
  "encode_rows marshal d [] = Some (Inr [])"
| "encode_rows marshal d (r # rs) = (case bq_encode marshal d r of
     None \<Rightarrow> None
   | Some (Inl e) \<Rightarrow> Some (Inl e)
   | Some (Inr b) \<Rightarrow> (case encode_rows marshal d rs of
         None \<Rightarrow> None | Some (Inl e) \<Rightarrow> Some (Inl e) | Some (Inr bs) \<Rightarrow> Some (Inr (b # bs))))"

section \<open>The writer\<close>

text \<open>The service: its tables, and the batches of rows it has committed to the base table.\<close>

record warehouse =
  wh_tables :: "(string, bq_meta) amap"
  wh_batches :: "string list list"

record bq_writer =
  bw_config :: bq_config
  bw_schema :: schema
  bw_desc :: "pfield list option"
  bw_closed :: bool
  bw_stream :: bool

definition new_bq_writer :: "bq_config \<Rightarrow> bq_writer" where
  "new_bq_writer cfg = \<lparr>bw_config = cfg, bw_schema = current_schema, bw_desc = None, bw_closed = False, bw_stream = False\<rparr>"

text \<open>
  The answers of the metadata API for each table: the error of \<open>Metadata\<close>, if the call itself fails, and of
  \<open>Create\<close>. A create that reports a conflict lost a race against the table it gives.
\<close>

record tables_answer =
  ta_meta :: "string \<Rightarrow> goerr option"
  ta_create :: "string \<Rightarrow> goerr option"
  ta_rival :: bq_meta

definition get_metadata :: "tables_answer \<Rightarrow> string \<Rightarrow> warehouse \<Rightarrow> goerr + bq_meta" where
  "get_metadata ans tid wh = (case ta_meta ans tid of
     Some e \<Rightarrow> Inl e
   | None \<Rightarrow> (case map_of (wh_tables wh) tid of None \<Rightarrow> Inl (GoogleAPI 404) | Some md \<Rightarrow> Inr md))"

definition create_table :: "tables_answer \<Rightarrow> string \<Rightarrow> bq_meta \<Rightarrow> warehouse \<Rightarrow> goerr option \<times> warehouse" where
  "create_table ans tid md wh = (case ta_create ans tid of
     Some e \<Rightarrow> (Some e, if is_conflict e \<and> map_of (wh_tables wh) tid = None
         then wh\<lparr>wh_tables := AList.update tid (ta_rival ans) (wh_tables wh)\<rparr> else wh)
   | None \<Rightarrow> if map_of (wh_tables wh) tid \<noteq> None then (Some (GoogleAPI 409), wh)
       else (None, wh\<lparr>wh_tables := AList.update tid md (wh_tables wh)\<rparr>))"

definition ensure_table ::
  "tables_answer \<Rightarrow> string \<Rightarrow> bq_meta \<Rightarrow> (bq_meta \<Rightarrow> goerr option) \<Rightarrow> warehouse \<Rightarrow> goerr option \<times> warehouse" where
  "ensure_table ans tid md verify wh = (case get_metadata ans tid wh of
     Inr have \<Rightarrow> (permanent (verify have), wh)
   | Inl e \<Rightarrow>
       if \<not> is_not_found e then (Some (Wrap ''metadata'' [bq_classify e]), wh)
       else (case create_table ans tid md wh of
           (None, wh) \<Rightarrow> (None, wh)
         | (Some e, wh) \<Rightarrow> if is_conflict e then (None, wh) else (Some (Wrap ''create'' [bq_classify e]), wh)))"

definition bq_ensure_schema ::
  "tables_answer \<Rightarrow> schema \<Rightarrow> bq_writer \<times> warehouse \<Rightarrow> goerr option \<times> bq_writer \<times> warehouse" where
  "bq_ensure_schema ans s ww = (case ww of (w, wh) \<Rightarrow>
     (case schema_validate s of
        Some e \<Rightarrow> (permanent (Some e), w, wh)
      | None \<Rightarrow>
          let w = w\<lparr>bw_schema := s, bw_desc := None\<rparr>; cfg = bw_config w;
            (r, wh) = (if bc_ensure_table cfg then
                (case table_metadata s of
                   Inl e \<Rightarrow> (permanent (Some e), wh)
                 | Inr md \<Rightarrow>
                     (case ensure_table ans (bc_table cfg) md (\<lambda>have. verify_schema s (bm_schema have)) wh of
                        (Some e, wh) \<Rightarrow> (Some (Wrap ''table'' [e]), wh)
                      | (None, wh) \<Rightarrow> (None, wh)))
              else (None, wh))
          in (case r of
              Some e \<Rightarrow> (Some e, w, wh)
            | None \<Rightarrow>
                if bc_ensure_view cfg then
                  (case ensure_table ans (view_name (bc_table cfg)) (view_metadata (bq_table_id cfg)) (\<lambda>have. None) wh of
                     (Some e, wh) \<Rightarrow> (Some (Wrap ''view'' [e]), w, wh)
                   | (None, wh) \<Rightarrow> (None, w, wh))
                else (None, w, wh))))"

text \<open>
  The answers around a write: the error of a context that ends while another caller opens the stream, the
  opener's error, whether \<open>Close\<close> came in between, and the answer to the append.
\<close>

record append_answer =
  aa_wait :: "goerr option"
  aa_open :: "goerr option"
  aa_closed :: bool
  aa_append :: "goerr option"

definition err_writer_closed :: goerr where
  "err_writer_closed = PermanentE (Msg ''bigquery writer is closed'')"

definition stream_for ::
  "(bq_field list \<Rightarrow> goerr + pfield list) \<Rightarrow> append_answer \<Rightarrow> bq_writer \<Rightarrow> (goerr + pfield list) \<times> bq_writer" where
  "stream_for adapt ans w =
     (if bw_closed w then (Inl err_writer_closed, w)
      else case (case bw_desc w of Some d \<Rightarrow> Inr d | None \<Rightarrow> row_descriptor adapt (bw_schema w)) of
          Inl e \<Rightarrow> (Inl (the (permanent (Some (Wrap ''row descriptor'' [e])))), w)
        | Inr d \<Rightarrow>
            let w = w\<lparr>bw_desc := Some d\<rparr> in
            if bw_stream w then (Inr d, w)
            else (case aa_wait ans of
                Some e \<Rightarrow> (Inl (Wrap ''open write stream'' [bq_classify e]), w)
              | None \<Rightarrow>
                  (case aa_open ans of
                     Some e \<Rightarrow> (Inl (Wrap ''open write stream'' [bq_classify e]), w)
                   | None \<Rightarrow>
                       if aa_closed ans
                       then (Inl (Wrap ''open write stream'' [bq_classify err_writer_closed]), w\<lparr>bw_closed := True\<rparr>)
                       else (Inr d, w\<lparr>bw_stream := True\<rparr>))))"

text \<open>A panic of the encoder reaches the router, whose recoverer makes it an error.\<close>

definition err_panic :: goerr where "err_panic = Msg ''panic occurred''"

definition bq_write ::
  "(bq_field list \<Rightarrow> goerr + pfield list) \<Rightarrow> marshaller \<Rightarrow> append_answer \<Rightarrow> arecord list \<Rightarrow> bq_writer \<times> warehouse
    \<Rightarrow> goerr option \<times> bq_writer \<times> warehouse" where
  "bq_write adapt marshal ans records ww = (case ww of (w, wh) \<Rightarrow>
     if records = [] then (None, w, wh)
     else case stream_for adapt ans w of
         (Inl e, w) \<Rightarrow> (Some e, w, wh)
       | (Inr d, w) \<Rightarrow>
           (case encode_rows marshal d records of
              None \<Rightarrow> (Some err_panic, w, wh)
            | Some (Inl e) \<Rightarrow> (permanent (Some (Wrap ''encode'' [e])), w, wh)
            | Some (Inr rows) \<Rightarrow>
                (case aa_append ans of
                   Some e \<Rightarrow> (Some (Wrap ''append'' [bq_classify e]), w, wh)
                 | None \<Rightarrow> (None, w, wh\<lparr>wh_batches := wh_batches wh @ [rows]\<rparr>))))"

text \<open>\<open>Close\<close>: what it closed, with the errors of the stream and of the clients.\<close>

definition bq_close :: "goerr option \<Rightarrow> goerr option list \<Rightarrow> bq_writer \<Rightarrow> goerr option \<times> bq_writer" where
  "bq_close stream_err client_errs w =
     (if bw_closed w then (None, w)
      else (errors_join ((if bw_stream w then map_option (\<lambda>e. Wrap ''close write stream'' [e]) stream_err else None)
              # client_errs), w\<lparr>bw_closed := True\<rparr>))"

end
