(* ===== verification/AnalyticsProps.thy ===== *)
theory AnalyticsProps
  imports AnalyticsFacts
begin

text \<open>
  The current view, the analytics sink over the BigQuery writer as a destination, and the properties of the
  class.
\<close>

section \<open>The view\<close>

lemma key_less_irrefl [simp]: "\<not> key_less k k"
  by (auto simp: key_less_def split: prod.splits)

lemma key_less_trans: "key_less k l \<Longrightarrow> key_less l m \<Longrightarrow> key_less k m"
  by (auto simp: key_less_def split: prod.splits)

lemma key_less_total: "\<not> key_less k l \<Longrightarrow> \<not> key_less l k \<Longrightarrow> k = l"
  by (auto simp: key_less_def split: prod.splits)

lemma current_row_iff:
  "r \<in> set (current_rows rows rid) \<longleftrightarrow> r \<in> set rows \<and> an_record_id r = rid \<and>
     (\<forall>s \<in> set rows. an_record_id s = rid \<longrightarrow> \<not> key_less (row_key r) (row_key s))"
  by (auto simp: current_rows_def list_ex_iff Let_def)

lemma greatest_exists: "xs \<noteq> [] \<Longrightarrow> \<exists>r \<in> set xs. \<forall>s \<in> set xs. \<not> key_less (row_key r) (row_key s)"
proof (induction xs)
  case (Cons x xs)
  show ?case
  proof (cases "xs = []")
    case False
    then obtain r where r: "r \<in> set xs" "\<forall>s \<in> set xs. \<not> key_less (row_key r) (row_key s)" using Cons.IH by blast
    show ?thesis
    proof (cases "key_less (row_key r) (row_key x)")
      case True
      then have "\<forall>s \<in> set xs. \<not> key_less (row_key x) (row_key s)" using r(2) key_less_trans by blast
      then show ?thesis by simp
    qed (use r in auto)
  qed simp
qed simp

lemma current_exists:
  assumes "r \<in> set rows" and "an_record_id r = rid"
  shows "current_rows rows rid \<noteq> []"
proof -
  have "filter (\<lambda>r. an_record_id r = rid) rows \<noteq> []" using assms by (auto simp: filter_empty_conv)
  from greatest_exists [OF this] obtain m where "m \<in> set (current_rows rows rid)"
    by (auto simp: current_row_iff)
  then show ?thesis by auto
qed

lemma current_same_key:
  "r \<in> set (current_rows rows rid) \<Longrightarrow> s \<in> set (current_rows rows rid) \<Longrightarrow> row_key r = row_key s"
  using key_less_total by (auto simp: current_row_iff)

lemma current_rank:
  "r \<in> set (current_rows rows rid) \<Longrightarrow> s \<in> set rows \<Longrightarrow> an_record_id s = rid \<Longrightarrow> an_status_rank s \<le> an_status_rank r"
  by (force simp: current_row_iff key_less_def row_key_def)

lemma stale_row:
  assumes "r \<in> set (current_rows rows rid)" and "key_less (row_key old) (row_key r)"
  shows "set (current_rows (rows @ [old]) rid) = set (current_rows rows rid)"
proof (intro set_eqI iffI)
  fix x
  assume x: "x \<in> set (current_rows (rows @ [old]) rid)"
  with assms have "x \<noteq> old" by (auto simp: current_row_iff)
  with x show "x \<in> set (current_rows rows rid)" by (auto simp: current_row_iff)
next
  fix x
  assume x: "x \<in> set (current_rows rows rid)"
  have "\<not> key_less (row_key x) (row_key old)"
    using current_same_key [OF x assms(1)] assms(2) key_less_trans key_less_irrefl by metis
  with x show "x \<in> set (current_rows (rows @ [old]) rid)" by (auto simp: current_row_iff)
qed

lemma current_rows_cong: "set rows = set rows' \<Longrightarrow> set (current_rows rows rid) = set (current_rows rows' rid)"
  by (auto simp: current_row_iff)

section \<open>The writer's contract\<close>

text \<open>A writer also ensures its schema.\<close>

locale analytics_writer = driver put taken answers good
  for put :: "'b \<Rightarrow> arecord list \<Rightarrow> 'd \<Rightarrow> goerr option \<times> 'd" and taken :: "'d \<Rightarrow> arecord list \<Rightarrow> bool"
    and answers :: "'b \<Rightarrow> bool" and good :: "'d \<Rightarrow> bool" +
  fixes ensure :: "'a \<Rightarrow> schema \<Rightarrow> 'd \<Rightarrow> goerr option \<times> 'd" and ensure_answers :: "'a \<Rightarrow> bool"
  assumes ensure_keeps: "ensure ans s d = (r, d') \<Longrightarrow> taken d y \<Longrightarrow> taken d' y"
    and ensure_good: "good d \<Longrightarrow> ensure ans current_schema d = (r, d') \<Longrightarrow> good d'"
    and ensure_unskipped: "ensure_answers ans \<Longrightarrow> ensure ans s d = (Some e, d') \<Longrightarrow> \<not> is_skipped e"
begin

lemma ensure_schema_keeps:
  assumes "ensure_schema ensure ans (s, d) = (r, s', d')"
  shows "(taken d y \<longrightarrow> taken d' y) \<and> (good d \<longrightarrow> good d')"
  using assms
  by (auto simp: ensure_schema_def dest: ensure_keeps ensure_good split: if_splits option.splits prod.splits)

lemma ensure_schema_unskipped:
  assumes "ensure_schema ensure ans sd = (Some e, sd')" and "ensure_answers (snd ans)"
    and "\<forall>x. fst ans = Some x \<longrightarrow> \<not> is_skipped x"
  shows "\<not> is_skipped e"
  using assms
  by (auto simp: ensure_schema_def dest: ensure_unskipped split: if_splits option.splits prod.splits)

lemma analytics_process_ok:
  assumes "analytics_process ensure put ans env (s, d) = (None, s', d')" and "good d"
  shows "\<exists>exec rs. normalize env = Inr exec \<and> analytics_project exec = Inr rs \<and> taken d' rs"
proof -
  from assms(1) obtain exec where x: "normalize env = Inr exec"
    by (auto simp: analytics_process_def permanent_def split: sum.splits if_splits)
  with assms(1) obtain rs where rs: "analytics_project exec = Inr rs"
    by (auto simp: analytics_process_def split: sum.splits)
  with assms(1) x obtain s1 d1 where e: "ensure_schema ensure (fst ans) (s, d) = (None, s1, d1)"
    and w: "put (snd ans) rs d1 = (None, d')"
    by (auto simp: analytics_process_def split: option.splits prod.splits)
  from ensure_schema_keeps [OF e] assms(2) have "good d1" by blast
  with w have "taken d' rs" by (rule deliver_ok [rotated])
  with x rs show ?thesis by blast
qed

lemma analytics_process_keeps:
  assumes "analytics_process ensure put ans env (s, d) = (r, s', d')"
  shows "(taken d y \<longrightarrow> taken d' y) \<and> (good d \<longrightarrow> good d')"
proof -
  obtain r1 s1 d1 where e: "ensure_schema ensure (fst ans) (s, d) = (r1, s1, d1)" using prod_cases3 by blast
  note k = ensure_schema_keeps [OF e]
  from assms e consider "d' = d" | "d' = d1" | rs r2 where "put (snd ans) rs d1 = (r2, d')"
    by (auto simp: analytics_process_def split: sum.splits option.splits prod.splits)
  then show ?thesis
    by cases (use k deliver_keeps deliver_good in blast)+
qed

lemma analytics_process_unskipped:
  assumes "analytics_process ensure put ans env (s, d) = (Some e, sd')" and "ensure_answers (snd (fst ans))"
    and "answers (snd ans)" and "\<forall>x. fst (fst ans) = Some x \<longrightarrow> \<not> is_skipped x" and "is_skipped e"
  shows "\<exists>exec. normalize env = Inr exec \<and> analytics_project exec = Inl err_skipped"
proof -
  from assms(1,5) obtain exec where x: "normalize env = Inr exec"
    by (auto simp: analytics_process_def dest: normalize_unskipped split: sum.splits)
  have "\<exists>e. analytics_project exec = Inl e"
  proof (rule ccontr)
    assume "\<not> ?thesis"
    then obtain rs where rs: "analytics_project exec = Inr rs" by (cases "analytics_project exec") auto
    with assms x show False
      by (auto simp: analytics_process_def dest: ensure_schema_unskipped deliver_unskipped
          split: option.splits prod.splits)
  qed
  then show ?thesis using x
    by (auto simp: analytics_project_def split: exec_kind.splits option.splits)
qed

end

section \<open>The BigQuery writer\<close>

lemma is_skipped_classify [simp]: "is_skipped (bq_classify e) = is_skipped e"
  by (simp add: bq_classify_def split: option.splits)

definition bq_good :: "(bq_field list \<Rightarrow> goerr + pfield list) \<Rightarrow> bq_writer \<times> warehouse \<Rightarrow> bool" where
  "bq_good adapt ww \<longleftrightarrow> adapts adapt \<and> bw_schema (fst ww) = current_schema \<and>
     (bw_desc (fst ww) = None \<or> bw_desc (fst ww) = Some current_descriptor)"

definition bq_taken :: "marshaller \<Rightarrow> bq_writer \<times> warehouse \<Rightarrow> arecord list \<Rightarrow> bool" where
  "bq_taken marshal ww rs \<longleftrightarrow> rs = [] \<or> map (row_bytes marshal) rs \<in> set (wh_batches (snd ww))"

text \<open>No answer of the service or the libraries is the program's own \<open>ErrSkipped\<close>.\<close>

definition bq_answers ::
  "(bq_field list \<Rightarrow> goerr + pfield list) \<Rightarrow> marshaller \<Rightarrow> append_answer \<Rightarrow> bool" where
  "bq_answers adapt marshal ans \<longleftrightarrow>
     (\<forall>e. aa_wait ans = Some e \<or> aa_open ans = Some e \<or> aa_append ans = Some e \<longrightarrow> \<not> is_skipped e) \<and>
     (\<forall>fs e. adapt fs = Inl e \<longrightarrow> \<not> is_skipped e) \<and> (\<forall>m e. marshal m = Inl e \<longrightarrow> \<not> is_skipped e)"

definition tables_answers :: "tables_answer \<Rightarrow> bool" where
  "tables_answers ans \<longleftrightarrow> (\<forall>tid e. ta_meta ans tid = Some e \<or> ta_create ans tid = Some e \<longrightarrow> \<not> is_skipped e)"

lemma stream_for_good:
  assumes "stream_for adapt ans w = (r, w')" and "bq_good adapt (w, wh)"
  shows "bq_good adapt (w', wh') \<and> (\<forall>d. r = Inr d \<longrightarrow> d = current_descriptor)"
  using assms current_row_descriptor [of adapt]
  by (auto simp: stream_for_def bq_good_def Let_def split: if_splits option.splits sum.splits)

lemma schema_error_unskipped: "schema_validate s = Some e \<Longrightarrow> \<not> is_skipped e"
proof -
  have "columns_error seen cs = Some x \<Longrightarrow> \<not> is_skipped x" for seen cs x
    by (induction seen cs rule: columns_error.induct) (auto simp: is_skipped_def is_sentinel_def split: if_splits)
  then show "schema_validate s = Some e \<Longrightarrow> \<not> is_skipped e"
    by (auto simp: schema_validate_def is_skipped_def is_sentinel_def split: option.splits if_splits)
qed

lemma table_fields_unskipped: "table_fields cs = Inl e \<Longrightarrow> \<not> is_skipped e"
  by (induction cs arbitrary: e) (auto simp: is_skipped_def is_sentinel_def split: option.splits sum.splits)

lemma table_schema_unskipped: "table_schema s = Inl e \<Longrightarrow> \<not> is_skipped e"
  using schema_error_unskipped table_fields_unskipped by (auto simp: table_schema_def split: option.splits)

lemma stream_for_unskipped:
  assumes "bq_answers adapt marshal ans" and "stream_for adapt ans w = (Inl e, w')"
  shows "\<not> is_skipped e"
proof -
  have "\<not> is_skipped x" if "row_descriptor adapt (bw_schema w) = Inl x" for x
    using that assms(1) table_schema_unskipped
    by (auto simp: row_descriptor_def bq_answers_def split: sum.splits)
  with assms show ?thesis
    by (auto simp: stream_for_def bq_answers_def err_writer_closed_def Let_def
        split: if_splits option.splits sum.splits)
qed

lemma encode_error_unskipped:
  assumes "\<forall>m e. marshal m = Inl e \<longrightarrow> \<not> is_skipped e"
  shows "encode_rows marshal d rs = Some (Inl e) \<Longrightarrow> \<not> is_skipped e"
proof (induction rs arbitrary: e)
  case (Cons r rs)
  have "\<not> is_skipped x" if "message_fields d f = Some (Inl x)" for f x
    using that
    by (induction d f arbitrary: x rule: message_fields.induct) (auto split: option.splits sum.splits)
  with Cons assms show ?case
    by (auto simp: bq_encode_def bq_message_def split: option.splits sum.splits)
qed simp

lemma bq_write_unskipped:
  assumes "bq_answers adapt marshal ans" and "bq_write adapt marshal ans rs ww = (Some e, ww')"
  shows "\<not> is_skipped e"
proof -
  have m: "\<forall>m e. marshal m = Inl e \<longrightarrow> \<not> is_skipped e" using assms(1) by (simp add: bq_answers_def)
  have "\<not> is_skipped x" if "aa_append ans = Some x" for x using that assms(1) by (simp add: bq_answers_def)
  with assms(2) stream_for_unskipped [OF assms(1)] encode_error_unskipped [OF m] show ?thesis
    by (auto simp: bq_write_def err_panic_def dest: is_skipped_permanentD
        split: prod.splits if_splits sum.splits option.splits)
qed

lemma bq_write_ok:
  assumes "bq_write adapt marshal ans rs (w, wh) = (r, w', wh')" and "bq_good adapt (w, wh)"
  shows "bq_good adapt (w', wh') \<and> (r = None \<longrightarrow> bq_taken marshal (w', wh') rs) \<and> (r \<noteq> None \<longrightarrow> wh' = wh)"
proof (cases "rs = []")
  case True
  with assms show ?thesis by (auto simp: bq_write_def bq_taken_def)
next
  case False
  obtain q w1 where q: "stream_for adapt ans w = (q, w1)" by fastforce
  note g = stream_for_good [OF q assms(2)]
  show ?thesis
  proof (cases q)
    case (Inl e)
    with assms(1) False q g show ?thesis by (auto simp: bq_write_def)
  next
    case (Inr d)
    with g have d: "d = current_descriptor" by blast
    with assms(1) False q Inr g encode_no_panic [of marshal rs] show ?thesis
      by (auto simp: bq_write_def bq_taken_def dest: encode_some split: option.splits sum.splits)
  qed
qed


lemma bq_write_keeps:
  "bq_write adapt marshal ans rs ww = (r, ww') \<Longrightarrow> bq_taken marshal ww y \<Longrightarrow> bq_taken marshal ww' y"
  by (auto simp: bq_write_def bq_taken_def split: prod.splits if_splits sum.splits option.splits)

lemma ensure_table_batches:
  "ensure_table ans tid md verify wh = (r, wh') \<Longrightarrow> wh_batches wh' = wh_batches wh"
  by (auto simp: ensure_table_def create_table_def split: sum.splits option.splits prod.splits if_splits)

lemma ensure_table_unskipped:
  assumes "tables_answers ans" and "\<forall>m e. check m = Some e \<longrightarrow> \<not> is_skipped e"
    and "ensure_table ans tid md check wh = (Some e, wh')"
  shows "\<not> is_skipped e"
proof (cases "get_metadata ans tid wh")
  case (Inr md0)
  with assms show ?thesis
    by (auto simp: ensure_table_def permanent_def split: option.splits if_splits)
next
  case (Inl x)
  with assms(1) have "\<not> is_skipped x"
    by (auto simp: get_metadata_def tables_answers_def split: option.splits)
  moreover have "\<not> is_skipped y" if "create_table ans tid md wh = (Some y, wh1)" for y wh1
    using that assms(1) by (auto simp: create_table_def tables_answers_def split: option.splits if_splits)
  ultimately show ?thesis
    using assms(3) Inl by (auto simp: ensure_table_def split: prod.splits option.splits if_splits)
qed

text \<open>What \<open>EnsureSchema\<close> leaves: the batches as they were and the schema it was given, without a descriptor.\<close>

lemma bq_ensure_state:
  assumes "bq_ensure_schema ans s (w, wh) = (r, w', wh')"
  shows "wh_batches wh' = wh_batches wh \<and> (w' = w \<or> w' = w\<lparr>bw_schema := s, bw_desc := None\<rparr>)"
  using assms
  by (auto simp: bq_ensure_schema_def Let_def dest!: ensure_table_batches
      split: option.splits prod.splits if_splits sum.splits)

lemma verify_unskipped: "verify_schema s have = Some e \<Longrightarrow> \<not> is_skipped e"
  using table_schema_unskipped by (auto simp: verify_schema_def Let_def split: sum.splits if_splits)

lemma bq_ensure_unskipped:
  assumes "tables_answers ans" and "bq_ensure_schema ans s (w, wh) = (Some e, ww')"
  shows "\<not> is_skipped e"
proof -
  have "\<not> is_skipped x" if "table_metadata s = Inl x" for x
    using that table_schema_unskipped by (auto simp: table_metadata_def split: sum.splits)
  moreover note t = ensure_table_unskipped [OF assms(1)]
  moreover have "\<not> is_skipped x" if "ensure_table ans i md (\<lambda>have. verify_schema s (bm_schema have)) wh = (Some x, wh1)"
    for i md x wh wh1
    by (rule t [OF _ that]) (simp add: verify_unskipped)
  moreover have "\<not> is_skipped x" if "ensure_table ans i md (\<lambda>have. None) wh = (Some x, wh1)" for i md x wh wh1
    by (rule t [OF _ that]) simp
  ultimately show ?thesis
    using assms(2) schema_error_unskipped [of s]
    by (auto simp: bq_ensure_schema_def Let_def dest: is_skipped_permanentD
        split: option.splits prod.splits if_splits sum.splits)
qed

interpretation bq: analytics_writer "bq_write adapt marshal" "bq_taken marshal" "bq_answers adapt marshal"
  "bq_good adapt" bq_ensure_schema tables_answers for adapt marshal
proof (unfold_locales, goal_cases)
  case 1
  then show ?case using bq_write_ok by (metis prod.collapse)
next
  case 2
  then show ?case by (rule bq_write_keeps)
next
  case 3
  then show ?case using bq_write_unskipped by blast
next
  case 4
  then show ?case using bq_write_ok by (metis prod.collapse)
next
  case 5
  then show ?case using bq_ensure_state unfolding bq_taken_def by (metis prod.collapse)
next
  case (6 d ans r d')
  then show ?case using bq_ensure_state [of ans current_schema "fst d" "snd d" r "fst d'" "snd d'"]
    by (auto simp: bq_good_def)
next
  case 7
  then show ?case using bq_ensure_unskipped by (metis prod.collapse)
qed

definition analytics_delivered :: "('d \<Rightarrow> arecord list \<Rightarrow> bool) \<Rightarrow> asink \<times> 'd \<Rightarrow> envelope \<Rightarrow> bool" where
  "analytics_delivered taken sd env \<longleftrightarrow>
     (\<exists>exec rs. normalize env = Inr exec \<and> analytics_project exec = Inr rs \<and> taken (snd sd) rs)"

definition no_entity :: "envelope \<Rightarrow> bool" where
  "no_entity env \<longleftrightarrow> (\<exists>exec. normalize env = Inr exec \<and> analytics_project exec = Inl err_skipped)"

interpretation bq_sink: destination "analytics_process bq_ensure_schema (bq_write adapt marshal)"
  "analytics_delivered (bq_taken marshal)" "\<lambda>env. \<not> no_entity env" "\<lambda>sd. bq_good adapt (snd sd)"
  "\<lambda>ans. (\<forall>x. fst (fst ans) = Some x \<longrightarrow> \<not> is_skipped x) \<and> tables_answers (snd (fst ans)) \<and>
     bq_answers adapt marshal (snd ans)" for adapt marshal
proof (unfold_locales, goal_cases)
  case (1 d ans ev d')
  then show ?case using bq.analytics_process_ok [of adapt marshal ans ev "fst d" "snd d" "fst d'" "snd d'"]
    by (simp add: analytics_delivered_def)
next
  case (2 d ans ev e d')
  then show ?case using bq.analytics_process_unskipped [of adapt marshal ans ev "fst d" "snd d" e d']
    by (simp add: no_entity_def)
next
  case (3 d ans ev r d' ev')
  then show ?case using bq.analytics_process_keeps [of adapt marshal ans ev "fst d" "snd d" r "fst d'" "snd d'"]
    by (auto simp: analytics_delivered_def)
next
  case (4 d ans ev r d')
  then show ?case using bq.analytics_process_keeps [of adapt marshal ans ev "fst d" "snd d" r "fst d'" "snd d'"]
    by auto
qed

end
