(* ===== verification/AnalyticsClaims.thy ===== *)
theory AnalyticsClaims
  imports AnalyticsProps SpanLogProps
begin

text \<open>The properties of the analytics class, with a sample warehouse for their witnesses.\<close>

section \<open>A sample warehouse\<close>

definition sample_adapt :: "bq_field list \<Rightarrow> goerr + pfield list" where
  "sample_adapt fs = Inr (map documented_field fs)"

definition sample_marshal :: marshaller where "sample_marshal m = Inr (concat (map fst m))"

definition sample_bq :: bq_config where
  "sample_bq = bq_default_config\<lparr>bc_project := ''acme-ci'', bc_dataset := ''ci'', bc_table := ''events''\<rparr>"

definition empty_warehouse :: warehouse where "empty_warehouse = \<lparr>wh_tables = [], wh_batches = []\<rparr>"

definition tables_up :: tables_answer where
  "tables_up = \<lparr>ta_meta = (\<lambda>tid. None), ta_create = (\<lambda>tid. None), ta_rival = view_metadata []\<rparr>"

definition stream_up :: append_answer where
  "stream_up = \<lparr>aa_wait = None, aa_open = None, aa_closed = False, aa_append = None\<rparr>"

abbreviation sample_asink :: asink where "sample_asink \<equiv> \<lparr>as_ensure = True, as_ensured = False\<rparr>"

lemma sample_adapts: "adapts sample_adapt"
  by (simp add: adapts_def sample_adapt_def)

lemma run_event_row:
  obtains exec r where "normalize run_event = Inr exec" "analytics_project exec = Inr [run_record exec r]"
proof -
  obtain exec r where "normalize run_event = Inr exec" "x_kind exec = KindRun" "x_run exec = Some r"
    by (rule run_event_completed)
  then show ?thesis using that by (simp add: analytics_project_def)
qed

section \<open>Ties of rank\<close>

text \<open>
  Which of two events of one job is current is decided by their arrival alone when both are of the scheduled
  rank (\<open>waiting\<close> and \<open>queued\<close>): their event time is the job's creation. So a redelivery of the older one
  replaces the newer one, against the comment in record.go that it never does.
\<close>

definition same_rank_events :: "execution \<Rightarrow> job \<Rightarrow> execution \<Rightarrow> job \<Rightarrow> bool" where
  "same_rank_events e1 j1 e2 j2 \<longleftrightarrow> x_kind e1 = KindJob \<and> x_job e1 = Some j1 \<and> x_kind e2 = KindJob \<and>
     x_job e2 = Some j2 \<and> status_rank (j_status j1) = 1 \<and> status_rank (j_status j2) = 1 \<and>
     job_record_id j1 = job_record_id j2 \<and> j_created_at j1 = j_created_at j2 \<and> j_created_at j1 \<noteq> 0 \<and>
     received_at (x_envelope e1) < received_at (x_envelope e2)"

lemma late_redelivery_wins:
  assumes "same_rank_events e1 j1 e2 j2"
  shows "current_rows [job_record e2 j2, job_record e1 j1] (job_record_id j1) = [job_record e2 j2]"
proof -
  note a = assms [unfolded same_rank_events_def]
  have rank: "r_rank \<noteq> status_completed \<and> r_rank \<noteq> status_in_progress" if "status_rank r_rank = 1" for r_rank
    using that by auto
  have "row_key (job_record e1 j1) = (1, j_created_at j1, received_at (x_envelope e1))"
    "row_key (job_record e2 j2) = (1, j_created_at j2, received_at (x_envelope e2))"
    using a rank [of "j_status j1"] rank [of "j_status j2"]
    by (simp_all add: row_key_def job_record_def event_time_def job_event_time_def or_zero_def is_zero_def Let_def
        split: prod.splits)
  moreover have "an_record_id (job_record e1 j1) = job_record_id j1" "an_record_id (job_record e2 j2) = job_record_id j2"
    by (simp_all add: job_record_def Let_def split: prod.splits)
  ultimately show ?thesis using a by (simp add: current_rows_def key_less_def)
qed

section \<open>Properties\<close>

text \<open>
  C32: every row fits the schema the driver creates and verifies its table by: the schema is valid; the set
  columns of a row are distinct, exist and hold values of their column's type; every required column is set;
  and under the documented behaviour of the Storage Write API adapters the row encodes as a message with
  exactly those fields, without the panic dynamic messages have for a value of the wrong type.
\<close>

theorem rows_fit_schema:
  assumes "adapts adapt"
  shows "schema_validate current_schema = None \<and> fits current_schema (record_values r) \<and>
    set (map co_name (filter co_required (sc_columns current_schema))) \<subseteq> set (map fst (record_values r)) \<and>
    (\<exists>d. row_descriptor adapt current_schema = Inr d \<and>
      bq_message d r = Some (Inr (map (\<lambda>(k, v). (k, proto_value v)) (record_values r))))"
  using current_schema_valid record_fits record_required [unfolded required_columns_def]
    current_row_descriptor [OF assms] message_ok [of r]
  by (auto simp: row_message_def)

theorem rows_fit_schema_witness:
  "\<exists>exec r d. normalize run_event = Inr exec \<and> analytics_project exec = Inr [r] \<and>
     fits current_schema (record_values r) \<and> row_descriptor sample_adapt current_schema = Inr d \<and>
     bq_message d r \<noteq> None"
proof -
  obtain exec r where x: "normalize run_event = Inr exec" "analytics_project exec = Inr [run_record exec r]"
    by (rule run_event_row)
  from rows_fit_schema [OF sample_adapts, of "run_record exec r"] obtain d where
    "fits current_schema (record_values (run_record exec r))" "row_descriptor sample_adapt current_schema = Inr d"
    "bq_message d (run_record exec r) \<noteq> None" by auto
  with x show ?thesis by blast
qed



text \<open>
  C31: the analytics sink over the BigQuery writer acks an event only if it has no run or job, or all its rows
  are in the table: one batch the service committed holds exactly the encodings of the rows of the event,
  the entity first and then its steps, and no batch is ever lost from the sink's side, whatever calls fail
  before, between and after.
\<close>

theorem analytics_acked_rows_stored:
  assumes "handle_all (analytics_process bq_ensure_schema (bq_write adapt marshal)) ms h (s, new_bq_writer cfg, wh)
      = (rs, h', s', w', wh')"
    and "adapts adapt" and "i < length ms" and "rs ! i = None"
    and "bq_answers adapt marshal (snd (fst (ms ! i))) \<and> tables_answers (snd (fst (fst (ms ! i)))) \<and>
      (\<forall>x. fst (fst (fst (ms ! i))) = Some x \<longrightarrow> \<not> is_skipped x)"
  shows "\<exists>env exec. from_message (Some (snd (snd (ms ! i)))) = Inr env \<and> normalize env = Inr exec \<and>
    (analytics_project exec = Inl err_skipped \<or>
     (\<exists>rows. analytics_project exec = Inr rows \<and> map (row_bytes marshal) rows \<in> set (wh_batches wh')))"
proof -
  have g: "bq_good adapt (snd (s, new_bq_writer cfg, wh))"
    using assms(2) by (simp add: bq_good_def new_bq_writer_def)
  from bq_sink.handle_all_acked [OF assms(1) g assms(3,4)] assms(5)
  obtain env where env: "from_message (Some (snd (snd (ms ! i)))) = Inr env"
    and d: "analytics_delivered (bq_taken marshal) (s', w', wh') env \<or> no_entity env" by auto
  have "rows \<noteq> []" if "analytics_project exec = Inr rows" for exec rows
    using that by (auto simp: analytics_project_def split: exec_kind.splits option.splits)
  with env d show ?thesis by (auto simp: analytics_delivered_def bq_taken_def no_entity_def)
qed

lemma sample_ensured:
  obtains wh where "bq_ensure_schema tables_up current_schema (new_bq_writer sample_bq, empty_warehouse)
    = (None, new_bq_writer sample_bq, wh)" "wh_batches wh = []"
proof -
  have c: "fst (bq_ensure_schema tables_up current_schema (new_bq_writer sample_bq, empty_warehouse)) = None"
    by code_simp
  obtain r w wh where e: "bq_ensure_schema tables_up current_schema (new_bq_writer sample_bq, empty_warehouse) = (r, w, wh)"
    using prod_cases3 by blast
  from bq_ensure_state [OF e] have "w = new_bq_writer sample_bq" "wh_batches wh = []"
    by (auto simp: new_bq_writer_def empty_warehouse_def)
  with that e c show ?thesis by auto
qed

lemma sample_write:
  "fst (bq_write sample_adapt sample_marshal stream_up [r] (new_bq_writer sample_bq, wh)) = None"
proof -
  have "stream_for sample_adapt stream_up (new_bq_writer sample_bq) = (Inr current_descriptor,
      (new_bq_writer sample_bq)\<lparr>bw_desc := Some current_descriptor, bw_stream := True\<rparr>)"
    using current_row_descriptor [OF sample_adapts]
    by (simp add: stream_for_def new_bq_writer_def stream_up_def Let_def)
  moreover have "encode_rows sample_marshal current_descriptor [r] = Some (Inr [row_bytes sample_marshal r])"
    by (simp add: encode_ok marshals_def sample_marshal_def)
  ultimately show ?thesis by (simp add: bq_write_def stream_up_def)
qed

theorem analytics_acked_rows_stored_witness:
  "\<exists>h' s' w' wh' exec rows. handle_all (analytics_process bq_ensure_schema (bq_write sample_adapt sample_marshal))
     [(((None, tables_up), stream_up), 5, to_message run_event)] idle_handler (sample_asink, new_bq_writer sample_bq, empty_warehouse)
       = ([None], h', s', w', wh') \<and>
     normalize run_event = Inr exec \<and> analytics_project exec = Inr rows \<and>
     map (row_bytes sample_marshal) rows \<in> set (wh_batches wh')"
proof -
  let ?p = "analytics_process bq_ensure_schema (bq_write sample_adapt sample_marshal)"
  let ?ms = "[(((None, tables_up), stream_up), 5, to_message run_event)]"
  obtain exec r where x: "normalize run_event = Inr exec" "analytics_project exec = Inr [run_record exec r]"
    by (rule run_event_row)
  obtain wh where e: "bq_ensure_schema tables_up current_schema (new_bq_writer sample_bq, empty_warehouse)
    = (None, new_bq_writer sample_bq, wh)" by (rule sample_ensured)
  obtain w' wh' where w: "bq_write sample_adapt sample_marshal stream_up [run_record exec r] (new_bq_writer sample_bq, wh)
      = (None, w', wh')" using sample_write by (metis prod.collapse)
  obtain rs h' s1 w1 wh1 where all: "handle_all ?p ?ms idle_handler (sample_asink, new_bq_writer sample_bq, empty_warehouse)
      = (rs, h', s1, w1, wh1)" using prod_cases5 by blast
  then have rs: "rs = [None]"
    by (auto simp: handle_def run_event_reads analytics_process_def x ensure_schema_def e w split: prod.splits)
  have "bq_answers sample_adapt sample_marshal stream_up \<and> tables_answers tables_up"
    by (simp add: bq_answers_def stream_up_def sample_adapt_def sample_marshal_def tables_answers_def tables_up_def)
  with analytics_acked_rows_stored [OF all sample_adapts, of 0] rs run_event_reads x
  have "map (row_bytes sample_marshal) [run_record exec r] \<in> set (wh_batches wh1)" by auto
  with all rs x show ?thesis by blast
qed

end
