(* ===== verification/Config.thy ===== *)
theory Config
  imports Recovery SinkRegistry Forward
begin

text \<open>
  Package \<open>config\<close> (\<open>internal/config\<close>): byte sizes, environment references, the configuration and its
  validation, and the rendering with masked secrets. YAML decoding, IP parsing and the drivers' describers
  are arguments.
\<close>

section \<open>Byte sizes\<close>

definition kib :: int where "kib = 2 ^ 10"
definition mib :: int where "mib = 2 ^ 20"
definition gib :: int where "gib = 2 ^ 30"
definition tib :: int where "tib = 2 ^ 40"

lemmas unit_defs = kib_def mib_def gib_def tib_def

definition byte_units :: "(string \<times> int) list" where
  "byte_units = [([], 1), (''b'', 1), (''k'', kib), (''kib'', kib), (''kb'', 1000), (''m'', mib), (''mib'', mib),
     (''mb'', 1000 * 1000), (''g'', gib), (''gib'', gib), (''gb'', 1000 * 1000 * 1000), (''t'', tib), (''tib'', tib),
     (''tb'', 1000 * 1000 * 1000 * 1000)]"

definition parse_byte_size :: "string \<Rightarrow> goerr + int" where
  "parse_byte_size s = (let text = trim_space s in
     if text = [] then Inl (Msg ''empty size'')
     else let digits = takeWhile is_digit text;
              unit = to_lower (trim_space (dropWhile is_digit text)) in
       if digits = [] then Inl (Msg ''invalid size: must start with a number'')
       else case map_of byte_units unit of
           None \<Rightarrow> Inl (Msg ''invalid size: unknown unit'')
         | Some u \<Rightarrow>
             (case parse_int64 digits of
                None \<Rightarrow> Inl (Wrap ''invalid size'' [Msg ''out of range''])
              | Some n \<Rightarrow> if trunc_div int64_max u < n then Inl (Msg ''invalid size: overflows'')
                  else Inr (n * u)))"

fun best_unit :: "(int \<times> string) list \<Rightarrow> int \<Rightarrow> string" where
  "best_unit [] b = format_int b @ ''B''"
| "best_unit ((unit, name) # us) b =
     (if unit \<le> b \<and> b mod unit = 0 then format_int (b div unit) @ name else best_unit us b)"

definition byte_size_string :: "int \<Rightarrow> string" where
  "byte_size_string b = (if b < 0 then format_int b @ ''B''
     else best_unit [(tib, ''TiB''), (gib, ''GiB''), (mib, ''MiB''), (kib, ''KiB'')] b)"

definition unmarshal_byte_size :: "string \<Rightarrow> goerr + int" where
  "unmarshal_byte_size text = (case parse_byte_size text of
     Inl e \<Rightarrow> Inl e
   | Inr v \<Rightarrow> if v < 0 then Inl (Msg ''invalid size: negative'') else Inr v)"

section \<open>Secrets\<close>

definition secret_mask :: string where "secret_mask = ''***''"

definition secret_string :: "string \<Rightarrow> string" where
  "secret_string s = (if s = [] then [] else secret_mask)"

text \<open>
  The pattern of secret keys, without regard to case. A decoded YAML value: a mapping whose keys are all
  strings decodes to \<open>map[string]any\<close> (\<open>VMap\<close>), any other mapping to \<open>map[any]any\<close> (\<open>VAnyMap\<close>), and
  \<open>VOther\<close> is a scalar that is not a string.
\<close>

definition secret_words :: "string list" where
  "secret_words = [''token'', ''secret'', ''pass'', ''pwd'', ''authorization'', ''bearer'', ''key'', ''credential'']"

definition secret_key :: "string \<Rightarrow> bool" where
  "secret_key k \<longleftrightarrow> list_ex (\<lambda>w. contains_str w (to_lower k)) secret_words"

datatype yval = VNil | VStr string | VOther string | VMap "(string \<times> yval) list" | VAnyMap "(yval \<times> yval) list"
  | VSeq "yval list"

fun empty_value :: "yval \<Rightarrow> bool" where
  "empty_value VNil = True"
| "empty_value (VStr s) = (s = [])"
| "empty_value (VMap m) = (m = [])"
| "empty_value (VSeq vs) = (vs = [])"
| "empty_value v = False"

fun mask_by_key :: "yval \<Rightarrow> yval" where
  "mask_by_key (VMap m) =
     VMap (map (\<lambda>(k, v). (k, if secret_key k \<and> \<not> empty_value v then VStr secret_mask else mask_by_key v)) m)"
| "mask_by_key (VSeq vs) = VSeq (map mask_by_key vs)"
| "mask_by_key v = v"

text \<open>
  A connection URL (\<open>url.go\<close>): \<open>parse\<close> is \<open>url.Parse\<close>, the result whether it found a userinfo and the text of
  the URL without it. Elements of a list are masked one by one.
\<close>

record parsed_url =
  pu_user :: bool
  pu_stripped :: string

definition scheme_placeholder :: string where "scheme_placeholder = ''mask://''"

fun after_slashes :: "string \<Rightarrow> (string \<times> string) option" where
  "after_slashes (a # b # s) = (if a = CHR ''/'' \<and> b = CHR ''/'' then Some ([a, b], s)
     else map_option (\<lambda>(p, r). (a # p, r)) (after_slashes (b # s)))"
| "after_slashes s = None"

definition mask_userinfo :: "(string \<Rightarrow> parsed_url option) \<Rightarrow> string \<Rightarrow> string" where
  "mask_userinfo parse raw = (let prefix = (if contains_str ''://'' raw then [] else scheme_placeholder) in
     case parse (prefix @ raw) of
       None \<Rightarrow> secret_mask
     | Some u \<Rightarrow> if \<not> pu_user u then raw
         else (case after_slashes (pu_stripped u) of
             None \<Rightarrow> secret_mask
           | Some (p, r) \<Rightarrow> trim_prefix prefix (p @ secret_mask @ ''@'' @ r)))"

definition url_string :: "(string \<Rightarrow> parsed_url option) \<Rightarrow> string \<Rightarrow> string" where
  "url_string parse u = (if u = [] then []
     else intercalate '','' (map (\<lambda>p. mask_userinfo parse (trim_space p)) (split_on (CHR '','') u)))"

text \<open>Two URLs that differ in their userinfo only are printed alike.\<close>

lemma mask_userinfo_hides:
  assumes "contains_str ''://'' a = contains_str ''://'' b"
    and "parse ((if contains_str ''://'' a then [] else scheme_placeholder) @ a) = Some \<lparr>pu_user = True, pu_stripped = s\<rparr>"
    and "parse ((if contains_str ''://'' b then [] else scheme_placeholder) @ b) = Some \<lparr>pu_user = True, pu_stripped = s\<rparr>"
  shows "mask_userinfo parse a = mask_userinfo parse b"
  using assms by (simp add: mask_userinfo_def Let_def)

section \<open>Environment references\<close>

text \<open>The parts of a \<open>yaml.Node\<close> that expansion reads: \<open>en_styled\<close> is a quoted, block or tagged style.\<close>

datatype enode = ENode (en_kind: ykind) (en_styled: bool) (en_tag: string) (en_value: string) (en_content: "enode list")

definition name_start :: "char \<Rightarrow> bool" where "name_start c \<longleftrightarrow> is_alpha c \<or> c = CHR ''_''"
definition name_char :: "char \<Rightarrow> bool" where "name_char c \<longleftrightarrow> is_alpha c \<or> is_digit c \<or> c = CHR ''_''"

text \<open>A reference at the head: its name, its default and the rest.\<close>

definition env_ref :: "string \<Rightarrow> (string \<times> string option \<times> string) option" where
  "env_ref s = (if \<not> has_prefix ''${'' s then None
     else let body = drop 2 s; name = takeWhile name_char body; rest = dropWhile name_char body in
       if name = [] \<or> \<not> name_start (hd name) then None
       else if has_prefix ''}'' rest then Some (name, None, drop 1 rest)
       else if has_prefix '':-'' rest then
         (case cut_at (CHR ''}'') (drop 2 rest) of None \<Rightarrow> None | Some (d, r) \<Rightarrow> Some (name, Some d, r))
       else None)"

lemma cut_at_shorter: "cut_at c s = Some (a, b) \<Longrightarrow> length b < length s"
  by (induction s arbitrary: a) (auto split: if_splits)

lemma env_ref_shorter: "env_ref s = Some (n, d, r) \<Longrightarrow> length r < length s"
proof -
  assume e: "env_ref s = Some (n, d, r)"
  have "length (dropWhile name_char (drop 2 s)) \<le> length s - 2"
    using length_dropWhile_le [of name_char "drop 2 s"] by simp
  moreover have "2 \<le> length s" using e by (cases s; cases "tl s") (auto simp: env_ref_def has_prefix_def split: if_splits)
  ultimately show ?thesis
    using e by (auto simp: env_ref_def Let_def dest!: cut_at_shorter split: if_splits option.splits)
qed

text \<open>The text after the replacements, and the names without a value.\<close>

function expand_text :: "(string \<Rightarrow> string option) \<Rightarrow> string \<Rightarrow> string \<times> string list" where
  "expand_text lookup [] = ([], [])"
| "expand_text lookup (c # s) = (case env_ref (c # s) of
     None \<Rightarrow> (let (t, ms) = expand_text lookup s in (c # t, ms))
   | Some (name, def, rest) \<Rightarrow>
       (let (t, ms) = expand_text lookup rest in
        case lookup name of
          Some v \<Rightarrow> (v @ t, ms)
        | None \<Rightarrow> (case def of Some d \<Rightarrow> (d @ t, ms) | None \<Rightarrow> (t, name # ms))))"
  by pat_completeness auto
termination
  by (relation "measure (\<lambda>(l, s). length s)") (auto dest: env_ref_shorter)

declare expand_text.simps [simp del]

definition expand_scalar :: "(string \<Rightarrow> string option) \<Rightarrow> bool \<Rightarrow> string \<Rightarrow> string \<Rightarrow> (string \<times> string) \<times> string list" where
  "expand_scalar lookup styled tag text =
     (if \<not> contains_str ''${'' text then ((tag, text), [])
      else let (t, ms) = expand_text lookup text in
        ((if styled then tag else if t = [] then ''!!str'' else [], t), ms))"

text \<open>Mapping keys are left alone: only every second element of a mapping is visited.\<close>

fun expand_node :: "(string \<Rightarrow> string option) \<Rightarrow> enode \<Rightarrow> enode \<times> string list"
and expand_values :: "(string \<Rightarrow> string option) \<Rightarrow> bool \<Rightarrow> bool \<Rightarrow> enode list \<Rightarrow> enode list \<times> string list" where
  "expand_node lookup (ENode k styled tag text ns) =
     (if k = KScalar then (let ((tag, text), ms) = expand_scalar lookup styled tag text in (ENode k styled tag text ns, ms))
      else if k = KMapping then (let (ns, ms) = expand_values lookup True True ns in (ENode k styled tag text ns, ms))
      else if k = KDocument \<or> k = KSequence
      then (let (ns, ms) = expand_values lookup False False ns in (ENode k styled tag text ns, ms))
      else (ENode k styled tag text ns, []))"
| "expand_values lookup mapping at_key [] = ([], [])"
| "expand_values lookup mapping at_key (n # ns) =
     (let (n, ms) = (if mapping \<and> at_key then (n, []) else expand_node lookup n);
          (ns, ms') = expand_values lookup mapping (\<not> at_key) ns in (n # ns, ms @ ms'))"

definition expand_env :: "(string \<Rightarrow> string option) \<Rightarrow> enode \<Rightarrow> goerr + enode" where
  "expand_env lookup root = (let (n, ms) = expand_node lookup root in
     if ms = [] then Inr n
     else Inl (Wrap ''undefined environment variables'' [Msg (intercalate '', '' (sort_strings (remdups ms)))]))"

section \<open>The configuration\<close>

record server_config =
  sv_listen :: string
  sv_webhook_path :: string
  sv_webhook_secret :: string
  sv_public_url :: string
  sv_max_body_bytes :: int
  sv_publish_timeout :: duration

record admin_config =
  ad_listen :: string
  ad_lag_interval :: duration

record bus_config =
  cb_driver :: string
  cb_topic :: string
  cb_on_missing :: string
  cb_drivers :: "(string, ynode) amap"

text \<open>A sink entry is the registry's view of it and its driver block.\<close>

record sink_entry = sink_config +
  sk_config :: ynode

record recovery_config =
  cr_enabled :: bool
  cr_auth_type :: string
  cr_auth_token :: string
  cr_api_base_url :: string
  cr_interval :: duration
  cr_lookback :: duration
  cr_overlap :: duration
  cr_grace :: duration
  cr_max_per_scan :: int
  cr_targets :: "target_config list"

record config =
  cf_server :: server_config
  cf_admin :: admin_config
  cf_bus :: bus_config
  cf_router :: router_config
  cf_sinks :: "sink_entry list"
  cf_recovery :: recovery_config

definition default_config :: config where
  "default_config = \<lparr>
     cf_server = \<lparr>sv_listen = '':8080'', sv_webhook_path = ''/webhook'', sv_webhook_secret = [], sv_public_url = [],
       sv_max_body_bytes = 25 * 2 ^ 20, sv_publish_timeout = 8 * second\<rparr>,
     cf_admin = \<lparr>ad_listen = ''127.0.0.1:9090'', ad_lag_interval = 15 * second\<rparr>,
     cf_bus = \<lparr>cb_driver = ''nats-jetstream'', cb_topic = ''antwatcher.events'',
       cb_on_missing = on_missing_capability_fail, cb_drivers = []\<rparr>,
     cf_router = \<lparr>rc_process_timeout = 60 * second, rc_close_timeout = 30 * second\<rparr>,
     cf_sinks = [],
     cf_recovery = \<lparr>cr_enabled = False, cr_auth_type = ''token'', cr_auth_token = [], cr_api_base_url = [],
       cr_interval = 10 * minute, cr_lookback = max_lookback, cr_overlap = 15 * minute, cr_grace = 5 * minute,
       cr_max_per_scan = 100, cr_targets = []\<rparr>\<rparr>"

text \<open>\<open>UnmarshalYAML\<close> of the bus section; \<open>dec_s\<close> is \<open>Node.Decode\<close> into a string.\<close>

fun bus_pairs :: "(ynode \<Rightarrow> goerr + string) \<Rightarrow> ynode list \<Rightarrow> bus_config \<Rightarrow> goerr + bus_config" where
  "bus_pairs dec_s (key # val # rest) b =
     (let k = y_value key in
      if k = ''driver'' then
        (case dec_s val of Inl e \<Rightarrow> Inl (Wrap k [e]) | Inr s \<Rightarrow> bus_pairs dec_s rest (b\<lparr>cb_driver := s\<rparr>))
      else if k = ''topic'' then
        (case dec_s val of Inl e \<Rightarrow> Inl (Wrap k [e]) | Inr s \<Rightarrow> bus_pairs dec_s rest (b\<lparr>cb_topic := s\<rparr>))
      else if k = ''on_missing_capability'' then
        (case dec_s val of Inl e \<Rightarrow> Inl (Wrap k [e]) | Inr s \<Rightarrow> bus_pairs dec_s rest (b\<lparr>cb_on_missing := s\<rparr>))
      else if y_kind val \<noteq> KMapping then Inl (Msg ''bus: unknown field (driver blocks must be mappings)'')
      else bus_pairs dec_s rest (b\<lparr>cb_drivers := AList.update k val (cb_drivers b)\<rparr>))"
| "bus_pairs dec_s [key] b = Inr b"
| "bus_pairs dec_s [] b = Inr b"

definition unmarshal_bus :: "(ynode \<Rightarrow> goerr + string) \<Rightarrow> ynode \<Rightarrow> bus_config \<Rightarrow> goerr + bus_config" where
  "unmarshal_bus dec_s n b = (if null_scalar n then Inr b
     else if y_kind n \<noteq> KMapping then Inl (Msg ''bus must be a mapping'')
     else bus_pairs dec_s (y_content n) b)"

end
