(* ===== verification/ConfigValidate.thy ===== *)
theory ConfigValidate
  imports Config
begin

text \<open>
  \<open>validate.go\<close>, \<open>describe.go\<close>, \<open>redact.go\<close> and the loading order of the command, with the options the
  recovery loop takes from its section. \<open>unspecified_ip\<close> is \<open>net.ParseIP(host).IsUnspecified()\<close>.
\<close>

section \<open>Listeners and paths\<close>

text \<open>\<open>net.SplitHostPort\<close>.\<close>

definition last_colon :: "string \<Rightarrow> nat option" where
  "last_colon s = (if CHR '':'' \<in> set s
     then Some (length s - 1 - length (takeWhile (\<lambda>c. c \<noteq> CHR '':'') (rev s))) else None)"

definition split_host_port :: "string \<Rightarrow> (string \<times> string) option" where
  "split_host_port s = (case last_colon s of
     None \<Rightarrow> None
   | Some i \<Rightarrow>
       if s \<noteq> [] \<and> hd s = CHR ''['' then
         (if CHR '']'' \<notin> set s then None
          else let e = length (takeWhile (\<lambda>c. c \<noteq> CHR '']'') s) in
            if e + 1 \<noteq> i then None
            else if CHR ''['' \<in> set (drop 1 s) \<or> CHR '']'' \<in> set (drop (e + 1) s) then None
            else Some (drop 1 (take e s), drop (i + 1) s))
       else if CHR '':'' \<in> set (take i s) \<or> CHR ''['' \<in> set s \<or> CHR '']'' \<in> set s then None
       else Some (take i s, drop (i + 1) s))"

definition unspecified :: "(string \<Rightarrow> bool) \<Rightarrow> string \<Rightarrow> bool" where
  "unspecified unspecified_ip host \<longleftrightarrow> host = [] \<or> unspecified_ip host"

definition same_listener :: "(string \<Rightarrow> bool) \<Rightarrow> string \<Rightarrow> string \<Rightarrow> bool" where
  "same_listener unspecified_ip a b \<longleftrightarrow> a = b \<or>
     (case (split_host_port a, split_host_port b) of
        (Some (ha, pa), Some (hb, pb)) \<Rightarrow> pa = pb \<and>
          (ha = hb \<or> unspecified unspecified_ip ha \<or> unspecified unspecified_ip hb)
      | _ \<Rightarrow> False)"

text \<open>\<open>path.Clean\<close>, over the elements in reverse.\<close>

definition clean_step :: "bool \<Rightarrow> string list \<Rightarrow> string \<Rightarrow> string list" where
  "clean_step rooted out e = (if e = [] \<or> e = ''.'' then out
     else if e = ''..'' then (if out \<noteq> [] \<and> hd out \<noteq> ''..'' then tl out else if rooted then out else e # out)
     else e # out)"

definition path_clean :: "string \<Rightarrow> string" where
  "path_clean p = (let rooted = has_prefix ''/'' p;
       s = (if rooted then ''/'' else []) @ intercalate ''/'' (rev (foldl (clean_step rooted) [] (split_on (CHR ''/'') p)))
     in if s = [] then ''.'' else s)"

section \<open>Validate\<close>

definition check :: "bool \<Rightarrow> string \<Rightarrow> goerr list" where
  "check bad m = (if bad then [Msg m] else [])"

definition path_errors :: "string \<Rightarrow> goerr list" where
  "path_errors p = (if \<not> has_prefix ''/'' p then [Msg ''server.webhook_path must start with /'']
     else if contains_any ''{}'' p then [Msg ''server.webhook_path must not contain braces'']
     else if p \<noteq> ''/'' \<and> has_suffix ''/'' p then [Msg ''server.webhook_path must not end in /'']
     else if path_clean p \<noteq> p then [Msg ''server.webhook_path must be a clean path''] else [])"

definition sink_char :: "char \<Rightarrow> bool" where
  "sink_char c \<longleftrightarrow> (97 \<le> (of_char c :: nat) \<and> (of_char c :: nat) \<le> 122) \<or> is_digit c \<or> c = CHR ''-''"

fun sinks_errors :: "string list \<Rightarrow> sink_entry list \<Rightarrow> goerr list" where
  "sinks_errors seen [] = []"
| "sinks_errors seen (s # ss) =
     (if sk_name s = [] then [Msg ''name is required'']
      else if \<not> list_all sink_char (sk_name s) then [Msg ''name must match [a-z0-9-]+'']
      else check (sk_name s \<in> set seen) ''duplicate sink name'')
     @ check (sk_class s = []) ''class is required'' @ check (sk_driver s = []) ''driver is required''
     @ (if sk_start_from s = ''earliest'' \<or> sk_start_from s = ''now'' then []
        else if sk_start_from s = [] then [Msg ''start_from is required'']
        else [Msg ''start_from must be earliest or now''])
     @ sinks_errors
         (if sk_name s = [] \<or> \<not> list_all sink_char (sk_name s) then seen else sk_name s # seen) ss"

definition target_errors :: "target_config \<Rightarrow> goerr list" where
  "target_errors t =
     (if tc_repo t \<noteq> [] \<and> tc_org t \<noteq> [] then [Msg ''set either repo or org, not both'']
      else if tc_repo t = [] \<and> tc_org t = [] then [Msg ''repo or org is required'']
      else check (tc_repo t \<noteq> [] \<and> length (split_on (CHR ''/'') (tc_repo t)) \<noteq> 2) ''repo must be owner/name'')
     @ check (tc_hook_id t < 0) ''hook_id must be >= 0''"

definition recovery_errors :: "recovery_config \<Rightarrow> goerr list" where
  "recovery_errors r =
     (if cr_auth_type r = ''token'' \<or> cr_auth_type r = [] then []
      else if cr_auth_type r = ''github_app'' then [Msg ''recovery.auth.type is reserved'']
      else [Msg ''recovery.auth.type must be token''])
     @ concat (map target_errors (cr_targets r))
     @ (if \<not> cr_enabled r then []
        else check (cr_auth_type r = []) ''recovery.auth.type is required''
          @ check (cr_auth_type r = ''token'' \<and> cr_auth_token r = []) ''recovery.auth.token is required''
          @ check (cr_targets r = []) ''recovery.targets must list at least one repo or org''
          @ check (cr_interval r \<le> 0) ''recovery.interval must be > 0''
          @ check (cr_lookback r \<le> 0 \<or> max_lookback < cr_lookback r) ''recovery.lookback''
          @ check (cr_overlap r < 0) ''recovery.overlap must be >= 0''
          @ check (cr_grace r < 0) ''recovery.grace must be >= 0''
          @ check (cr_max_per_scan r \<le> 0) ''recovery.max_per_scan must be > 0'')"

definition config_errors :: "(string \<Rightarrow> bool) \<Rightarrow> config \<Rightarrow> goerr list" where
  "config_errors unspecified_ip c = (let s = cf_server c; a = cf_admin c; b = cf_bus c; r = cf_router c in
     check (sv_listen s = []) ''server.listen is required''
     @ path_errors (sv_webhook_path s)
     @ check (sv_webhook_secret s = []) ''server.webhook_secret is required''
     @ check (sv_max_body_bytes s \<le> 0) ''server.max_body_bytes must be > 0''
     @ check (sv_publish_timeout s \<le> 0) ''server.publish_timeout must be > 0''
     @ (if ad_listen a = [] then [Msg ''admin.listen is required'']
        else check (same_listener unspecified_ip (ad_listen a) (sv_listen s)) ''admin.listen must differ from server.listen'')
     @ check (ad_lag_interval a \<le> 0) ''admin.lag_interval must be > 0''
     @ check (cb_driver b = []) ''bus.driver is required'' @ check (cb_topic b = []) ''bus.topic is required''
     @ check (cb_on_missing b \<noteq> on_missing_capability_fail \<and> cb_on_missing b \<noteq> on_missing_capability_degrade)
         ''bus.on_missing_capability must be fail or degrade''
     @ check (rc_process_timeout r \<le> 0) ''router.process_timeout must be > 0''
     @ check (rc_close_timeout r \<le> 0) ''router.close_timeout must be > 0''
     @ sinks_errors [] (cf_sinks c)
     @ recovery_errors (cf_recovery c))"

definition config_validate :: "(string \<Rightarrow> bool) \<Rightarrow> config \<Rightarrow> goerr option" where
  "config_validate unspecified_ip c = join_errs (config_errors unspecified_ip c)"

section \<open>Driver blocks\<close>

text \<open>
  A describer decodes a block into a typed one, which may be checked against the router and, for a sink,
  against the ingress bus; \<open>None\<close> is a type without the check.
\<close>

record 'x validators =
  va_router :: "'x \<Rightarrow> (router_config \<Rightarrow> goerr option) option"
  va_ingress :: "'x \<Rightarrow> (bus_config \<Rightarrow> goerr option) option"

type_synonym 'x describer = "ynode \<Rightarrow> goerr + 'x"

record 'x describers =
  ds_bus :: "(string, 'x describer) amap"
  ds_sinks :: "(string, 'x describer) amap"

definition sink_key :: "string \<Rightarrow> string \<Rightarrow> string" where "sink_key class driver = class @ ''/'' @ driver"

definition validate_block ::
  "'x validators \<Rightarrow> 'x describer \<Rightarrow> ynode \<Rightarrow> router_config \<Rightarrow> bus_config option \<Rightarrow> goerr option" where
  "validate_block va d n router ingress = (case d n of
     Inl e \<Rightarrow> Some e
   | Inr typed \<Rightarrow> errors_join
       ((case va_router va typed of None \<Rightarrow> [] | Some f \<Rightarrow> [f router]) @
        (case (va_ingress va typed, ingress) of (Some f, Some b) \<Rightarrow> [f b] | _ \<Rightarrow> [])))"

definition block_of :: "bus_config \<Rightarrow> string \<Rightarrow> ynode" where
  "block_of b name = (case map_of (cb_drivers b) name of None \<Rightarrow> zero_node | Some n \<Rightarrow> n)"

definition validate_drivers :: "'x validators \<Rightarrow> config \<Rightarrow> 'x describers \<Rightarrow> goerr option" where
  "validate_drivers va c ds = (let b = cf_bus c in errors_join
     ((case map_of (ds_bus ds) (cb_driver b) of
         None \<Rightarrow> []
       | Some d \<Rightarrow> [map_option (\<lambda>e. Wrap ''bus'' [e]) (validate_block va d (block_of b (cb_driver b)) (cf_router c) None)]) @
      map (\<lambda>s. case map_of (ds_sinks ds) (sink_key (sk_class s) (sk_driver s)) of
          None \<Rightarrow> None
        | Some d \<Rightarrow> map_option (\<lambda>e. Wrap ''sinks'' [e]) (validate_block va d (sk_config s) (cf_router c) (Some b)))
        (cf_sinks c)))"

section \<open>Redacted\<close>

text \<open>A rendered block: absent, typed (its \<open>Secret\<close> fields mask themselves) or masked by key.\<close>

datatype 'x rendered = Absent | Typed 'x | Masked yval

definition describe_block :: "(ynode \<Rightarrow> goerr + yval) \<Rightarrow> 'x describer option \<Rightarrow> ynode \<Rightarrow> goerr + 'x rendered" where
  "describe_block dec d n = (if y_kind n = KNone then Inr Absent
     else case d of
         Some f \<Rightarrow> (case f n of Inl e \<Rightarrow> Inl e | Inr x \<Rightarrow> Inr (Typed x))
       | None \<Rightarrow> (case dec n of Inl e \<Rightarrow> Inl (Wrap ''decode driver block'' [e]) | Inr v \<Rightarrow> Inr (Masked (mask_by_key v))))"

record 'x redacted_config =
  re_server :: server_config
  re_admin :: admin_config
  re_bus :: "string \<times> string \<times> string"
  re_drivers :: "(string \<times> 'x rendered) list"
  re_router :: router_config
  re_sinks :: "(string \<times> string \<times> string \<times> string \<times> 'x rendered) list"
  re_recovery :: recovery_config

fun all_right :: "(goerr + 'a) list \<Rightarrow> goerr + 'a list" where
  "all_right [] = Inr []"
| "all_right (Inl e # xs) = Inl e"
| "all_right (Inr x # xs) = (case all_right xs of Inl e \<Rightarrow> Inl e | Inr ys \<Rightarrow> Inr (x # ys))"

definition redacted :: "(ynode \<Rightarrow> goerr + yval) \<Rightarrow> config \<Rightarrow> 'x describers \<Rightarrow> goerr + 'x redacted_config" where
  "redacted dec c ds = (let b = cf_bus c in
     case all_right (map (\<lambda>(name, n). case describe_block dec (map_of (ds_bus ds) name) n of
         Inl e \<Rightarrow> Inl (Wrap ''bus'' [e]) | Inr v \<Rightarrow> Inr (name, v)) (cb_drivers b)) of
       Inl e \<Rightarrow> Inl e
     | Inr drivers \<Rightarrow>
         (case all_right (map (\<lambda>s. case describe_block dec (map_of (ds_sinks ds) (sink_key (sk_class s) (sk_driver s))) (sk_config s) of
             Inl e \<Rightarrow> Inl (Wrap ''sinks'' [e])
           | Inr v \<Rightarrow> Inr (sk_name s, sk_class s, sk_driver s, sk_start_from s, v)) (cf_sinks c)) of
            Inl e \<Rightarrow> Inl e
          | Inr sinks \<Rightarrow> Inr \<lparr>re_server = cf_server c, re_admin = cf_admin c,
              re_bus = (cb_driver b, cb_topic b, cb_on_missing b), re_drivers = drivers, re_router = cf_router c,
              re_sinks = sinks, re_recovery = cf_recovery c\<rparr>))"

section \<open>Loading\<close>

text \<open>\<open>loadConfig\<close> of the command; \<open>loaded\<close> is the answer of \<open>config.Load\<close>.\<close>

definition load_config ::
  "(string \<Rightarrow> bool) \<Rightarrow> 'x validators \<Rightarrow> (ynode \<Rightarrow> goerr + yval) \<Rightarrow> 'x describers \<Rightarrow> goerr + config
    \<Rightarrow> goerr + config \<times> 'x redacted_config" where
  "load_config unspecified_ip va dec ds loaded = (case loaded of
     Inl e \<Rightarrow> Inl e
   | Inr c \<Rightarrow> (case config_validate unspecified_ip c of
         Some e \<Rightarrow> Inl e
       | None \<Rightarrow> (case validate_drivers va c ds of
             Some e \<Rightarrow> Inl e
           | None \<Rightarrow> (case redacted dec c ds of Inl e \<Rightarrow> Inl e | Inr r \<Rightarrow> Inr (c, r)))))"

text \<open>\<open>OptionsFromConfig\<close> of the recovery loop, without the client, which the command sets afterwards.\<close>

definition default_redeliver_delay :: duration where "default_redeliver_delay = 200 * millisecond"

definition options_from_config :: "recovery_config \<Rightarrow> string \<Rightarrow> goerr + options" where
  "options_from_config r url = (case all_right (map (\<lambda>t. case target_from_config t of
         Inl e \<Rightarrow> Inl (Wrap ''recovery.targets'' [e]) | Inr x \<Rightarrow> Inr x) (cr_targets r)) of
     Inl e \<Rightarrow> Inl e
   | Inr ts \<Rightarrow> Inr \<lparr>o_targets = ts, o_has_client = False, o_webhook_url = url, o_interval = cr_interval r,
       o_lookback = cr_lookback r, o_overlap = cr_overlap r, o_grace = cr_grace r,
       o_max_per_scan = cr_max_per_scan r, o_redeliver_delay = default_redeliver_delay\<rparr>)"

text \<open>
  \<open>buildRecovery\<close>; \<open>ans\<close> is what go-github's constructor answers. The version in the user agent is left out.
\<close>

definition auth_from_config :: "recovery_config \<Rightarrow> gh_auth" where
  "auth_from_config r = \<lparr>au_type = cr_auth_type r, au_token = cr_auth_token r\<rparr>"

definition build_recovery :: "goerr option \<Rightarrow> config \<Rightarrow> goerr + target_state list" where
  "build_recovery ans c = (case new_gh_client ans (auth_from_config (cf_recovery c))
       \<lparr>go_api_base_url = cr_api_base_url (cf_recovery c), go_timeout = 0, go_user_agent = ''antwatcher/''\<rparr> of
     Inl e \<Rightarrow> Inl (Wrap ''recovery'' [e])
   | Inr client \<Rightarrow> (case options_from_config (cf_recovery c) (sv_public_url (cf_server c)) of
         Inl e \<Rightarrow> Inl e
       | Inr o' \<Rightarrow> new_loop (o'\<lparr>o_has_client := True\<rparr>)))"

end
