(* ===== verification/ConfigFacts.thy ===== *)
theory ConfigFacts
  imports ConfigValidate
begin

text \<open>
  What the configuration guarantees: sizes print and parse back, masked blocks show no secret, and expansion keeps
  the document's structure.
\<close>

section \<open>Byte sizes\<close>

lemma is_digit_head: "is_digit c \<Longrightarrow> \<not> is_space c"
  by (auto simp: is_digit_def is_space_def Let_def)

lemma format_int_all_digits: "0 \<le> q \<Longrightarrow> list_all is_digit (format_int q)"
  using show_digits_digits [of q] by (simp add: format_int_def)

text \<open>A number followed by the name of its unit, which holds letters only.\<close>

definition unit_name :: "string \<Rightarrow> bool" where
  "unit_name u \<longleftrightarrow> u \<noteq> [] \<and> \<not> is_digit (hd u) \<and> list_all (\<lambda>c. \<not> is_space c) u"

lemma size_parts:
  assumes "0 \<le> q" and "unit_name u"
  shows "trim_space (format_int q @ u) = format_int q @ u" "takeWhile is_digit (format_int q @ u) = format_int q"
    "trim_space (dropWhile is_digit (format_int q @ u)) = u"
proof -
  have d: "list_all is_digit (format_int q)" by (rule format_int_all_digits [OF assms(1)])
  then have h: "is_digit (hd (format_int q))"
    using format_int_nonempty [of q] by (cases "format_int q") auto
  have u: "u \<noteq> []" "\<not> is_space (hd u)" "\<not> is_space (last u)" "\<not> is_digit (hd u)"
    using assms(2) by (auto simp: unit_name_def list_all_iff)
  show "trim_space (format_int q @ u) = format_int q @ u"
    using h u is_digit_head by (intro trim_space_id disjI2) (auto simp: hd_append)
  have t: "takeWhile is_digit (format_int q @ u) = format_int q @ takeWhile is_digit u"
    "dropWhile is_digit (format_int q @ u) = dropWhile is_digit u"
    using d by (auto simp: list_all_iff takeWhile_append2 dropWhile_append2)
  moreover have "takeWhile is_digit u = []" "dropWhile is_digit u = u" using u by (cases u; simp)+
  ultimately show "takeWhile is_digit (format_int q @ u) = format_int q"
    "trim_space (dropWhile is_digit (format_int q @ u)) = u"
    using trim_space_id [OF disjI2 [OF conjI [OF u(2,3)]]] by simp_all
qed

lemma parse_size:
  assumes "0 \<le> q" and "unit_name name" and "map_of byte_units (to_lower name) = Some u" and "0 < u" and "q * u \<le> int64_max"
  shows "parse_byte_size (format_int q @ name) = Inr (q * u)"
proof -
  have "q \<le> q * u" using assms(1,4) by (simp add: mult_le_cancel_left1)
  then have "in_int64 q" using assms(1,5) by (simp add: in_int64_def int64_min_def)
  then have "parse_int64 (format_int q) = Some q" by (rule parse_format_int64)
  moreover have "\<not> trunc_div int64_max u < q"
  proof -
    have "q * u div u \<le> int64_max div u" using assms(4,5) by (intro zdiv_mono1)
    then show ?thesis using assms(4) by (simp add: trunc_div_nonneg int64_max_def)
  qed
  ultimately show ?thesis
    using size_parts [OF assms(1,2)] format_int_nonempty [of q] assms(3)
    by (simp add: parse_byte_size_def Let_def)
qed

lemma best_unit_parses:
  assumes "0 \<le> b" and "b \<le> int64_max"
    and "\<forall>(u, name) \<in> set us. 0 < u \<and> unit_name name \<and> map_of byte_units (to_lower name) = Some u"
  shows "parse_byte_size (best_unit us b) = Inr b"
  using assms(3)
proof (induction us)
  case Nil
  have "unit_name ''B''" "map_of byte_units (to_lower ''B'') = Some 1" by code_simp+
  then show ?case using parse_size [of b "''B''" 1] assms(1,2) by simp
next
  case (Cons x us)
  obtain u name where x: "x = (u, name)" by fastforce
  show ?case
  proof (cases "u \<le> b \<and> b mod u = 0")
    case True
    then have "b div u * u = b" using div_mult_mod_eq [of b u] by simp
    moreover have "0 \<le> b div u" using Cons.prems x assms(1) by (auto intro: pos_imp_zdiv_nonneg_iff [THEN iffD2])
    ultimately show ?thesis using parse_size [of "b div u" name u] Cons.prems x True assms(2) by simp
  qed (use Cons x in auto)
qed

lemma byte_size_parses: "0 \<le> b \<Longrightarrow> b \<le> int64_max \<Longrightarrow> parse_byte_size (byte_size_string b) = Inr b"
proof -
  assume b: "0 \<le> b" "b \<le> int64_max"
  have "list_all (\<lambda>(u, name). 0 < u \<and> unit_name name \<and> map_of byte_units (to_lower name) = Some u)
      [(tib, ''TiB''), (gib, ''GiB''), (mib, ''MiB''), (kib, ''KiB'')]"
    by code_simp
  then have "parse_byte_size (best_unit [(tib, ''TiB''), (gib, ''GiB''), (mib, ''MiB''), (kib, ''KiB'')] b) = Inr b"
    unfolding list_all_iff by (rule best_unit_parses [OF b])
  then show ?thesis using b(1) unfolding byte_size_string_def by simp
qed

lemma byte_unit_pos: "map_of byte_units k = Some u \<Longrightarrow> 1 \<le> u"
proof -
  have "list_all (\<lambda>(k, u). 1 \<le> u) byte_units" by code_simp
  then show "map_of byte_units k = Some u \<Longrightarrow> 1 \<le> u" by (auto simp: list_all_iff dest!: map_of_SomeD)
qed

lemma read_digits_nonneg: "list_all is_digit s \<Longrightarrow> 0 \<le> read_digits s"
proof -
  have "0 \<le> a \<Longrightarrow> list_all is_digit s \<Longrightarrow> 0 \<le> foldl (\<lambda>a c. 10 * a + digit_val c) a s" for a
    by (induction s arbitrary: a) (auto simp: is_digit_def digit_val_def)
  then show "list_all is_digit s \<Longrightarrow> 0 \<le> read_digits s" by (simp add: read_digits_def)
qed

lemma parse_digits_nonneg: "parse_int64 s = Some n \<Longrightarrow> list_all is_digit s \<Longrightarrow> 0 \<le> n"
  by (auto simp: parse_int64_def parse_signed_def parse_unsigned_def is_digit_def read_digits_nonneg
      split: option.splits if_splits list.splits)

lemma parse_size_range: "parse_byte_size s = Inr b \<Longrightarrow> 0 \<le> b \<and> b \<le> int64_max"
proof -
  assume "parse_byte_size s = Inr b"
  then obtain k u n where u: "map_of byte_units k = Some u"
    and n: "parse_int64 (takeWhile is_digit (trim_space s)) = Some n" "\<not> trunc_div int64_max u < n" "b = n * u"
    by (auto simp: parse_byte_size_def Let_def split: if_splits option.splits)
  have "list_all is_digit (takeWhile is_digit (trim_space s))" by (auto simp: list_all_iff dest: set_takeWhileD)
  then have "0 \<le> n" by (rule parse_digits_nonneg [OF n(1)])
  moreover have "n * u \<le> int64_max"
  proof -
    have u1: "1 \<le> u" by (rule byte_unit_pos [OF u])
    with n(2) have "n \<le> int64_max div u" by (simp add: trunc_div_nonneg int64_max_def)
    then have "n * u \<le> int64_max div u * u" using u1 by (intro mult_right_mono) simp_all
    also have "\<dots> \<le> int64_max" using u1 by (simp add: minus_mod_eq_div_mult [symmetric])
    finally show ?thesis .
  qed
  ultimately show ?thesis using n(3) byte_unit_pos [OF u] by simp
qed

section \<open>Masking\<close>

text \<open>The texts in a value, each with the keys on its path.\<close>

fun leaves :: "yval \<Rightarrow> (string list \<times> string) list" where
  "leaves (VStr s) = [([], s)]"
| "leaves (VOther s) = [([], s)]"
| "leaves (VMap m) = concat (map (\<lambda>(k, v). map (\<lambda>(p, s). (k # p, s)) (leaves v)) m)"
| "leaves (VSeq vs) = concat (map leaves vs)"
| "leaves (VAnyMap m) = concat (map (\<lambda>(k, v). map (\<lambda>(p, s). ((case k of VStr t \<Rightarrow> t | _ \<Rightarrow> []) # p, s)) (leaves v)) m)"
| "leaves VNil = []"

fun string_keyed :: "yval \<Rightarrow> bool" where
  "string_keyed (VMap m) = list_all (\<lambda>(k, v). string_keyed v) m"
| "string_keyed (VSeq vs) = list_all string_keyed vs"
| "string_keyed (VAnyMap m) = False"
| "string_keyed v = True"

lemma leaves_empty: "empty_value v \<Longrightarrow> (p, s) \<in> set (leaves v) \<Longrightarrow> s = []"
  by (cases v) auto

lemma mask_empty: "empty_value v \<Longrightarrow> mask_by_key v = v"
  by (cases v) auto

lemma mask_leaves:
  "string_keyed v \<Longrightarrow> (p, s) \<in> set (leaves (mask_by_key v)) \<Longrightarrow>
     s = secret_mask \<or> s = [] \<or> (p, s) \<in> set (leaves v) \<and> list_all (\<lambda>k. \<not> secret_key k) p"
proof (induction v arbitrary: p rule: mask_by_key.induct)
  case (1 m)
  from "1.prems"(2) obtain k v q where kv: "(k, v) \<in> set m" and p: "p = k # q"
    and q: "(q, s) \<in> set (leaves (if secret_key k \<and> \<not> empty_value v then VStr secret_mask else mask_by_key v))"
    by auto
  have sk: "string_keyed v" using "1.prems"(1) kv by (auto simp: list_all_iff)
  consider "secret_key k" "\<not> empty_value v" | "secret_key k" "empty_value v" | "\<not> secret_key k" by blast
  then show ?case
  proof cases
    case 1
    with q show ?thesis by simp
  next
    case 2
    with q leaves_empty [of v q s] show ?thesis by (simp add: mask_empty)
  next
    case 3
    with q have "(q, s) \<in> set (leaves (mask_by_key v))" by simp
    with "1.IH" [of "(k, v)" k v q] kv sk 3 p show ?thesis by force
  qed
next
  case (2 vs)
  from "2.prems"(2) obtain v where v: "v \<in> set vs" "(p, s) \<in> set (leaves (mask_by_key v))" by auto
  moreover have "string_keyed v" using "2.prems"(1) v by (simp add: list_all_iff)
  ultimately show ?case using "2.IH" [of v p] by auto
qed auto

section \<open>Expansion\<close>

text \<open>Whatever the variables hold, expansion adds, removes and moves no node of the document.\<close>

fun same_shape :: "enode \<Rightarrow> enode \<Rightarrow> bool" where
  "same_shape (ENode k st t v ns) (ENode k' st' t' v' ns') \<longleftrightarrow> k = k' \<and> st = st' \<and> list_all2 same_shape ns ns'"

lemma same_shape_refl: "same_shape n n"
  by (induction n) (auto simp: list.rel_refl_strong)

lemma expand_keeps_shape:
  "same_shape n (fst (expand_node lookup n))"
  "list_all2 same_shape ns (fst (expand_values lookup mapping at_key ns))"
proof (induction lookup n and lookup mapping at_key ns rule: expand_node_expand_values.induct)
  case (1 lookup k styled tag v ns)
  then show ?case
    by (auto simp: list.rel_refl_strong same_shape_refl split: prod.splits)
next
  case (3 lookup mapping at_key n ns)
  then show ?case by (auto simp: same_shape_refl split: prod.splits)
qed simp

end
