(* ===== verification/ConfigProps.thy ===== *)
theory ConfigProps
  imports ConfigFacts
begin

text \<open>The properties of the configuration.\<close>

section \<open>What validation ensures\<close>

lemma check_nil [simp]: "check b m = [] \<longleftrightarrow> \<not> b"
  by (simp add: check_def)

lemma sinks_valid:
  "sinks_errors seen ss = [] \<Longrightarrow> distinct (map sk_name ss) \<and> set (map sk_name ss) \<inter> set seen = {} \<and>
     (\<forall>s \<in> set ss. validate_consumer_name (consumer_name (sk_name s)) = None \<and>
       (\<exists>p. parse_start_position (sk_start_from s) = Inr p))"
proof (induction seen ss rule: sinks_errors.induct)
  case (2 seen s ss)
  from "2.prems" have n: "sk_name s \<noteq> []" "list_all sink_char (sk_name s)" "sk_name s \<notin> set seen"
    and st: "sk_start_from s = ''earliest'' \<or> sk_start_from s = ''now''" and rest: "sinks_errors (sk_name s # seen) ss = []"
    by (auto split: if_splits)
  have "\<forall>c. sink_char c \<longrightarrow> consumer_char c" by (auto simp: sink_char_def consumer_char_def is_alpha_def)
  then have "list_all consumer_char (consumer_name (sk_name s))"
    using n(2) by (auto simp: consumer_name_def list_all_iff consumer_char_def is_alpha_def)
  then have "validate_consumer_name (consumer_name (sk_name s)) = None"
    by (simp add: validate_consumer_name_def consumer_name_def)
  moreover have "\<exists>p. parse_start_position (sk_start_from s) = Inr p" using st by (auto simp: parse_start_position_def)
  moreover have "\<not> (sk_name s = [] \<or> \<not> list_all sink_char (sk_name s))" using n by simp
  ultimately show ?case using "2.IH" rest n(3) by auto
qed simp

lemma split_count: "length (split_on c s) = Suc (count_list s c)"
  by (induction s) (auto split: list.split dest: arg_cong [of _ "[]" length])

lemma cut_count: "cut_at c s = Some (a, b) \<Longrightarrow> count_list s c = Suc (count_list b c)"
  by (induction s arbitrary: a) (auto split: if_splits)

lemma cut_none: "cut_at c s = None \<Longrightarrow> count_list s c = 0"
  by (induction s) (auto split: if_splits)

lemma split_two:
  assumes "length (split_on c s) = 2"
  obtains a b where "cut_at c s = Some (a, b)" "c \<notin> set b"
proof (cases "cut_at c s")
  case None
  with assms cut_none show ?thesis by (fastforce simp: split_count)
next
  case (Some ab)
  obtain a b where ab: "ab = (a, b)" by fastforce
  with Some cut_count assms have "count_list b c = 0" by (fastforce simp: split_count)
  with Some ab that show ?thesis by (simp add: count_list_0_iff)
qed

text \<open>The two halves of a repository.\<close>

definition named_target :: "target_config \<Rightarrow> bool" where
  "named_target t \<longleftrightarrow> (case cut_at (CHR ''/'') (tc_repo t) of Some (owner, name) \<Rightarrow> owner \<noteq> [] \<and> name \<noteq> [] | None \<Rightarrow> tc_repo t = [])"

lemma target_accepted:
  assumes "target_errors t = []"
  shows "(named_target t \<longrightarrow> (\<exists>x. target_from_config t = Inr x \<and> t_hook_id x = tc_hook_id t \<and>
      \<not> (is_org x = (t_repo x \<noteq> []) \<or> (t_repo x \<noteq> [] \<and> t_owner x = [])))) \<and>
    (\<not> named_target t \<longrightarrow> (\<exists>e. target_from_config t = Inl e))"
proof (cases "tc_repo t = []")
  case True
  with assms have "tc_org t \<noteq> []" by (auto simp: target_errors_def split: if_splits)
  with True show ?thesis by (simp add: named_target_def target_from_config_def is_org_def Let_def)
next
  case False
  with assms have o': "tc_org t = []" and l: "length (split_on (CHR ''/'') (tc_repo t)) = 2"
    by (auto simp: target_errors_def split: if_splits)
  from split_two [OF l] obtain a b where "cut_at (CHR ''/'') (tc_repo t) = Some (a, b)" "CHR ''/'' \<notin> set b" .
  with False o' show ?thesis by (auto simp: named_target_def target_from_config_def is_org_def Let_def)
qed

lemma all_right_cases:
  "(\<exists>ys. all_right xs = Inr ys \<and> xs = map Inr ys) \<or> (\<exists>e. all_right xs = Inl e \<and> Inl e \<in> set xs)"
  by (induction xs rule: all_right.induct) (auto split: sum.splits)

lemma named_scan:
  assumes "\<forall>t \<in> set ts. target_errors t = []" and "\<forall>t \<in> set ts. named_target t"
  shows "\<exists>xs. map target_from_config ts = map Inr xs \<and> map t_hook_id xs = map tc_hook_id ts \<and>
    (\<forall>x \<in> set xs. \<not> (is_org x = (t_repo x \<noteq> []) \<or> (t_repo x \<noteq> [] \<and> t_owner x = [])))"
  using assms
proof (induction ts)
  case (Cons t ts)
  then obtain xs where xs: "map target_from_config ts = map Inr xs" "map t_hook_id xs = map tc_hook_id ts"
    "\<forall>x \<in> set xs. \<not> (is_org x = (t_repo x \<noteq> []) \<or> (t_repo x \<noteq> [] \<and> t_owner x = []))" by auto
  from Cons.prems target_accepted [of t] obtain x where "target_from_config t = Inr x" "t_hook_id x = tc_hook_id t"
    "\<not> (is_org x = (t_repo x \<noteq> []) \<or> (t_repo x \<noteq> [] \<and> t_owner x = []))" by auto
  with xs show ?case by (intro exI [of _ "x # xs"]) simp
qed simp

lemma concat_nil_set: "concat (map f xs) = [] \<longleftrightarrow> (\<forall>x \<in> set xs. f x = [])"
  by auto

text \<open>Whether the recovery loop can be built over a section that validated.\<close>

definition hooks_known :: "config \<Rightarrow> bool" where
  "hooks_known c \<longleftrightarrow> sv_public_url (cf_server c) \<noteq> [] \<or> (\<forall>t \<in> set (cr_targets (cf_recovery c)). tc_hook_id t \<noteq> 0)"

lemma options_ok:
  assumes "\<forall>t \<in> set ts. target_errors t = []" and "\<forall>t \<in> set ts. named_target t"
  shows "\<exists>xs. all_right (map (\<lambda>t. case target_from_config t of Inl e \<Rightarrow> Inl (Wrap ''recovery.targets'' [e]) | Inr x \<Rightarrow> Inr x) ts)
      = Inr xs \<and> map t_hook_id xs = map tc_hook_id ts \<and>
    (\<forall>x \<in> set xs. \<not> (is_org x = (t_repo x \<noteq> []) \<or> (t_repo x \<noteq> [] \<and> t_owner x = [])))"
proof -
  obtain xs where xs: "map target_from_config ts = map Inr xs" "map t_hook_id xs = map tc_hook_id ts"
    "\<forall>x \<in> set xs. \<not> (is_org x = (t_repo x \<noteq> []) \<or> (t_repo x \<noteq> [] \<and> t_owner x = []))"
    using named_scan [OF assms] by blast
  have "all_right (map (\<lambda>t. case target_from_config t of Inl e \<Rightarrow> Inl (Wrap ''recovery.targets'' [e]) | Inr x \<Rightarrow> Inr x) ts) = Inr xs"
    using xs(1) by (induction ts arbitrary: xs) auto
  with xs show ?thesis by blast
qed

lemma options_refused:
  assumes "t \<in> set ts" and "target_errors t = []" and "\<not> named_target t"
  shows "\<exists>e. all_right (map (\<lambda>t. case target_from_config t of Inl e \<Rightarrow> Inl (Wrap ''recovery.targets'' [e]) | Inr x \<Rightarrow> Inr x) ts) = Inl e"
proof (rule ccontr)
  let ?f = "\<lambda>t. case target_from_config t of Inl e \<Rightarrow> Inl (Wrap ''recovery.targets'' [e]) | Inr x \<Rightarrow> Inr x"
  assume "\<not> ?thesis"
  then obtain ys where ys: "map ?f ts = map Inr ys" using all_right_cases [of "map ?f ts"] by auto
  have "?f t \<in> set (map ?f ts)" using assms(1) by simp
  then obtain y where "?f t = Inr y" unfolding ys by auto
  moreover from target_accepted [OF assms(2)] assms(3) obtain e where "target_from_config t = Inl e" by blast
  ultimately show False by simp
qed

lemma hook_ids: "map t_hook_id xs = map tc_hook_id ts \<Longrightarrow> (\<exists>x \<in> set xs. t_hook_id x = 0) \<longleftrightarrow> (\<exists>t \<in> set ts. tc_hook_id t = 0)"
  by (metis (no_types, lifting) image_iff image_set)

lemma recovery_client:
  assumes "recovery_errors r = []" and "cr_enabled r"
  shows "\<exists>cl. new_gh_client None (auth_from_config r) o' = Inr cl"
  using assms by (auto simp: new_gh_client_ok auth_from_config_def auth_type_token_def recovery_errors_def check_def split: if_splits)

lemma recovery_built:
  assumes "recovery_errors (cf_recovery c) = []" and "cr_enabled (cf_recovery c)"
  shows "(\<exists>l. build_recovery None c = Inr l) \<longleftrightarrow> (\<forall>t \<in> set (cr_targets (cf_recovery c)). named_target t) \<and> hooks_known c"
proof (cases "\<forall>t \<in> set (cr_targets (cf_recovery c)). named_target t")
  case True
  let ?r = "cf_recovery c"
  from assms have t: "\<forall>t \<in> set (cr_targets ?r). target_errors t = []" "cr_targets ?r \<noteq> []"
    and n: "0 < cr_interval ?r" "0 < cr_lookback ?r" "cr_lookback ?r \<le> max_lookback" "0 \<le> cr_overlap ?r"
      "0 \<le> cr_grace ?r" "0 < cr_max_per_scan ?r"
    by (auto simp: recovery_errors_def split: if_splits)
  obtain xs where xs: "all_right (map (\<lambda>t. case target_from_config t of Inl e \<Rightarrow> Inl (Wrap ''recovery.targets'' [e]) | Inr x \<Rightarrow> Inr x)
      (cr_targets ?r)) = Inr xs" "map t_hook_id xs = map tc_hook_id (cr_targets ?r)"
    "\<forall>x \<in> set xs. \<not> (is_org x = (t_repo x \<noteq> []) \<or> (t_repo x \<noteq> [] \<and> t_owner x = []))"
    using options_ok [OF t(1) True] by blast
  have ne: "xs \<noteq> []" using xs(2) t(2) by auto
  obtain cl where cl: "new_gh_client None (auth_from_config ?r)
      \<lparr>go_api_base_url = cr_api_base_url ?r, go_timeout = 0, go_user_agent = ''antwatcher/''\<rparr> = Inr cl"
    using recovery_client [OF assms] by blast
  have "0 \<le> default_redeliver_delay" by (simp add: default_redeliver_delay_def duration_defs)
  then have "(\<exists>l. build_recovery None c = Inr l) \<longleftrightarrow>
      (\<forall>x \<in> set xs. \<not> (t_hook_id x = 0 \<and> sv_public_url (cf_server c) = []))"
    using xs(1,3) n ne cl
    by (auto simp: build_recovery_def options_from_config_def new_loop_def join_errs_def options_errors_def
        split: if_splits)
  also have "\<dots> \<longleftrightarrow> hooks_known c" using hook_ids [OF xs(2)] by (auto simp: hooks_known_def)
  finally show ?thesis using True by blast
next
  case False
  then obtain t where t: "t \<in> set (cr_targets (cf_recovery c))" "\<not> named_target t" by blast
  from assms t have "target_errors t = []" by (auto simp: recovery_errors_def concat_nil_set)
  from options_refused [OF t(1) this t(2)] have "\<nexists>l. build_recovery None c = Inr l"
    by (auto simp: build_recovery_def options_from_config_def split: sum.splits)
  with t show ?thesis by blast
qed

lemma validated_parts:
  assumes "config_validate ip c = None"
  shows "sinks_errors [] (cf_sinks c) = []" "recovery_errors (cf_recovery c) = []"
    "0 < rc_process_timeout (cf_router c)" "0 < rc_close_timeout (cf_router c)"
    "cb_on_missing (cf_bus c) = on_missing_capability_fail \<or> cb_on_missing (cf_bus c) = on_missing_capability_degrade"
    "sv_webhook_secret (cf_server c) \<noteq> []" "\<not> same_listener ip (ad_listen (cf_admin c)) (sv_listen (cf_server c))"
  using assms by (auto simp: config_validate_def join_errs_def config_errors_def Let_def split: if_splits)

section \<open>Properties\<close>

text \<open>
  Sizes print and parse back: what \<open>String\<close> gives for any size of 0 to 2^63 - 1 bytes parses to that
  size, and whatever \<open>ParseByteSize\<close> accepts is such a size, without overflow, and prints to a text that
  parses to it.
\<close>

theorem byte_size_roundtrip:
  "(0 \<le> b \<and> b \<le> int64_max \<longrightarrow> unmarshal_byte_size (byte_size_string b) = Inr b) \<and>
   (parse_byte_size txt0 = Inr v \<longrightarrow> 0 \<le> v \<and> v \<le> int64_max \<and> parse_byte_size (byte_size_string v) = Inr v)"
  using byte_size_parses parse_size_range [of txt0 v] by (auto simp: unmarshal_byte_size_def)

theorem byte_size_roundtrip_witness:
  "unmarshal_byte_size (byte_size_string (3 * 2 ^ 20)) = Inr (3 * 2 ^ 20)"
  using byte_size_roundtrip [of "3 * 2 ^ 20"] by (simp add: int64_max_def)

text \<open>
  C38: a block printed without a describer shows no secret: every text in it is the mask, is empty, or is in
  the block at a path on which no key looks secret, as long as all mappings have string keys. A mapping with
  another key among its keys is not looked into, so the secrets below it are printed.
\<close>

theorem masked_block_hides_secrets:
  assumes "string_keyed v" and "(p, s) \<in> set (leaves (mask_by_key v))"
  shows "(s = secret_mask \<or> s = [] \<or> (p, s) \<in> set (leaves v) \<and> list_all (\<lambda>k. \<not> secret_key k) p) \<and>
    ([''token''], ''t0p'') \<in> set (leaves (mask_by_key (VAnyMap [(VOther ''1'', VNil), (VStr ''token'', VStr ''t0p'')])))"
  using mask_leaves [OF assms] by simp

theorem masked_block_hides_secrets_witness:
  "leaves (mask_by_key (VMap [(''Api-Token'', VSeq [VStr ''hunter2'']), (''user'', VStr ''u'')])) =
     [([''Api-Token''], secret_mask), ([''user''], ''u'')] \<and> \<not> secret_key ''user''"
proof -
  let ?v = "VMap [(''Api-Token'', VSeq [VStr ''hunter2'']), (''user'', VStr ''u'')]"
  have l: "leaves (mask_by_key ?v) = [([''Api-Token''], secret_mask), ([''user''], ''u'')]" by code_simp
  have "''u'' \<noteq> secret_mask" by (simp add: secret_mask_def)
  moreover have "string_keyed ?v" by simp
  moreover have "([''user''], ''u'') \<in> set (leaves (mask_by_key ?v))" unfolding l by simp
  ultimately have "\<not> secret_key ''user''" using masked_block_hides_secrets [of ?v "[''user'']" "''u''"] by auto
  with l show ?thesis by blast
qed


definition half_named_config :: config where
  "half_named_config = default_config\<lparr>
     cf_server := (cf_server default_config)\<lparr>sv_webhook_secret := ''s''\<rparr>,
     cf_recovery := (cf_recovery default_config)\<lparr>cr_enabled := True, cr_auth_token := ''t'',
       cr_targets := [\<lparr>tc_repo = ''acme/'', tc_org = [], tc_hook_id = 7\<rparr>]\<rparr>\<rparr>"


end
