(* ===== verification/Serve.thy ===== *)
theory Serve
  imports ConfigProps
begin

text \<open>
  The command's lifecycle (\<open>cmd/antwatcher/serve.go\<close>) and the webhook server (\<open>internal/receiver/server.go\<close>):
  which components are built, started, stopped and closed, in which order, whatever fails. Every function
  returns the list of what it did.
\<close>

section \<open>The webhook server\<close>

datatype listener = Unbound | Bound | Released

record http_server =
  hs_listener :: listener
  hs_read_timeout :: duration
  hs_write_timeout :: duration

definition new_http_server :: "server_config \<Rightarrow> http_server" where
  "new_http_server cfg = \<lparr>hs_listener = Unbound, hs_read_timeout = 30 * second,
     hs_write_timeout = 30 * second + sv_publish_timeout cfg + 5 * second\<rparr>"

definition server_listen :: "goerr option \<Rightarrow> http_server \<Rightarrow> goerr option \<times> http_server" where
  "server_listen ans s = (if hs_listener s \<noteq> Unbound then (None, s)
     else case ans of
         Some e \<Rightarrow> (Some (Wrap ''receiver: listen'' [e]), s)
       | None \<Rightarrow> (None, s\<lparr>hs_listener := Bound\<rparr>))"

text \<open>\<open>ans\<close> is the listener's answer; a listener closed twice reports an error.\<close>

definition server_close :: "goerr option \<Rightarrow> http_server \<Rightarrow> goerr option \<times> http_server" where
  "server_close ans s = (if hs_listener s = Unbound then (None, s) else (ans, s\<lparr>hs_listener := Released\<rparr>))"

text \<open>
  \<open>Run\<close>: the answer of \<open>Listen\<close>; then either \<open>Serve\<close> returns first with an error (\<open>Inl\<close>; \<open>None\<close> is
  \<open>ErrServerClosed\<close>) or the context ends and \<open>Shutdown\<close> answers. The result also gives the time \<open>Shutdown\<close> may take.
\<close>

definition server_run ::
  "goerr option \<Rightarrow> goerr option + goerr option \<Rightarrow> http_server \<Rightarrow> goerr option \<times> duration option \<times> http_server" where
  "server_run listen_ans ended s = (case server_listen listen_ans s of
     (Some e, s) \<Rightarrow> (Some e, None, s)
   | (None, s) \<Rightarrow>
       (case ended of
          Inl None \<Rightarrow> (None, None, s\<lparr>hs_listener := Released\<rparr>)
        | Inl (Some e) \<Rightarrow> (Some (Wrap ''receiver: serve'' [e]), None, s\<lparr>hs_listener := Released\<rparr>)
        | Inr r \<Rightarrow> (map_option (\<lambda>e. Wrap ''receiver: shutdown'' [e]) r, Some (hs_write_timeout s + 2 * second),
            s\<lparr>hs_listener := Released\<rparr>)))"

lemma shutdown_covers_request:
  "hs_read_timeout (new_http_server cfg) + sv_publish_timeout cfg < hs_write_timeout (new_http_server cfg) + 2 * second"
  by (simp add: new_http_server_def duration_defs)

section \<open>Startup\<close>

datatype resource = RBus | RSinks | RRouter | RAdmin | RReceiver

datatype task = TAdmin | TRouter | TLag | THealth | TRecovery | TReceiver

datatype act = Acquire resource | Release resource | Start task | Stop task

text \<open>What has been built so far, and whether the listeners are bound.\<close>

record service =
  se_bus :: bool
  se_sinks :: bool
  se_router :: bool
  se_recovery :: bool
  se_admin_bound :: bool
  se_receiver_bound :: bool

definition nothing_built :: service where
  "nothing_built = \<lparr>se_bus = False, se_sinks = False, se_router = False, se_recovery = False,
     se_admin_bound = False, se_receiver_bound = False\<rparr>"

text \<open>\<open>closeBuilt\<close>: closing a server that is not bound does nothing.\<close>

definition close_built :: "service \<Rightarrow> act list" where
  "close_built s = (if se_receiver_bound s then [Release RReceiver] else [])
     @ (if se_router s then [Release RRouter] else []) @ (if se_sinks s then [Release RSinks] else [])
     @ (if se_bus s then [Release RBus] else []) @ (if se_admin_bound s then [Release RAdmin] else [])"

text \<open>
  The answers of the components: rendering the configuration, opening the bus, building the sinks (\<open>Inr\<close>
  whether there are any) and the router, the GitHub client, and binding the two listeners. A sink or router
  constructor that fails has released what it built itself.
\<close>

record startup_answer =
  su_redacted :: "goerr option"
  su_bus :: "goerr + capabilities"
  su_sinks :: "goerr + bool"
  su_router :: "goerr option"
  su_client :: "goerr option"
  su_admin_listen :: "goerr option"
  su_receiver_listen :: "goerr option"

text \<open>The steps of \<open>newService\<close> up to where each can fail; what fails closes what was built.\<close>

definition fail_with :: "goerr \<Rightarrow> service \<Rightarrow> act list \<Rightarrow> (goerr + service) \<times> act list" where
  "fail_with e s acts = (Inl e, acts @ close_built s)"

definition bind_listeners :: "startup_answer \<Rightarrow> service \<Rightarrow> act list \<Rightarrow> (goerr + service) \<times> act list" where
  "bind_listeners ans s acts = (case su_admin_listen ans of
     Some e \<Rightarrow> fail_with e s acts
   | None \<Rightarrow>
       let s = s\<lparr>se_admin_bound := True\<rparr>; acts = acts @ [Acquire RAdmin] in
       (case su_receiver_listen ans of
          Some e \<Rightarrow> fail_with e s acts
        | None \<Rightarrow> (Inr (s\<lparr>se_receiver_bound := True\<rparr>), acts @ [Acquire RReceiver])))"

definition build_consumers :: "config \<Rightarrow> startup_answer \<Rightarrow> service \<Rightarrow> act list \<Rightarrow> (goerr + service) \<times> act list" where
  "build_consumers c ans s acts = (case su_sinks ans of
     Inl e \<Rightarrow> fail_with e s acts
   | Inr some_sinks \<Rightarrow>
       let s = s\<lparr>se_sinks := some_sinks\<rparr>; acts = acts @ (if some_sinks then [Acquire RSinks] else []) in
       (case su_router ans of
          Some e \<Rightarrow> fail_with e s acts
        | None \<Rightarrow>
            let s = s\<lparr>se_router := True\<rparr>; acts = acts @ [Acquire RRouter] in
            if cr_enabled (cf_recovery c) then
              (case build_recovery (su_client ans) c of
                 Inl e \<Rightarrow> fail_with e s acts
               | Inr l \<Rightarrow> bind_listeners ans (s\<lparr>se_recovery := True\<rparr>) acts)
            else bind_listeners ans s acts))"

definition new_service :: "config \<Rightarrow> startup_answer \<Rightarrow> (goerr + service) \<times> act list" where
  "new_service c ans = (case su_redacted ans of
     Some e \<Rightarrow> (Inl e, [])
   | None \<Rightarrow>
       (case parse_mode (cb_on_missing (cf_bus c)) of
          Inl e \<Rightarrow> fail_with (Wrap ''bus'' [e]) nothing_built []
        | Inr mode \<Rightarrow>
            (case su_bus ans of
               Inl e \<Rightarrow> fail_with e nothing_built []
             | Inr caps \<Rightarrow>
                 let s = nothing_built\<lparr>se_bus := True\<rparr>; acts = [Acquire RBus] in
                 (case resolve_ingress caps mode of
                    Inl e \<Rightarrow> fail_with (Wrap ''bus'' [e]) s acts
                  | Inr warnings \<Rightarrow> build_consumers c ans s acts))))"

section \<open>Run\<close>

text \<open>
  What ends the service: whether the router reached \<open>Running\<close> before it ended, the failure of a component
  (\<open>None\<close> is a signal), and what each stop and close answers.
\<close>

record run_answer =
  ra_running :: bool
  ra_cause :: "goerr option"
  ra_receiver :: "goerr option"
  ra_router_close :: "goerr option"
  ra_router :: "goerr option"
  ra_recovery :: "goerr option"
  ra_lag :: "goerr option"
  ra_health :: "goerr option"
  ra_sinks :: "goerr option"
  ra_bus :: "goerr option"
  ra_admin :: "goerr option"

text \<open>Errors are compared by value where the source compares the identity of the cause.\<close>

definition drop_cause :: "goerr option list \<Rightarrow> goerr option \<Rightarrow> goerr option list" where
  "drop_cause errs cause = filter (\<lambda>e. e \<noteq> None \<and> e \<noteq> cause) errs"

definition run_errors :: "run_answer \<Rightarrow> service \<Rightarrow> goerr option list" where
  "run_errors ans s = [ra_receiver ans, ra_router_close ans, ra_router ans, if se_recovery s then ra_recovery ans else None,
     ra_lag ans, ra_health ans, ra_sinks ans, ra_bus ans, ra_admin ans]"

definition service_run :: "run_answer \<Rightarrow> service \<Rightarrow> goerr option \<times> act list" where
  "service_run ans s = (
     let acts = [Start TAdmin, Start TRouter, Start TLag, Start THealth] @
           (if se_recovery s then [Start TRecovery] else []) @
           (if ra_running ans then [Start TReceiver] else []) @
           (if ra_running ans then [Stop TReceiver] else []) @ [Release RReceiver] @
           [Release RRouter, Stop TRouter] @ (if se_recovery s then [Stop TRecovery] else []) @ [Stop TLag, Stop THealth] @
           (if se_sinks s then [Release RSinks] else []) @ [Release RBus, Stop TAdmin, Release RAdmin];
         shutdown_err = errors_join (drop_cause (run_errors ans s) (ra_cause ans))
     in if ra_cause ans = None \<and> shutdown_err = None then (None, acts)
        else (errors_join [ra_cause ans, shutdown_err], acts))"

section \<open>Lawful traces\<close>

text \<open>
  A monitor of traces: what is held and what runs. A resource is acquired once what it uses is held, and
  released when nothing held or running uses it; a task runs while what it uses is held.
\<close>

definition uses :: "resource \<Rightarrow> resource list" where
  "uses r = (case r of RRouter \<Rightarrow> [RBus] | RSinks \<Rightarrow> [RBus] | RReceiver \<Rightarrow> [RBus] | _ \<Rightarrow> [])"

definition task_uses :: "task \<Rightarrow> resource list" where
  "task_uses t = (case t of TAdmin \<Rightarrow> [RAdmin] | TLag \<Rightarrow> [RBus] | THealth \<Rightarrow> [RBus] | TReceiver \<Rightarrow> [RReceiver] | _ \<Rightarrow> [])"

text \<open>The sinks serve the router's handlers, so they outlive it; the router task ends after its \<open>Close\<close>.\<close>

fun lawful :: "act list \<Rightarrow> resource list \<Rightarrow> task list \<Rightarrow> (resource list \<times> task list) option" where
  "lawful [] held running = Some (held, running)"
| "lawful (Acquire r # as) held running =
     (if r \<in> set held \<or> \<not> set (uses r) \<subseteq> set held then None else lawful as (r # held) running)"
| "lawful (Release r # as) held running =
     (if r \<notin> set held \<or> (\<exists>h \<in> set held. r \<in> set (uses h)) \<or> (\<exists>t \<in> set running. r \<in> set (task_uses t)) \<or>
        r = RSinks \<and> (RRouter \<in> set held \<or> TRouter \<in> set running) \<or> r = RBus \<and> TRouter \<in> set running
      then None else lawful as (remove1 r held) running)"
| "lawful (Start t # as) held running =
     (if t \<in> set running \<or> \<not> set (task_uses t) \<subseteq> set held \<or> t = TRouter \<and> RRouter \<notin> set held \<or>
        t = TReceiver \<and> TRouter \<notin> set running
      then None else lawful as held (t # running))"
| "lawful (Stop t # as) held running = (if t \<notin> set running then None else lawful as held (remove1 t running))"

lemma lawful_append:
  "lawful (as @ bs) held running = (case lawful as held running of None \<Rightarrow> None | Some (h, r) \<Rightarrow> lawful bs h r)"
  by (induction as held running rule: lawful.induct) auto

text \<open>What a service that was built holds, in the order it was acquired.\<close>

definition held_by :: "service \<Rightarrow> resource list" where
  "held_by s = [RReceiver, RAdmin, RRouter] @ (if se_sinks s then [RSinks] else []) @ [RBus]"

lemmas lawful_defs = uses_def task_uses_def close_built_def fail_with_def nothing_built_def held_by_def

lemma bind_lawful:
  assumes "bind_listeners ans s acts = (r, acts')" and "se_bus s" and "se_router s"
    and "\<not> se_admin_bound s" and "\<not> se_receiver_bound s"
    and "lawful acts [] [] = Some ([RRouter] @ (if se_sinks s then [RSinks] else []) @ [RBus], [])"
  shows "case r of Inl e \<Rightarrow> lawful acts' [] [] = Some ([], []) | Inr s' \<Rightarrow> lawful acts' [] [] = Some (held_by s', [])"
  using assms
  by (auto simp: bind_listeners_def lawful_append lawful_defs Let_def split: option.splits if_splits)

lemma consumers_lawful:
  assumes "build_consumers c ans s acts = (r, acts')" and "s = nothing_built\<lparr>se_bus := True\<rparr>" and "acts = [Acquire RBus]"
  shows "case r of Inl e \<Rightarrow> lawful acts' [] [] = Some ([], []) | Inr s' \<Rightarrow> lawful acts' [] [] = Some (held_by s', [])"
proof (cases "su_sinks ans")
  case (Inl e)
  with assms show ?thesis by (auto simp: build_consumers_def lawful_defs)
next
  case (Inr some_sinks)
  let ?s = "s\<lparr>se_sinks := some_sinks, se_router := True\<rparr>"
  let ?acts = "acts @ (if some_sinks then [Acquire RSinks] else []) @ [Acquire RRouter]"
  have l: "lawful ?acts [] [] = Some ([RRouter] @ (if some_sinks then [RSinks] else []) @ [RBus], [])"
    using assms(3) by (simp add: lawful_defs)
  from assms Inr consider "r = Inl (the (su_router ans))" "acts' = [Acquire RBus] @ (if some_sinks then [Acquire RSinks, Release RSinks] else []) @ [Release RBus]"
    | e where "r = Inl e" "acts' = ?acts @ close_built ?s"
    | x where "bind_listeners ans (?s\<lparr>se_recovery := x\<rparr>) ?acts = (r, acts')"
    by (auto simp: build_consumers_def fail_with_def close_built_def nothing_built_def Let_def
        split: option.splits sum.splits if_splits)
  then show ?thesis
  proof cases
    case 1
    then show ?thesis by (simp add: lawful_defs)
  next
    case 2
    then show ?thesis using assms(2,3) by (simp add: lawful_defs)
  next
    case 3
    from bind_lawful [OF 3] l assms(2) show ?thesis by (simp add: nothing_built_def)
  qed
qed

lemma new_service_lawful:
  assumes "new_service c ans = (r, acts)"
  shows "case r of Inl e \<Rightarrow> lawful acts [] [] = Some ([], []) | Inr s \<Rightarrow> lawful acts [] [] = Some (held_by s, [])"
proof -
  consider e where "r = Inl e" "acts = []" | e where "r = Inl e" "acts = [Acquire RBus, Release RBus]"
    | "build_consumers c ans (nothing_built\<lparr>se_bus := True\<rparr>) [Acquire RBus] = (r, acts)"
    using assms
    by (auto simp: new_service_def fail_with_def close_built_def nothing_built_def Let_def
        split: option.splits sum.splits)
  then show ?thesis
    by cases (use consumers_lawful in \<open>simp_all add: lawful_defs\<close>)
qed

lemma service_run_lawful: "lawful (snd (service_run ans s)) (held_by s) [] = Some ([], [])"
  by (cases "se_recovery s"; cases "se_sinks s"; cases "ra_running ans")
    (simp_all add: service_run_def Let_def lawful_defs)

section \<open>Outcomes\<close>

lemma dropped_none: "errors_join (drop_cause errs None) = None \<longleftrightarrow> (\<forall>e \<in> set errs. e = None)"
  by (auto simp: drop_cause_def)

lemma service_run_clean:
  "fst (service_run ans s) = None \<longleftrightarrow> ra_cause ans = None \<and> (\<forall>e \<in> set (run_errors ans s). e = None)"
proof (cases "ra_cause ans")
  case None
  then have "errors_join (drop_cause (run_errors ans s) (ra_cause ans)) = None \<longleftrightarrow>
      (\<forall>e \<in> set (run_errors ans s). e = None)"
    by (simp only: dropped_none)
  with None show ?thesis by (auto simp: service_run_def Let_def)
next
  case (Some e)
  then show ?thesis by (simp add: service_run_def Let_def)
qed

lemma started_durable:
  assumes "new_service c ans = (Inr s, acts)" and "cb_on_missing (cf_bus c) = on_missing_capability_fail"
  shows "\<exists>caps. su_bus ans = Inr caps \<and> c_durable_publish caps"
proof -
  have "parse_mode (cb_on_missing (cf_bus c)) = Inr mode_fail" using assms(2) by (simp add: parse_mode_def)
  with assms(1) obtain caps w where "su_bus ans = Inr caps" "resolve_ingress caps mode_fail = Inr w"
    by (auto simp: new_service_def fail_with_def Let_def split: option.splits sum.splits)
  then show ?thesis by (auto simp: resolve_ingress_def split: option.splits if_splits)
qed

section \<open>Properties\<close>


definition good_start :: startup_answer where
  "good_start = \<lparr>su_redacted = None, su_bus = Inr \<lparr>c_durable_publish = True, c_durable_consumers = True, c_fan_out = True,
       c_historical_replay = True, c_deduplicates = True, c_reports_lag = True, c_retention = 0\<rparr>,
     su_sinks = Inr True, su_router = None, su_client = None, su_admin_listen = None, su_receiver_listen = None\<rparr>"

definition port_taken :: startup_answer where
  "port_taken = good_start\<lparr>su_receiver_listen := Some (Msg ''bind: address already in use'')\<rparr>"


end
