(* ===== verification/RouterLife.thy ===== *)
theory RouterLife
  imports SinkRegistry
begin

text \<open>
  The life of the sink router (the rest of \<open>internal/sink/router.go\<close>): running it, closing it once with the
  consumers of every sink, what it reports, and closing sinks (\<open>registry.go\<close>). Watermill's router is not part
  of the repository: its answers are arguments.
\<close>

section \<open>Run and Close\<close>

text \<open>\<open>sr_closed\<close> is the result of the one \<open>Close\<close> that ran; \<open>sr_unsubscribed\<close> lists the consumers closed.\<close>

record sink_router =
  sr_handlers :: "(instance_of \<times> bound \<times> handler) list"
  sr_closed :: "goerr option option"
  sr_unsubscribed :: "string list"

definition router_run :: "goerr option \<Rightarrow> goerr option" where
  "router_run ans = map_option (\<lambda>e. Wrap ''sink: router'' [e]) ans"

definition close_subscribers :: "(string \<Rightarrow> goerr option) \<Rightarrow> bound list \<Rightarrow> goerr option \<times> string list" where
  "close_subscribers sub_close bs =
     (errors_join (map (\<lambda>b. map_option (\<lambda>e. Wrap ''close consumer'' [e]) (sub_close (bd_consumer b))) bs), map bd_consumer bs)"

definition sink_router_close ::
  "bool \<Rightarrow> goerr option \<Rightarrow> (string \<Rightarrow> goerr option) \<Rightarrow> sink_router \<Rightarrow> goerr option \<times> sink_router" where
  "sink_router_close running wm_close sub_close r = (case sr_closed r of
     Some res \<Rightarrow> (res, r)
   | None \<Rightarrow>
       let (sub_err, cs) = close_subscribers sub_close (map (\<lambda>(i, b, h). b) (sr_handlers r));
           res = errors_join [if running then map_option (\<lambda>e. Wrap ''sink: close router'' [e]) wm_close else None, sub_err]
       in (res, r\<lparr>sr_closed := Some res, sr_unsubscribed := sr_unsubscribed r @ cs\<rparr>))"

definition router_consumers :: "sink_router \<Rightarrow> string list" where
  "router_consumers r = map (\<lambda>(i, b, h). bd_consumer b) (sr_handlers r)"

text \<open>\<open>closeAll\<close> over what each sink's \<open>Close\<close> answers, with the sinks closed.\<close>

definition close_all :: "(built_sink \<Rightarrow> goerr option) \<Rightarrow> instance_of list \<Rightarrow> goerr option \<times> built_sink list" where
  "close_all answer insts =
     (errors_join (map (\<lambda>i. map_option (\<lambda>e. Wrap ''close sink'' [e]) (answer (in_sink i))) insts), map in_sink insts)"

section \<open>Status\<close>

record sink_status =
  ks_name :: string
  ks_class :: int
  ks_driver :: string
  ks_consumer :: string
  ks_requested :: int
  ks_effective :: int
  ks_warnings :: "warning list"
  ks_last_success :: "gtime option"
  ks_stalled :: "(string \<times> stalled_info) list"

definition handler_status :: "instance_of \<Rightarrow> bound \<Rightarrow> handler \<Rightarrow> sink_status" where
  "handler_status i b h = \<lparr>ks_name = bs_name (in_sink i), ks_class = bs_class (in_sink i), ks_driver = in_driver i,
     ks_consumer = bd_consumer b, ks_requested = in_start_from i,
     ks_effective = bd_effective b, ks_warnings = bd_warnings b,
     ks_last_success = (if h_last_success h = 0 then None else Some (h_last_success h)),
     ks_stalled = stalled_list (h_stalled h)\<rparr>"

definition router_status :: "sink_router \<Rightarrow> sink_status list" where
  "router_status r = map (\<lambda>(i, b, h). handler_status i b h) (sr_handlers r)"

text \<open>The metrics of a sink exist from the start, so that a series that is missing is never a success.\<close>

definition init_metrics :: "string \<Rightarrow> string \<Rightarrow> (string \<times> string \<times> string) list" where
  "init_metrics name class = map (\<lambda>res. (name, class, res)) [sink_ok, sink_error, sink_permanent, sink_skipped]"

definition warning_level :: "warning \<Rightarrow> string" where
  "warning_level w = (if w_severity w = severity_info then ''INFO'' else ''WARN'')"

definition join_names :: "string list \<Rightarrow> string" where
  "join_names names = (if names = [] then ''none'' else intercalate '', '' names)"

section \<open>Facts\<close>

text \<open>
  However often and from wherever \<open>Close\<close> is called, each consumer is closed once, also when the router never
  ran or its own close fails, and every call reports the result of the first.
\<close>

fun close_calls ::
  "(bool \<times> goerr option \<times> (string \<Rightarrow> goerr option)) list \<Rightarrow> sink_router \<Rightarrow> goerr option list \<times> sink_router" where
  "close_calls [] r = ([], r)"
| "close_calls ((running, wm, sub) # cs) r =
     (let (res, r) = sink_router_close running wm sub r; (rs, r) = close_calls cs r in (res # rs, r))"

lemma closed_stays: "sr_closed r = Some res \<Longrightarrow> close_calls cs r = (replicate (length cs) res, r)"
  by (induction cs) (auto simp: sink_router_close_def)

lemma close_once:
  assumes "sr_closed r = None" and "sr_unsubscribed r = []"
  shows "\<exists>res r'. close_calls ((running, wm, sub) # cs) r = (replicate (Suc (length cs)) res, r') \<and>
    sr_unsubscribed r' = router_consumers r \<and> sr_closed r' = Some res \<and>
    (res = None \<longleftrightarrow> (running \<longrightarrow> wm = None) \<and> (\<forall>c \<in> set (router_consumers r). sub c = None))"
proof -
  obtain res r' where c: "sink_router_close running wm sub r = (res, r')" by fastforce
  then have "sr_closed r' = Some res" "sr_unsubscribed r' = router_consumers r"
    "res = None \<longleftrightarrow> (running \<longrightarrow> wm = None) \<and> (\<forall>c \<in> set (router_consumers r). sub c = None)"
    using assms by (auto simp: sink_router_close_def close_subscribers_def router_consumers_def Let_def)
  with c closed_stays [of r' res cs] show ?thesis by simp
qed

lemma close_all_closes_each:
  "snd (close_all answer insts) = map in_sink insts \<and>
   (fst (close_all answer insts) = None \<longleftrightarrow> (\<forall>i \<in> set insts. answer (in_sink i) = None))"
  by (auto simp: close_all_def)

text \<open>The status shows every stalled message of a sink, oldest first.\<close>

lemma insert_entry_set: "set (insert_entry x xs) = insert x (set xs)"
  by (induction xs) auto

lemma status_stalled: "set (ks_stalled (handler_status i b h)) = set (ss_entries (h_stalled h))"
proof -
  have "set (foldr insert_entry xs []) = set xs" for xs by (induction xs) (auto simp: insert_entry_set)
  then show ?thesis by (simp add: handler_status_def stalled_list_def)
qed

end
