(* ===== verification/Lag.thy ===== *)
theory Lag
  imports NatsJs
begin

text \<open>
  The lag poller (\<open>internal/metrics/lag.go\<close>): it samples the backlog of every registered consumer into a gauge
  per consumer. A sample takes effect at once when it takes the lock, so a run is any sequence of
  registrations, removals and finished samples, whichever goroutines they come from.
\<close>

section \<open>The poller\<close>

datatype lag_log = LagFailedWarn string | LagFailedDebug string | LagRecovered string int | LagUnsupported

text \<open>\<open>lp_consumers\<close> says whether the last sample of a consumer failed; \<open>lp_gauges\<close> are the series exported.\<close>

record lag_poller =
  lp_reporter :: bool
  lp_interval :: duration
  lp_timeout :: duration
  lp_consumers :: "(string, bool) amap"
  lp_gauges :: "(string, int) amap"
  lp_log :: "lag_log list"

text \<open>The bus is its capabilities and whether its type has the method \<open>Lag\<close>, if there is one.\<close>

definition new_lag_poller :: "(capabilities \<times> bool) option \<Rightarrow> duration \<Rightarrow> lag_poller" where
  "new_lag_poller b interval =
     \<lparr>lp_reporter = (case b of None \<Rightarrow> False | Some (caps, has_lag) \<Rightarrow> c_reports_lag caps \<and> has_lag),
      lp_interval = interval, lp_timeout = interval, lp_consumers = [], lp_gauges = [], lp_log = []\<rparr>"

definition lag_supported :: "lag_poller \<Rightarrow> bool" where "lag_supported p = lp_reporter p"

definition lag_register :: "string \<Rightarrow> lag_poller \<Rightarrow> lag_poller" where
  "lag_register c p = (if map_of (lp_consumers p) c = None
     then p\<lparr>lp_consumers := AList.update c False (lp_consumers p)\<rparr> else p)"

definition lag_unregister :: "string \<Rightarrow> lag_poller \<Rightarrow> lag_poller" where
  "lag_unregister c p =
     p\<lparr>lp_consumers := AList.delete c (lp_consumers p), lp_gauges := AList.delete c (lp_gauges p)\<rparr>"

definition lag_registered :: "lag_poller \<Rightarrow> string list" where
  "lag_registered p = sort_strings (map fst (lp_consumers p))"

text \<open>\<open>ended\<close> says whether the caller's context had ended when the answer came.\<close>

definition lag_sample :: "string \<Rightarrow> goerr + int \<Rightarrow> bool \<Rightarrow> lag_poller \<Rightarrow> lag_poller" where
  "lag_sample c ans ended p = (case map_of (lp_consumers p) c of
     None \<Rightarrow> p
   | Some was_failing \<Rightarrow>
       (case ans of
          Inl e \<Rightarrow> if ended then p
            else p\<lparr>lp_consumers := AList.update c True (lp_consumers p),
                   lp_log := lp_log p @ [if was_failing then LagFailedDebug c else LagFailedWarn c]\<rparr>
        | Inr lag \<Rightarrow>
            p\<lparr>lp_log := lp_log p @ (if was_failing then [LagRecovered c lag] else []),
              lp_consumers := AList.update c False (lp_consumers p),
              lp_gauges := AList.update c lag (lp_gauges p)\<rparr>))"

text \<open>
  One \<open>Poll\<close>: for each name of the snapshot, whether the context had ended before the sample, the answer, and
  whether it had ended after it.
\<close>

type_synonym lag_answers = "string \<Rightarrow> bool \<times> (goerr + int) \<times> bool"

fun lag_poll_names :: "lag_answers \<Rightarrow> string list \<Rightarrow> lag_poller \<Rightarrow> lag_poller" where
  "lag_poll_names ans [] p = p"
| "lag_poll_names ans (c # cs) p = (case ans c of (ended, r, ended') \<Rightarrow>
     if ended then p else lag_poll_names ans cs (lag_sample c r ended' p))"

definition lag_poll :: "lag_answers \<Rightarrow> lag_poller \<Rightarrow> lag_poller" where
  "lag_poll ans p = (if \<not> lp_reporter p then p else lag_poll_names ans (lag_registered p) p)"

text \<open>\<open>Run\<close> over the ticks until the context ends; it never reports an error.\<close>

definition lag_run :: "lag_answers \<Rightarrow> lag_answers list \<Rightarrow> lag_poller \<Rightarrow> goerr option \<times> lag_poller" where
  "lag_run first ticks p = (if \<not> lp_reporter p then (None, p\<lparr>lp_log := lp_log p @ [LagUnsupported]\<rparr>)
     else (None, foldl (\<lambda>p ans. lag_poll ans p) (lag_poll first p) ticks))"

section \<open>Runs\<close>

datatype lag_event = Registered string | Unregistered string | Sampled string "goerr + int" bool

fun lag_step :: "lag_poller \<Rightarrow> lag_event \<Rightarrow> lag_poller" where
  "lag_step p (Registered c) = lag_register c p"
| "lag_step p (Unregistered c) = lag_unregister c p"
| "lag_step p (Sampled c ans ended) = lag_sample c ans ended p"

definition lag_events :: "lag_poller \<Rightarrow> lag_event list \<Rightarrow> lag_poller" where
  "lag_events p es = foldl lag_step p es"

lemma lag_events_simps [simp]:
  "lag_events p [] = p" "lag_events p (es @ [e]) = lag_step (lag_events p es) e"
  by (simp_all add: lag_events_def)

text \<open>A poll is a run of samples, one for each consumer until the context ends.\<close>

fun poll_samples :: "lag_answers \<Rightarrow> string list \<Rightarrow> lag_event list" where
  "poll_samples ans [] = []"
| "poll_samples ans (c # cs) = (case ans c of (ended, r, ended') \<Rightarrow>
     if ended then [] else Sampled c r ended' # poll_samples ans cs)"

lemma lag_poll_run: "lp_reporter p \<Longrightarrow> lag_poll ans p = lag_events p (poll_samples ans (lag_registered p))"
proof -
  have "lag_poll_names ans cs p = lag_events p (poll_samples ans cs)" for cs
    by (induction cs arbitrary: p) (auto simp: lag_events_def split: prod.splits)
  then show "lp_reporter p \<Longrightarrow> ?thesis" by (simp add: lag_poll_def)
qed

section \<open>One consumer\<close>

text \<open>Some event of a run satisfied \<open>P\<close>, over the events before it, and no later one satisfied \<open>Q\<close>.\<close>

definition since :: "('a list \<Rightarrow> 'a \<Rightarrow> bool) \<Rightarrow> ('a \<Rightarrow> bool) \<Rightarrow> 'a list \<Rightarrow> bool" where
  "since P Q es \<longleftrightarrow> (\<exists>pre x post. es = pre @ [x] @ post \<and> P pre x \<and> (\<forall>y \<in> set post. \<not> Q y))"

lemma since_Nil [simp]: "\<not> since P Q []"
  by (simp add: since_def)

lemma since_snoc [simp]: "since P Q (es @ [e]) \<longleftrightarrow> P es e \<or> since P Q es \<and> \<not> Q e"
proof
  assume "since P Q (es @ [e])"
  then obtain pre x post where s: "es @ [e] = pre @ [x] @ post" "P pre x" "\<forall>y \<in> set post. \<not> Q y"
    by (auto simp: since_def)
  then show "P es e \<or> since P Q es \<and> \<not> Q e"
    by (cases post rule: rev_cases) (auto simp: since_def)
next
  assume "P es e \<or> since P Q es \<and> \<not> Q e"
  then show "since P Q (es @ [e])"
  proof
    assume "P es e"
    then show ?thesis unfolding since_def by (intro exI [of _ es] exI [of _ e] exI [of _ "[]"]) simp
  next
    assume "since P Q es \<and> \<not> Q e"
    then obtain pre x post where "es = pre @ [x] @ post" "P pre x" "\<forall>y \<in> set post. \<not> Q y" "\<not> Q e"
      by (auto simp: since_def)
    then show ?thesis
      unfolding since_def by (intro exI [of _ pre] exI [of _ x] exI [of _ "post @ [e]"]) auto
  qed
qed

definition taken_out :: "string \<Rightarrow> lag_event \<Rightarrow> bool" where "taken_out c e \<longleftrightarrow> e = Unregistered c"

definition sampled_ok :: "string \<Rightarrow> lag_event \<Rightarrow> bool" where
  "sampled_ok c e \<longleftrightarrow> (\<exists>v ended. e = Sampled c (Inr v) ended)"

definition sample_failed :: "string \<Rightarrow> lag_event \<Rightarrow> bool" where
  "sample_failed c e \<longleftrightarrow> (\<exists>x. e = Sampled c (Inl x) False)"

text \<open>A consumer is registered; its last good sample while registered was \<open>v\<close>; its samples fail since then.\<close>

definition is_registered :: "string \<Rightarrow> lag_event list \<Rightarrow> bool" where
  "is_registered c = since (\<lambda>pre e. e = Registered c) (taken_out c)"

definition last_sample :: "string \<Rightarrow> int \<Rightarrow> lag_event list \<Rightarrow> bool" where
  "last_sample c v = since (\<lambda>pre e. is_registered c pre \<and> (\<exists>ended. e = Sampled c (Inr v) ended))
     (\<lambda>e. taken_out c e \<or> sampled_ok c e)"

definition in_streak :: "string \<Rightarrow> lag_event list \<Rightarrow> bool" where
  "in_streak c = since (\<lambda>pre e. is_registered c pre \<and> sample_failed c e) (\<lambda>e. taken_out c e \<or> sampled_ok c e)"

definition streaks :: "string \<Rightarrow> lag_event list \<Rightarrow> nat" where
  "streaks c es = length (filter (\<lambda>i. sample_failed c (es ! i) \<and> is_registered c (take i es) \<and> \<not> in_streak c (take i es))
     [0..<length es])"

lemma streaks_snoc:
  "streaks c [] = 0"
  "streaks c (es @ [e]) = streaks c es + (if sample_failed c e \<and> is_registered c es \<and> \<not> in_streak c es then 1 else 0)"
proof -
  have "filter (\<lambda>i. sample_failed c ((es @ [e]) ! i) \<and> is_registered c (take i (es @ [e])) \<and>
        \<not> in_streak c (take i (es @ [e]))) [0..<length es] =
      filter (\<lambda>i. sample_failed c (es ! i) \<and> is_registered c (take i es) \<and> \<not> in_streak c (take i es)) [0..<length es]"
    by (rule filter_cong) (auto simp: nth_append)
  then show "streaks c (es @ [e]) = streaks c es + (if sample_failed c e \<and> is_registered c es \<and> \<not> in_streak c es then 1 else 0)"
    by (simp add: streaks_def)
qed (simp add: streaks_def)

lemmas lag_trace_defs = is_registered_def last_sample_def in_streak_def taken_out_def sampled_ok_def sample_failed_def
lemmas lag_op_defs = lag_register_def lag_unregister_def lag_sample_def

lemma lag_registered_iff: "map_of (lp_consumers (lag_events (new_lag_poller b i) es)) c \<noteq> None \<longleftrightarrow> is_registered c es"
proof (induction es rule: rev_induct)
  case (snoc e es)
  then show ?case
    by (cases e) (auto simp: lag_op_defs lag_trace_defs split: option.splits sum.splits)
qed (simp add: new_lag_poller_def lag_trace_defs)

lemma lag_failing_iff: "map_of (lp_consumers (lag_events (new_lag_poller b i) es)) c = Some True \<longleftrightarrow> in_streak c es"
proof (induction es rule: rev_induct)
  case (snoc e es)
  then show ?case using lag_registered_iff [of b i es c]
    by (cases e) (auto simp: lag_op_defs in_streak_def taken_out_def sampled_ok_def sample_failed_def
        split: option.splits sum.splits)
qed (simp add: new_lag_poller_def lag_trace_defs)

lemma last_sample_registered: "last_sample c v es \<Longrightarrow> is_registered c es"
  by (induction es rule: rev_induct) (auto simp: lag_trace_defs)

lemma lag_gauge_iff: "map_of (lp_gauges (lag_events (new_lag_poller b i) es)) c = Some v \<longleftrightarrow> last_sample c v es"
proof (induction es rule: rev_induct)
  case (snoc e es)
  then show ?case using lag_registered_iff [of b i es c] last_sample_registered [of c v es]
    by (cases e) (auto simp: lag_op_defs last_sample_def taken_out_def sampled_ok_def
        split: option.splits sum.splits)
qed (simp add: new_lag_poller_def lag_trace_defs)

lemma lag_warnings:
  "length (filter (\<lambda>l. l = LagFailedWarn c) (lp_log (lag_events (new_lag_poller b i) es))) = streaks c es"
proof (induction es rule: rev_induct)
  case (snoc e es)
  then show ?case using lag_registered_iff [of b i es c] lag_failing_iff [of b i es c]
    by (cases e) (auto simp: lag_op_defs streaks_snoc sample_failed_def split: option.splits sum.splits)
qed (simp add: new_lag_poller_def streaks_snoc)

section \<open>Properties\<close>

text \<open>
  C36: whatever registrations, removals and samples interleave, the exported series of a consumer is its last
  good sample while it was registered: there is none before the first, a failed sample keeps it, a sample
  that ends after the consumer was removed does not bring it back, and only registered consumers have one.
  Each streak of failures is logged once at warn. A poll samples every registered consumer once, in the
  order of the names, unless the context ends.
\<close>

theorem lag_gauges_follow_samples:
  "let p = lag_events (new_lag_poller b i) es in
     (map_of (lp_gauges p) c = Some v \<longleftrightarrow> last_sample c v es) \<and>
     (map_of (lp_gauges p) c \<noteq> None \<longrightarrow> is_registered c es) \<and>
     length (filter (\<lambda>l. l = LagFailedWarn c) (lp_log p)) = streaks c es \<and>
     (lag_supported p \<and> list_all (\<lambda>c. \<not> fst (ans c)) (lag_registered p) \<longrightarrow>
        lag_poll ans p = lag_events p (map (\<lambda>c. Sampled c (fst (snd (ans c))) (snd (snd (ans c)))) (lag_registered p)))"
proof -
  let ?p = "lag_events (new_lag_poller b i) es"
  have "list_all (\<lambda>c. \<not> fst (ans c)) cs \<Longrightarrow>
      poll_samples ans cs = map (\<lambda>c. Sampled c (fst (snd (ans c))) (snd (snd (ans c)))) cs" for cs
    by (induction cs) (auto split: prod.splits)
  then show ?thesis
    using lag_gauge_iff [of b i es c] last_sample_registered [of c _ es] lag_warnings [of c b i es] lag_poll_run [of ?p ans]
    by (auto simp: Let_def lag_supported_def)
qed

theorem lag_gauges_follow_samples_witness:
  "map_of (lp_gauges (lag_events (new_lag_poller None second)
      [Registered ''a'', Sampled ''a'' (Inr 7) False, Sampled ''a'' (Inl (Msg ''down'')) False])) ''a'' = Some 7 \<and>
   last_sample ''a'' 7 [Registered ''a'', Sampled ''a'' (Inr 7) False, Sampled ''a'' (Inl (Msg ''down'')) False]"
proof -
  let ?es = "[Registered ''a'', Sampled ''a'' (Inr 7) False, Sampled ''a'' (Inl (Msg ''down'')) False]"
  have g: "map_of (lp_gauges (lag_events (new_lag_poller None second) ?es)) ''a'' = Some 7"
    by (simp add: lag_events_def lag_op_defs new_lag_poller_def)
  with lag_gauges_follow_samples [of None second ?es "''a''" 7 "\<lambda>c. (False, Inr 0, False)"] show ?thesis
    by (simp add: Let_def)
qed

end
