(* ===== verification/Command.thy ===== *)
theory Command
  imports Serve RouterLife Lag
begin

text \<open>
  The operator's side of the service: the endpoints and the server of \<open>internal/admin/server.go\<close>, readiness
  (\<open>serve.go\<close>), and the command line with its exit codes (\<open>main.go\<close>). Matching a request to a pattern is
  \<open>net/http\<close>'s, parsing flags is \<open>flag\<close>'s.
\<close>

section \<open>Readiness\<close>

text \<open>\<open>connected\<close> is the answer of a bus that reports its connection, if it does.\<close>

definition readiness :: "bool \<Rightarrow> bool option \<Rightarrow> goerr option" where
  "readiness closing connected = (if closing then Some (Msg ''shutting down'')
     else if connected = Some False then Some (Msg ''bus disconnected'') else None)"

text \<open>The value of \<open>antwatcher_bus_connected\<close> after the ticks of \<open>sampleBusConnected\<close>, which leaves a bus without a report alone.\<close>

definition bus_connected_samples :: "bool list option \<Rightarrow> int list" where
  "bus_connected_samples answers = (case answers of None \<Rightarrow> [] | Some bs \<Rightarrow> map (\<lambda>b. if b then 1 else 0) bs)"

section \<open>The admin endpoints\<close>

datatype admin_route = GetMetrics | GetHealthz | GetReadyz | GetStatus

datatype admin_body = MetricsBody | HealthOk | Ready | NotReady string | StatusBody string | EmptyStatus | RenderError

record admin_options =
  ao_metrics :: bool
  ao_readiness :: "goerr option option"
  ao_status :: "(goerr + string) option"
  ao_shutdown_timeout :: duration

text \<open>
  \<open>ao_readiness\<close> and \<open>ao_status\<close> are what the callbacks answer, \<open>None\<close> without a callback; a status is its JSON or
  the error of rendering it. \<open>None\<close> is a route that is not mounted.
\<close>

definition admin_handle :: "admin_options \<Rightarrow> admin_route \<Rightarrow> (int \<times> admin_body) option" where
  "admin_handle o' r = (case r of
     GetMetrics \<Rightarrow> if ao_metrics o' then Some (200, MetricsBody) else None
   | GetHealthz \<Rightarrow> Some (200, HealthOk)
   | GetReadyz \<Rightarrow> (case ao_readiness o' of
         Some (Some e) \<Rightarrow> Some (503, NotReady (err_text e))
       | _ \<Rightarrow> Some (200, Ready))
   | GetStatus \<Rightarrow> (case ao_status o' of
         None \<Rightarrow> Some (200, EmptyStatus)
       | Some (Inl e) \<Rightarrow> Some (500, RenderError)
       | Some (Inr s) \<Rightarrow> Some (200, StatusBody s)))"

record admin_server =
  as_listener :: listener
  as_shutdown_timeout :: duration

definition new_admin :: "admin_options \<Rightarrow> admin_server" where
  "new_admin o' = \<lparr>as_listener = Unbound,
     as_shutdown_timeout = (if ao_shutdown_timeout o' \<le> 0 then 5 * second else ao_shutdown_timeout o')\<rparr>"

definition admin_listen :: "goerr option \<Rightarrow> admin_server \<Rightarrow> goerr option \<times> admin_server" where
  "admin_listen ans s = (if as_listener s \<noteq> Unbound then (None, s)
     else case ans of
         Some e \<Rightarrow> (Some (Wrap ''admin: listen'' [e]), s)
       | None \<Rightarrow> (None, s\<lparr>as_listener := Bound\<rparr>))"

definition admin_close :: "goerr option \<Rightarrow> admin_server \<Rightarrow> goerr option \<times> admin_server" where
  "admin_close ans s = (if as_listener s = Unbound then (None, s) else (ans, s\<lparr>as_listener := Released\<rparr>))"

text \<open>As the webhook server's \<open>Run\<close>.\<close>

definition admin_run ::
  "goerr option \<Rightarrow> goerr option + goerr option \<Rightarrow> admin_server \<Rightarrow> goerr option \<times> duration option \<times> admin_server" where
  "admin_run listen_ans ended s = (case admin_listen listen_ans s of
     (Some e, s) \<Rightarrow> (Some e, None, s)
   | (None, s) \<Rightarrow>
       (case ended of
          Inl None \<Rightarrow> (None, None, s\<lparr>as_listener := Released\<rparr>)
        | Inl (Some e) \<Rightarrow> (Some (Wrap ''admin: serve'' [e]), None, s\<lparr>as_listener := Released\<rparr>)
        | Inr r \<Rightarrow> (map_option (\<lambda>e. Wrap ''admin: shutdown'' [e]) r, Some (as_shutdown_timeout s),
            s\<lparr>as_listener := Released\<rparr>)))"

text \<open>The servers hold no socket after \<open>Run\<close>, whatever ended it, unless it could not bind one.\<close>

lemma servers_release:
  "admin_run la ended s = (r, t, s') \<Longrightarrow> as_listener s' = Bound \<Longrightarrow> False"
  "server_run la ended h = (r, t, h') \<Longrightarrow> hs_listener h' = Bound \<Longrightarrow> False"
  by (auto simp: admin_run_def admin_listen_def server_run_def server_listen_def
      split: if_splits option.splits sum.splits)

text \<open>The service is ready exactly while it is not shutting down and its bus, if it tells, is connected.\<close>

lemma readyz_exact:
  assumes "ao_readiness o' = Some (readiness closing connected)"
  shows "(\<exists>b. admin_handle o' GetReadyz = Some (200, b)) \<longleftrightarrow> \<not> closing \<and> connected \<noteq> Some False"
  by (simp add: admin_handle_def assms readiness_def)

section \<open>The command line\<close>

text \<open>\<open>slog.Level.UnmarshalText\<close>: a name, without regard to case, and an offset.\<close>

definition level_ok :: "string \<Rightarrow> bool" where
  "level_ok s = (let name = takeWhile (\<lambda>c. c \<noteq> CHR ''+'' \<and> c \<noteq> CHR ''-'') s; rest = drop (length name) s in
     (rest = [] \<or> parse_int64 rest \<noteq> None) \<and> to_lower name \<in> set [''debug'', ''info'', ''warn'', ''error''])"

definition new_logger :: "string \<Rightarrow> string \<Rightarrow> goerr option" where
  "new_logger level format = (if \<not> level_ok level then Some (Msg ''invalid -log-level'')
     else if format = ''json'' \<or> format = ''text'' then None else Some (Msg ''invalid -log-format''))"

record serve_flags =
  fl_check :: bool
  fl_log_level :: string
  fl_log_format :: string
  fl_rest :: "string list"

text \<open>What \<open>flag\<close> makes of the arguments: a request for help, an error or the flags.\<close>

datatype flag_answer = FlagHelp | FlagError | FlagsParsed serve_flags

text \<open>
  The answers of the world to one run of the command, after \<open>loadConfig\<close>: rendering the configuration, the
  startup of the components and their end.
\<close>

record serve_answer =
  sa_render :: "goerr option"
  sa_start :: startup_answer
  sa_run :: run_answer

text \<open>The exit code, and what was acquired, started, stopped and released on the way.\<close>

definition start_and_run :: "config \<Rightarrow> serve_answer \<Rightarrow> int \<times> act list" where
  "start_and_run c ans = (case new_service c (sa_start ans) of
     (Inl e, acts) \<Rightarrow> (1, acts)
   | (Inr s, acts) \<Rightarrow>
       (case service_run (sa_run ans) s of
          (Some e, acts') \<Rightarrow> (1, acts @ acts')
        | (None, acts') \<Rightarrow> (0, acts @ acts')))"

definition run_serve :: "flag_answer \<Rightarrow> goerr + config \<times> 'x redacted_config \<Rightarrow> serve_answer \<Rightarrow> int \<times> act list" where
  "run_serve flags loaded ans = (case flags of
     FlagHelp \<Rightarrow> (0, [])
   | FlagError \<Rightarrow> (2, [])
   | FlagsParsed f \<Rightarrow>
       if fl_rest f \<noteq> [] then (2, [])
       else if new_logger (fl_log_level f) (fl_log_format f) \<noteq> None then (2, [])
       else (case loaded of
           Inl e \<Rightarrow> (1, [])
         | Inr (c, r) \<Rightarrow>
             if fl_check f then (if sa_render ans \<noteq> None then 1 else 0, [])
             else start_and_run c ans))"

definition run_command ::
  "string list \<Rightarrow> (string list \<Rightarrow> flag_answer) \<Rightarrow> goerr + config \<times> 'x redacted_config \<Rightarrow> serve_answer \<Rightarrow> int \<times> act list" where
  "run_command args parse loaded ans = (case args of
     [] \<Rightarrow> (2, [])
   | cmd # rest \<Rightarrow>
       if cmd = ''serve'' then run_serve (parse rest) loaded ans
       else if cmd = ''version'' then (0, [])
       else if cmd \<in> set [''help'', ''-h'', ''--help''] then (0, [])
       else (2, []))"

section \<open>Properties\<close>

text \<open>The run of the service behind \<open>serve\<close> without \<open>-check\<close>.\<close>

definition serves :: "string list \<Rightarrow> (string list \<Rightarrow> flag_answer) \<Rightarrow> bool" where
  "serves args parse \<longleftrightarrow> (case args of
     cmd # rest \<Rightarrow> cmd = ''serve'' \<and>
       (case parse rest of FlagsParsed f \<Rightarrow> fl_rest f = [] \<and> new_logger (fl_log_level f) (fl_log_format f) = None \<and> \<not> fl_check f
        | _ \<Rightarrow> False)
   | [] \<Rightarrow> False)"

text \<open>
  C35: the command tells the truth by its exit code. It exits with 0, 1 or 2; whatever it does ends with
  everything released; only \<open>serve\<close> without \<open>-check\<close> and with valid flags touches anything, and then it exits with
  0 exactly when the configuration loaded, startup succeeded, a signal ended the run and every component
  stopped without an error, and otherwise with 1.
\<close>

theorem exit_code_exact:
  assumes "load_config ip va dec ds file = loaded" and "run_command args parse loaded ans = (code, acts)"
  shows "code \<in> {0, 1, 2} \<and> lawful acts [] [] = Some ([], []) \<and>
    (\<not> serves args parse \<longrightarrow> acts = []) \<and>
    (serves args parse \<longrightarrow> code \<noteq> 2 \<and>
      (code = 0 \<longleftrightarrow> (\<exists>c r s acts'. file = Inr c \<and> config_validate ip c = None \<and> validate_drivers va c ds = None \<and>
         redacted dec c ds = Inr r \<and> new_service c (sa_start ans) = (Inr s, acts') \<and>
         ra_cause (sa_run ans) = None \<and> (\<forall>e \<in> set (run_errors (sa_run ans) s). e = None))))"
proof (cases "serves args parse")
  case False
  then have "acts = [] \<and> code \<in> {0, 1, 2}"
    using assms(2)
    by (auto simp: serves_def run_command_def run_serve_def split: list.splits if_splits flag_answer.splits sum.splits)
  with False show ?thesis by simp
next
  case True
  have served: "run_command args parse loaded ans = (case loaded of Inl e \<Rightarrow> (1, []) | Inr (c, r) \<Rightarrow> start_and_run c ans)"
    using True by (cases loaded)
      (auto simp: serves_def run_command_def run_serve_def split: list.splits flag_answer.splits)
  show ?thesis
  proof (cases loaded)
    case (Inl e)
    then show ?thesis using assms served True by (auto simp: load_config_def split: sum.splits option.splits)
  next
    case (Inr cr)
    obtain c r where cr: "cr = (c, r)" by fastforce
    with Inr assms(1) have ok: "file = Inr c" "config_validate ip c = None" "validate_drivers va c ds = None"
      "redacted dec c ds = Inr r" by (auto simp: load_config_def split: sum.splits option.splits)
    obtain res acts1 where n: "new_service c (sa_start ans) = (res, acts1)" by fastforce
    show ?thesis
    proof (cases res)
      case (Inl e)
      with served assms(2) \<open>loaded = Inr cr\<close> cr n have "code = 1" "acts = acts1" by (auto simp: start_and_run_def)
      with new_service_lawful [OF n] Inl True ok n show ?thesis by simp
    next
      case (Inr s)
      obtain out acts2 where ro: "service_run (sa_run ans) s = (out, acts2)" by fastforce
      have "code = (if out = None then 0 else 1)" "acts = acts1 @ acts2"
        using served assms(2) \<open>loaded = Inr cr\<close> cr n Inr ro by (auto simp: start_and_run_def split: option.splits)
      moreover have "lawful (acts1 @ acts2) [] [] = Some ([], [])"
        using new_service_lawful [OF n] Inr service_run_lawful [of "sa_run ans" s] ro by (simp add: lawful_append)
      moreover have "out = None \<longleftrightarrow> ra_cause (sa_run ans) = None \<and> (\<forall>e \<in> set (run_errors (sa_run ans) s). e = None)"
        using service_run_clean [of "sa_run ans" s] ro by simp
      ultimately show ?thesis using True ok n Inr by simp
    qed
  qed
qed

definition served_config :: config where
  "served_config = default_config\<lparr>cf_server := (cf_server default_config)\<lparr>sv_webhook_secret := ''s''\<rparr>\<rparr>"

definition plain_flags :: "string list \<Rightarrow> flag_answer" where
  "plain_flags args = FlagsParsed \<lparr>fl_check = False, fl_log_level = ''info'', fl_log_format = ''json'', fl_rest = args\<rparr>"

definition clean_end :: run_answer where
  "clean_end = \<lparr>ra_running = True, ra_cause = None, ra_receiver = None, ra_router_close = None, ra_router = None,
     ra_recovery = None, ra_lag = None, ra_health = None, ra_sinks = None, ra_bus = None, ra_admin = None\<rparr>"

definition sample_load :: "goerr + config \<times> unit redacted_config" where
  "sample_load = load_config (\<lambda>h. False) \<lparr>va_router = \<lambda>x. None, va_ingress = \<lambda>x. None\<rparr> (\<lambda>n. Inr VNil)
     \<lparr>ds_bus = [], ds_sinks = []\<rparr> (Inr served_config)"

definition sample_run :: "int \<times> act list" where
  "sample_run = run_command [''serve''] plain_flags sample_load \<lparr>sa_render = None, sa_start = good_start, sa_run = clean_end\<rparr>"

theorem exit_code_exact_witness:
  "fst sample_run = 0 \<and> Release RBus \<in> set (snd sample_run) \<and> lawful (snd sample_run) [] [] = Some ([], [])"
proof -
  obtain code acts where r: "sample_run = (code, acts)" by fastforce
  have "fst sample_run = 0" "list_ex (\<lambda>a. a = Release RBus) (snd sample_run)" by code_simp+
  moreover have "lawful acts [] [] = Some ([], [])"
    using exit_code_exact [OF sample_load_def [symmetric] r [unfolded sample_run_def]] by blast
  ultimately show ?thesis by (simp add: r list_ex_iff)
qed

end
