(* ===== verification/NatsLife.thy ===== *)
theory NatsLife
  imports NatsJs
begin

text \<open>
  The life of a JetStream bus: \<open>Open\<close>, \<open>New\<close>, \<open>connect\<close> and its credentials (\<open>driver.go\<close>), and of a subscriber:
  \<open>Subscribe\<close>, the fetch loop and \<open>Close\<close> (\<open>subscriber.go\<close>). The NATS client's answers are arguments; the state
  is what the bus holds: a server with its store directory, and a connection.
\<close>

section \<open>Credentials\<close>

datatype nats_login = CredentialsFile string | JwtAndSeed string string

text \<open>A decorated key pair and the seed in it, as the \<open>nkeys\<close> package finds them.\<close>

definition parse_seed :: "goerr + (goerr + string) \<Rightarrow> goerr + string" where
  "parse_seed nkey = (case nkey of Inl e \<Rightarrow> Inl e | Inr seed \<Rightarrow> seed)"

definition credentials_option :: "(string \<Rightarrow> goerr + string) \<Rightarrow> (string \<Rightarrow> goerr + (goerr + string)) \<Rightarrow> string \<Rightarrow> goerr + nats_login option" where
  "credentials_option parse_jwt parse_nkey creds = (let creds = trim_space creds in
     if creds = [] then Inr None
     else if has_prefix ''-----BEGIN'' creds then
       (case parse_jwt creds of
          Inl e \<Rightarrow> Inl (Wrap ''natsjs: credentials'' [e])
        | Inr jwt \<Rightarrow>
            (case parse_seed (parse_nkey creds) of
               Inl e \<Rightarrow> Inl (Wrap ''natsjs: credentials'' [e])
             | Inr seed \<Rightarrow> Inr (Some (JwtAndSeed jwt seed))))
     else Inr (Some (CredentialsFile creds)))"

section \<open>Opening a bus\<close>

text \<open>The answers to one \<open>New\<close>: the directory, the server, the credentials, the connection and the stream.\<close>

record nats_answers =
  na_mkdir :: "goerr option"
  na_abs :: "goerr + string"
  na_server :: "goerr + nat"
  na_jwt :: "string \<Rightarrow> goerr + string"
  na_nkey :: "string \<Rightarrow> goerr + (goerr + string)"
  na_connect :: "goerr option"
  na_jetstream :: "goerr option"
  na_stream :: stream_lookup
  na_stream_change :: "goerr option"

record nats_life =
  nl_srv :: "nat option"
  nl_conn :: bool
  nl_login :: "nats_login option"

definition nothing_held :: nats_life where "nothing_held = \<lparr>nl_srv = None, nl_conn = False, nl_login = None\<rparr>"

definition stop_server :: "nats_life \<Rightarrow> stores \<Rightarrow> nats_life \<times> stores" where
  "stop_server l st = (case nl_srv l of None \<Rightarrow> (l, st) | Some s \<Rightarrow> (l\<lparr>nl_srv := None\<rparr>, stop_embedded (Some s) st))"

text \<open>The connection itself, once it is known what to connect to.\<close>

definition dial :: "nats_answers \<Rightarrow> nats_life \<Rightarrow> stores \<Rightarrow> goerr option \<times> nats_life \<times> stores" where
  "dial ans l st = (case na_connect ans of
     Some e \<Rightarrow> (Some (Wrap ''natsjs: connect'' [e]), stop_server l st)
   | None \<Rightarrow> (case na_jetstream ans of
         Some e \<Rightarrow> (Some (Wrap ''natsjs: jetstream'' [e]), stop_server l st)
       | None \<Rightarrow> (None, l\<lparr>nl_conn := True\<rparr>, st)))"

definition nats_connect :: "bool \<Rightarrow> nats_config \<Rightarrow> nats_answers \<Rightarrow> stores \<Rightarrow> goerr option \<times> nats_life \<times> stores" where
  "nats_connect in_process cfg ans st = (let l = nothing_held in
     if in_process then dial ans l st
     else if nc_embedded cfg then
       (case start_embedded cfg (na_mkdir ans) (na_abs ans) (na_server ans) st of
          (Inl e, st) \<Rightarrow> (Some e, l, st)
        | (Inr srv, st) \<Rightarrow> dial ans (l\<lparr>nl_srv := Some srv\<rparr>) st)
     else (case credentials_option (na_jwt ans) (na_nkey ans) (nc_credentials cfg) of
         Inl e \<Rightarrow> (Some e, l, st)
       | Inr login \<Rightarrow> dial ans (l\<lparr>nl_login := login\<rparr>) st))"

text \<open>The connection and the server of \<open>Close\<close>; its subscribers are those of \<open>nats_close\<close>.\<close>

definition life_close :: "nats_life \<Rightarrow> stores \<Rightarrow> nats_life \<times> stores" where
  "life_close l st = stop_server (l\<lparr>nl_conn := False\<rparr>) st"

definition nats_new ::
  "bool \<Rightarrow> nats_config \<Rightarrow> string \<Rightarrow> nats_answers \<Rightarrow> stores \<Rightarrow> (goerr + nats_bus) \<times> nats_life \<times> stores" where
  "nats_new in_process cfg topic ans st =
     (if topic = [] then (Inl (Msg ''natsjs: topic is required''), nothing_held, st)
      else case (if in_process then nats_validate_broker cfg else nats_validate cfg) of
        Some e \<Rightarrow> (Inl (Wrap ''natsjs: invalid config'' [e]), nothing_held, st)
      | None \<Rightarrow>
          (case nats_connect in_process cfg ans st of
             (Some e, l, st) \<Rightarrow> (Inl e, l, st)
           | (None, l, st) \<Rightarrow>
               (case fst (ensure_stream cfg topic (na_stream ans) (na_stream_change ans)) of
                  Some e \<Rightarrow> (Inl e, life_close l st)
                | None \<Rightarrow> (Inr \<lparr>nb_cfg = cfg, nb_topic = topic, nb_closed = False, nb_subs = [], nb_acked = []\<rparr>, l, st))))"

text \<open>\<open>Open\<close>: the block decoded over the defaults.\<close>

definition nats_open ::
  "goerr + nats_config \<Rightarrow> string \<Rightarrow> nats_answers \<Rightarrow> stores \<Rightarrow> (goerr + nats_bus) \<times> nats_life \<times> stores" where
  "nats_open described topic ans st = (case described of
     Inl e \<Rightarrow> (Inl e, nothing_held, st)
   | Inr cfg \<Rightarrow> nats_new False cfg topic ans st)"

definition nats_connected :: "nats_life \<Rightarrow> bool \<Rightarrow> bool" where
  "nats_connected l live \<longleftrightarrow> nl_conn l \<and> live"

section \<open>A failed open\<close>

text \<open>A server that was just started is not among the ones that run already.\<close>

definition fresh_server :: "nats_answers \<Rightarrow> stores \<Rightarrow> bool" where
  "fresh_server ans st \<longleftrightarrow> (\<forall>s. na_server ans = Inr s \<longrightarrow> Some s \<notin> snd ` set st)"

lemma stop_started:
  assumes "Some s \<notin> snd ` set st" and "map_of st dir = None"
  shows "map_of (stop_embedded (Some s) (AList.update dir (Some s) st)) = map_of st"
proof -
  have "find (\<lambda>(d, r). r = Some s) (AList.update dir (Some s) st) = Some (dir, Some s)"
    using assms by (induction st) (auto split: if_splits)
  then show ?thesis using assms(2) by (simp add: stop_embedded_def fun_eq_iff)
qed

lemma start_embedded_held:
  assumes "start_embedded cfg mk ab sv st = (r, st')"
  shows "case r of Inl e \<Rightarrow> map_of st' = map_of st
    | Inr s \<Rightarrow> sv = Inr s \<and> (\<exists>dir. ab = Inr dir \<and> map_of st dir = None \<and>
        st' = AList.update dir (Some s) st)"
  using assms
  by (auto simp: start_embedded_def reserve_store_def release_store_def fun_eq_iff
      split: if_splits option.splits sum.splits)

text \<open>
  A bus that cannot be opened leaves no connection, no server and no store directory behind, so the next
  attempt, with a corrected configuration or broker, is not refused; one that opened has a valid
  configuration, a connection, and a running server exactly when it is embedded.
\<close>

lemma nats_new_all_or_nothing:
  assumes "fresh_server ans st" and "nats_new in_process cfg topic ans st = (r, l, st')"
  shows "case r of
      Inl e \<Rightarrow> \<not> nl_conn l \<and> nl_srv l = None \<and> map_of st' = map_of st
    | Inr b \<Rightarrow> nl_conn l \<and> topic \<noteq> [] \<and> (\<not> in_process \<longrightarrow> nats_validate cfg = None) \<and>
        (nl_srv l \<noteq> None \<longleftrightarrow> nc_embedded cfg \<and> \<not> in_process)"
proof (cases "in_process \<or> \<not> nc_embedded cfg")
  case True
  then show ?thesis using assms(2)
    by (auto simp: nats_new_def nats_connect_def dial_def stop_server_def life_close_def nothing_held_def Let_def
        split: if_splits option.splits sum.splits prod.splits)
next
  case False
  obtain r1 st1 where s: "start_embedded cfg (na_mkdir ans) (na_abs ans) (na_server ans) st = (r1, st1)" by fastforce
  note held = start_embedded_held [OF s]
  have restored: "map_of (stop_embedded (Some v) st1) = map_of st" if "r1 = Inr v" for v
    using held that assms(1) by (auto simp: fresh_server_def intro: stop_started)
  show ?thesis using False assms(2) held restored s
    by (cases r1)
      (auto simp: nats_new_def nats_connect_def dial_def stop_server_def life_close_def nothing_held_def Let_def
        split: if_splits option.splits sum.splits prod.splits)
qed

section \<open>Subscribers\<close>

definition fetch_wait :: duration where "fetch_wait = 5 * second"
definition fetch_retry :: duration where "fetch_retry = 1 * second"
definition sub_close_timeout :: duration where "sub_close_timeout = 5 * second"

definition sub_subscribe :: "nats_bus \<Rightarrow> bool \<Rightarrow> string \<Rightarrow> goerr option" where
  "sub_subscribe b closed topic = (if topic \<noteq> nb_topic b then Some (Wrap ''natsjs'' [err_wrong_topic])
     else if closed then Some (Msg ''natsjs: consumer is closed'') else None)"

text \<open>
  The fetch loop over what each fetch answers and whether the subscription has ended by then: the messages
  delivered and the pauses made. The list of answers is as long as the subscription lives.
\<close>

datatype 'm fetched = FetchFailed goerr | Batch "'m list"

fun fetch_loop :: "('m fetched \<times> bool) list \<Rightarrow> 'm list \<times> duration list" where
  "fetch_loop [] = ([], [])"
| "fetch_loop ((FetchFailed e, ended) # fs) =
     (if ended then ([], []) else let (ms, ps) = fetch_loop fs in (ms, fetch_retry # ps))"
| "fetch_loop ((Batch ms, ended) # fs) =
     (if ended then (ms, []) else let (ms', ps) = fetch_loop fs in (ms @ ms', ps))"

text \<open>Failed fetches cost a pause each and no message: everything fetched while it lived is delivered, in order.\<close>

lemma fetch_loop_delivers:
  "list_all (\<lambda>f. \<not> snd f) fs \<Longrightarrow>
     fetch_loop fs = (concat (map (\<lambda>f. case fst f of Batch ms \<Rightarrow> ms | _ \<Rightarrow> []) fs),
       map (\<lambda>f. fetch_retry) (filter (\<lambda>f. case fst f of Batch ms \<Rightarrow> False | _ \<Rightarrow> True) fs))"
  by (induction fs rule: fetch_loop.induct) auto

text \<open>
  \<open>Close\<close> of a subscriber acts once; \<open>drained\<close> says whether the messages in flight were settled in time, and the
  result whether it warned that the broker redelivers them.
\<close>

definition sub_close :: "string \<Rightarrow> bool \<Rightarrow> bool \<Rightarrow> nats_bus \<Rightarrow> bool \<times> nats_bus" where
  "sub_close s closed drained b = (if closed then (False, b) else (\<not> drained, nats_forget s b))"

end
