(* ===== verification/OtlpConfig.thy ===== *)
theory OtlpConfig
  imports OtlpFacts ConfigValidate
begin

text \<open>
  The rest of package \<open>otlp\<close>: the configuration block and the endpoint it names (\<open>config.go\<close>), the construction
  of a client and of its two transports, and the HTTP request of an export (\<open>client.go\<close>). Parsing a URL, reading
  TLS files, the gRPC connection, protobuf and gzip are library calls whose answers are arguments.
\<close>

section \<open>The block\<close>

definition protocol_grpc :: string where "protocol_grpc = ''grpc''"
definition protocol_http :: string where "protocol_http = ''http''"
definition compression_none :: string where "compression_none = ''none''"
definition compression_gzip :: string where "compression_gzip = ''gzip''"

lemmas otlp_names = protocol_grpc_def protocol_http_def compression_none_def compression_gzip_def

definition no_tls :: tls_config where
  "no_tls = \<lparr>tl_ca_file = [], tl_cert_file = [], tl_key_file = [], tl_server_name = []\<rparr>"

definition otlp_default_config :: otlp_config where
  "otlp_default_config = \<lparr>oc_endpoint = [], oc_protocol = protocol_grpc, oc_insecure = False, oc_tls = no_tls,
     oc_headers = [], oc_timeout = 10 * second, oc_compression = compression_none,
     oc_retry = \<lparr>rt_attempts = 2, rt_backoff = 500 * millisecond\<rparr>\<rparr>"

section \<open>The endpoint\<close>

text \<open>What \<open>net/url\<close> finds in a URL.\<close>

record url_parts =
  up_scheme :: string
  up_user :: bool
  up_host :: string
  up_hostname :: string
  up_port :: string
  up_path :: string
  up_query :: string
  up_fragment :: string

record otlp_target =
  tg_host_port :: string
  tg_tls :: bool
  tg_base_path :: string

definition join_host_port :: "string \<Rightarrow> string \<Rightarrow> string" where
  "join_host_port host port = (if CHR '':'' \<in> set host then ''['' @ host @ '']:'' @ port else host @ '':'' @ port)"

definition trim_slash :: "string \<Rightarrow> string" where
  "trim_slash s = (if has_suffix ''/'' s then butlast s else s)"

definition target_of_url :: "bool \<Rightarrow> url_parts \<Rightarrow> goerr + otlp_target" where
  "target_of_url insecure u = (let tls = (up_scheme u = ''https'') in
     if up_scheme u \<noteq> ''http'' \<and> \<not> tls then Inl (Msg ''scheme must be http or https'')
     else if tls \<and> insecure then Inl (Msg ''uses https but insecure is true'')
     else if up_host u = [] then Inl (Msg ''has no host'')
     else if up_user u \<or> up_query u \<noteq> [] \<or> up_fragment u \<noteq> []
     then Inl (Msg ''must not carry credentials, a query, or a fragment'')
     else Inr \<lparr>tg_host_port = (if up_port u = [] then join_host_port (up_hostname u) (if tls then ''443'' else ''80'') else up_host u),
       tg_tls = tls, tg_base_path = trim_slash (up_path u)\<rparr>)"

definition target_of :: "(string \<Rightarrow> goerr + url_parts) \<Rightarrow> otlp_config \<Rightarrow> goerr + otlp_target" where
  "target_of parse c = (let ep = oc_endpoint c in
     if \<not> contains_str ''://'' ep then
       (if contains_any ''/?#'' ep then Inl (Msg ''a path requires a scheme (http:// or https://)'')
        else if split_host_port ep = None then Inl (Msg ''must be host:port or a URL'')
        else Inr \<lparr>tg_host_port = ep, tg_tls = (\<not> oc_insecure c), tg_base_path = []\<rparr>)
     else (case parse ep of Inl e \<Rightarrow> Inl e | Inr u \<Rightarrow> target_of_url (oc_insecure c) u))"

section \<open>Validate\<close>

definition otlp_errors :: "(string \<Rightarrow> goerr + url_parts) \<Rightarrow> otlp_config \<Rightarrow> goerr list" where
  "otlp_errors parse c =
     (if oc_endpoint c = [] then [Msg ''endpoint is required'']
      else case target_of parse c of
          Inl e \<Rightarrow> [Wrap ''endpoint'' [e]]
        | Inr t \<Rightarrow> check (\<not> tg_tls t \<and> oc_tls c \<noteq> no_tls) ''tls settings are set but the endpoint is plaintext'')
     @ check (oc_protocol c \<noteq> protocol_grpc \<and> oc_protocol c \<noteq> protocol_http) ''protocol must be grpc or http''
     @ check (oc_compression c \<noteq> compression_none \<and> oc_compression c \<noteq> compression_gzip) ''compression must be none or gzip''
     @ check (oc_timeout c \<le> 0) ''timeout must be > 0''
     @ check (rt_attempts (oc_retry c) < 0) ''retry.attempts must be >= 0''
     @ check (rt_backoff (oc_retry c) < 0) ''retry.backoff must be >= 0''
     @ check ((tl_cert_file (oc_tls c) = []) \<noteq> (tl_key_file (oc_tls c) = []))
         ''tls.cert_file and tls.key_file must be set together''
     @ concat (map (\<lambda>(k, v). check (trim_space k = []) ''headers: empty header name'') (oc_headers c))"

definition otlp_validate :: "(string \<Rightarrow> goerr + url_parts) \<Rightarrow> otlp_config \<Rightarrow> goerr option" where
  "otlp_validate parse c = join_errs (otlp_errors parse c)"

section \<open>The client\<close>

text \<open>The TLS client: the roots that replace the system's, the key pair, and the name to verify.\<close>

record tls_client =
  tc_roots :: "string option"
  tc_key_pair :: "(string \<times> string) option"
  tc_verify_name :: string

text \<open>\<open>read_ca\<close> gives the bundle and whether it holds a certificate; \<open>load_pair\<close> loads a key pair.\<close>

definition tls_build ::
  "(string \<Rightarrow> goerr + string \<times> bool) \<Rightarrow> (string \<Rightarrow> string \<Rightarrow> goerr option) \<Rightarrow> tls_config \<Rightarrow> goerr + tls_client" where
  "tls_build read_ca load_pair t =
     (case (if tl_ca_file t = [] then Inr None
            else case read_ca (tl_ca_file t) of
                Inl e \<Rightarrow> Inl (Wrap ''read ca_file'' [e])
              | Inr (pem, ok) \<Rightarrow> if ok then Inr (Some pem) else Inl (Msg ''ca_file: no certificates found'')) of
        Inl e \<Rightarrow> Inl e
      | Inr roots \<Rightarrow>
          if tl_cert_file t = [] then Inr \<lparr>tc_roots = roots, tc_key_pair = None, tc_verify_name = tl_server_name t\<rparr>
          else (case load_pair (tl_cert_file t) (tl_key_file t) of
              Some e \<Rightarrow> Inl (Wrap ''load cert_file/key_file'' [e])
            | None \<Rightarrow> Inr \<lparr>tc_roots = roots, tc_key_pair = Some (tl_cert_file t, tl_key_file t),
                tc_verify_name = tl_server_name t\<rparr>))"

datatype otlp_transport =
    GrpcTransport (gt_host: string) (gt_tls: "tls_client option") (gt_gzip: bool) (gt_metadata: "(string \<times> string) list")
  | HttpTransport (ht_traces: string) (ht_logs: string) (ht_tls: "tls_client option") (ht_gzip: bool)
      (ht_headers: "(string \<times> string) list")

record otlp_client =
  ol_config :: otlp_config
  ol_resource :: "(string \<times> goval) list"
  ol_user_agent :: string
  ol_transport :: otlp_transport

definition new_http_transport :: "otlp_config \<Rightarrow> otlp_target \<Rightarrow> tls_client option \<Rightarrow> otlp_transport" where
  "new_http_transport c t tls =
     (let base = (if tg_tls t then ''https'' else ''http'') @ ''://'' @ tg_host_port t @ tg_base_path t in
      HttpTransport (base @ ''/v1/traces'') (base @ ''/v1/logs'') tls (oc_compression c = compression_gzip) (oc_headers c))"

text \<open>The metadata package keeps its keys in lower case; \<open>dial\<close> is the error of the gRPC client's constructor.\<close>

definition new_grpc_transport ::
  "goerr option \<Rightarrow> otlp_config \<Rightarrow> otlp_target \<Rightarrow> tls_client option \<Rightarrow> goerr + otlp_transport" where
  "new_grpc_transport dial c t tls = (case dial of
     Some e \<Rightarrow> Inl (Wrap ''grpc client'' [e])
   | None \<Rightarrow> Inr (GrpcTransport (tg_host_port t) tls (oc_compression c = compression_gzip)
       (map (\<lambda>(k, v). (to_lower k, v)) (oc_headers c))))"

text \<open>\<open>None\<close> as the resource stands for the default one of the version.\<close>

definition new_otlp_client ::
  "(string \<Rightarrow> goerr + url_parts) \<Rightarrow> (string \<Rightarrow> goerr + string \<times> bool) \<Rightarrow> (string \<Rightarrow> string \<Rightarrow> goerr option) \<Rightarrow>
    goerr option \<Rightarrow> otlp_config \<Rightarrow> string \<Rightarrow> (string \<times> goval) list option \<Rightarrow> goerr + otlp_client" where
  "new_otlp_client parse read_ca load_pair dial c version resource = (case otlp_validate parse c of
     Some e \<Rightarrow> Inl e
   | None \<Rightarrow> (case target_of parse c of
       Inl e \<Rightarrow> Inl (Wrap ''endpoint'' [e])
     | Inr t \<Rightarrow> (case (if tg_tls t then map_sum id Some (tls_build read_ca load_pair (oc_tls c)) else Inr None) of
         Inl e \<Rightarrow> Inl (Wrap ''tls'' [e])
       | Inr tls \<Rightarrow>
           let version = (if version = [] then ''dev'' else version);
               client = (\<lambda>tr. \<lparr>ol_config = c,
                 ol_resource = (case resource of Some r \<Rightarrow> r | None \<Rightarrow> default_resource version),
                 ol_user_agent = ''antwatcher/'' @ version, ol_transport = tr\<rparr>) in
           if oc_protocol c = protocol_grpc then map_sum id client (new_grpc_transport dial c t tls)
           else if oc_protocol c = protocol_http then Inr (client (new_http_transport c t tls))
           else Inl (Msg ''protocol''))))"

section \<open>The request\<close>

record http_request =
  hq_url :: string
  hq_header :: "(string, string) amap"
  hq_body :: string

text \<open>\<open>Header.Set\<close> under its canonical key, which \<open>canon\<close> computes; configured headers are set last.\<close>

definition otlp_request ::
  "(string \<Rightarrow> string) \<Rightarrow> otlp_client \<Rightarrow> string \<Rightarrow> goerr + string \<Rightarrow> (string \<Rightarrow> goerr + string) \<Rightarrow> goerr + http_request" where
  "otlp_request canon c url marshalled gzip = (case marshalled of
     Inl e \<Rightarrow> Inl (Wrap ''marshal request'' [e])
   | Inr body \<Rightarrow> (case (if ht_gzip (ol_transport c) then gzip body else Inr body) of
       Inl e \<Rightarrow> Inl (Wrap ''gzip request'' [e])
     | Inr data \<Rightarrow>
         let h = [(canon ''Content-Type'', ''application/x-protobuf''), (canon ''User-Agent'', ol_user_agent c)]
               @ (if ht_gzip (ol_transport c) then [(canon ''Content-Encoding'', ''gzip'')] else [])
         in Inr \<lparr>hq_url = url,
              hq_header = foldl (\<lambda>h (k, v). AList.update (canon k) v h) h (ht_headers (ol_transport c)),
              hq_body = data\<rparr>))"

section \<open>Facts\<close>

lemma map_sum_eq_iff:
  "map_sum f g x = Inl y \<longleftrightarrow> (\<exists>z. x = Inl z \<and> y = f z)"
  "map_sum f g x = Inr w \<longleftrightarrow> (\<exists>z. x = Inr z \<and> w = g z)"
  by (cases x; auto)+

lemma otlp_validate_None:
  "otlp_validate parse c = None \<Longrightarrow> \<exists>t. target_of parse c = Inr t \<and> (tg_tls t \<or> oc_tls c = no_tls) \<and>
     oc_protocol c \<in> {protocol_grpc, protocol_http} \<and> oc_compression c \<in> {compression_none, compression_gzip} \<and>
     0 < oc_timeout c \<and> 0 \<le> rt_attempts (oc_retry c) \<and> 0 \<le> rt_backoff (oc_retry c)"
  by (auto simp: otlp_validate_def otlp_errors_def check_def split: if_splits sum.splits)

text \<open>
  What \<open>Validate\<close> accepts, \<open>New\<close> builds, unless a TLS file or the gRPC client is at fault; exports go out in
  the clear only when the operator asked for it, and then no TLS setting is silently ignored.
\<close>

lemma new_client_as_configured:
  assumes "otlp_validate parse c = None"
  shows "\<exists>t. target_of parse c = Inr t \<and>
    (\<not> tg_tls t \<longrightarrow> oc_tls c = no_tls \<and> (oc_insecure c \<or> (\<exists>u. parse (oc_endpoint c) = Inr u \<and> up_scheme u = ''http''))) \<and>
    (case new_otlp_client parse read_ca load_pair dial c version resource of
       Inl e \<Rightarrow> (tg_tls t \<and> (\<exists>e'. tls_build read_ca load_pair (oc_tls c) = Inl e')) \<or> (oc_protocol c = protocol_grpc \<and> dial \<noteq> None)
     | Inr cl \<Rightarrow> (case ol_transport cl of
           GrpcTransport h tls gz md \<Rightarrow> oc_protocol c = protocol_grpc \<and> h = tg_host_port t \<and> (tls \<noteq> None \<longleftrightarrow> tg_tls t)
         | HttpTransport tr lo tls gz hs \<Rightarrow> oc_protocol c = protocol_http \<and> hs = oc_headers c \<and> (tls \<noteq> None \<longleftrightarrow> tg_tls t)))"
proof -
  from otlp_validate_None [OF assms] obtain t where t: "target_of parse c = Inr t" "tg_tls t \<or> oc_tls c = no_tls"
    "oc_protocol c = protocol_grpc \<or> oc_protocol c = protocol_http" by auto
  have "tg_tls t \<or> oc_insecure c \<or> (\<exists>u. parse (oc_endpoint c) = Inr u \<and> up_scheme u = ''http'')"
    using t(1) by (auto simp: target_of_def target_of_url_def Let_def split: if_splits sum.splits)
  moreover have "protocol_grpc \<noteq> protocol_http" by (simp add: otlp_names)
  ultimately show ?thesis
    using t assms by (intro exI [of _ t])
      (auto simp: map_sum_eq_iff new_otlp_client_def new_grpc_transport_def new_http_transport_def Let_def
        split: sum.splits option.splits if_splits)
qed

text \<open>A header the operator sets is sent, the last one of a name, whatever the client sets itself.\<close>

lemma configured_header_sent:
  assumes "otlp_request canon c url (Inr body) gzip = Inr q" and "ht_headers (ol_transport c) = hs @ [(k, v)]"
  shows "map_of (hq_header q) (canon k) = Some v"
  using assms by (auto simp: otlp_request_def Let_def split: sum.splits if_splits)

end
