(* ===== verification/EndToEnd.thy ===== *)
theory EndToEnd
  imports Receiver ArchiveProps SpanLogProps ForwardFacts AnalyticsProps
begin

text \<open>
  From the webhook to a destination: what GitHub was told is accepted is, once every consumer has acked the
  messages the broker keeps, in every destination that has a place for it. The facts are proved once for any
  destination, so they hold for the archive, trace, log, analytics and forward sinks by their interpretations.
\<close>

section \<open>What a consumer decodes is what the receiver accepted\<close>

lemma in_int64_zero: "in_int64 0"
  by (simp add: in_int64_def int64_min_def int64_max_def)

lemma undecodable_repository:
  assumes "\<not> (0 \<le> repository_id env \<and> in_int64 (repository_id env))"
  shows "\<exists>e. from_message (Some (to_message env)) = Inl e"
proof (rule ccontr)
  assume "\<not> ?thesis"
  then obtain env' where ok: "from_message (Some (to_message env)) = Inr env'"
    by (cases "from_message (Some (to_message env))") auto
  obtain md where m: "metadata (to_message env) = Some md"
    and k: "map_of md meta_repository_id =
      (if repository_id env = 0 then None else Some (format_int (repository_id env)))"
    by (rule to_message_metadata)
  have "repository_id env \<noteq> 0" using assms in_int64_zero by auto
  then have "\<exists>e. nonneg_meta md meta_repository_id = Inl e"
    using assms k by (auto simp: nonneg_meta_def parse_int64_def)
  with ok m show False
    by (auto simp: from_message_def Let_def split: option.splits sum.splits if_splits)
qed

lemma decoded_is_accepted:
  assumes "from_webhook hdr body now = Inr ev" and "rfc3339_range now" and "same_content (to_message ev) m"
    and "from_message (Some m) = Inr ev'"
  shows "ev' = ev"
proof -
  have d: "from_message (Some (to_message ev)) = Inr ev'" using assms(3,4) by (simp add: same_content_def)
  then have "0 \<le> repository_id ev" "in_int64 (repository_id ev)"
    using undecodable_repository [of ev] by auto
  with from_webhook_ok [OF assms(1)] assms(2) have "wf_envelope ev" by (simp add: wf_envelope_def in_int64_zero)
  from from_to_message [OF this] d show ?thesis by simp
qed

section \<open>Any destination\<close>

context destination
begin

text \<open>The handler acked the message of an accepted delivery: its event is delivered, if it is wanted.\<close>

lemma accepted_then_delivered:
  assumes "handle_all process ms h d = (rs, h', d')" and "good d"
    and "from_webhook hdr body now = Inr ev" and "rfc3339_range now" and "same_content (to_message ev) m"
    and "i < length ms" and "snd (snd (ms ! i)) = m" and "rs ! i = None" and "honest (fst (ms ! i))"
  shows "delivered d' ev \<or> \<not> wanted ev"
  using handle_all_acked [OF assms(1,2,6,8,9)] decoded_is_accepted [OF assms(3,4,5)] assms(7) by auto

end

text \<open>Every message the broker keeps was delivered to a consumer and acked by its handler, in a run with honest answers.\<close>

definition all_acked ::
  "('env \<Rightarrow> bool) \<Rightarrow> message list \<Rightarrow> ('env \<times> gtime \<times> message) list \<Rightarrow> goerr option list \<Rightarrow> bool" where
  "all_acked honest stored ms rs \<longleftrightarrow>
     (\<forall>m \<in> set stored. \<exists>i < length ms. snd (snd (ms ! i)) = m \<and> rs ! i = None \<and> honest (fst (ms ! i)))"

context destination
begin

lemma served_then_delivered:
  assumes "serve_webhook (\<lambda>m b. nats_publish before ack after (Some m) b) ctx cfg start r (b, samples) = (resp, b', samples')"
    and "rs_code resp = 200" and "\<not> rs_ping resp" and "rfc3339_range start"
    and "handle_all process ms h d = (rs, h', d')" and "good d"
    and "all_acked honest (map nats_to_message (nb_acked b')) ms rs"
  shows "\<exists>body ev. read_body (sv_max_body_bytes cfg) (rq_body r) = BodyOk body \<and>
    verify_signature (sv_secret cfg) (header_get (rq_header r) header_signature) body \<and>
    from_webhook (rq_header r) body start = Inr ev \<and> rs_delivery resp = delivery_guid ev \<and>
    (delivered d' ev \<or> \<not> wanted ev)"
proof -
  have s: "serve_webhook ((\<lambda>(before, ack, after) m b. nats_publish before ack after (Some m) b) (before, ack, after)) ctx cfg start r (b, samples)
      = (resp, b', samples')" using assms(1) by simp
  obtain body ev m where e: "read_body (sv_max_body_bytes cfg) (rq_body r) = BodyOk body"
    "verify_signature (sv_secret cfg) (header_get (rq_header r) header_signature) body"
    "from_webhook (rq_header r) body start = Inr ev" "rs_delivery resp = delivery_guid ev"
    and m: "m \<in> set (map nats_to_message (nb_acked b'))" "same_content (to_message ev) m"
    using nats.served_2xx_kept [OF s assms(2,3)] by blast
  from assms(7) m(1) obtain i where "i < length ms" "snd (snd (ms ! i)) = m" "rs ! i = None" "honest (fst (ms ! i))"
    unfolding all_acked_def by blast
  from accepted_then_delivered [OF assms(5,6) e(3) assms(4) m(2) this] e show ?thesis by blast
qed

end

section \<open>Properties\<close>


definition push_envelope :: envelope where
  "push_envelope = sample_envelope\<lparr>ev_event := ''push'', ev_action := [], received_at := 5, repository_id := 0, repository := []\<rparr>"

definition push_message :: message where
  "push_message = nats_to_message (nats_msg_of ''github.events'' (to_message push_envelope))"

lemma push_archived:
  "\<exists>s w rs h' s' w'. open_store sample_gzip sample_store (sample_disk no_faults) = (Inr s, w) \<and>
     handle_all (archive_process sample_gzip) [((None, 5), 6, push_message)] idle_handler (s, w) = (rs, h', s', w') \<and> rs = [None]"
proof -
  have c: "case open_store sample_gzip sample_store (sample_disk no_faults) of
      (Inr s, w) \<Rightarrow> fst (archive_process sample_gzip (None, 5) push_envelope (s, w)) = None
    | (Inl e, w) \<Rightarrow> False"
    by code_simp
  obtain r w where o': "open_store sample_gzip sample_store (sample_disk no_faults) = (r, w)" by fastforce
  with c obtain s where s: "r = Inr s" by (cases r) auto
  obtain e s1 w1 where a: "archive_process sample_gzip (None, 5) push_envelope (s, w) = (e, s1, w1)"
    using prod_cases3 by blast
  from c o' s a have "e = None" by simp
  with a have p: "archive_process sample_gzip (None, 5) push_envelope (s, w) = (None, s1, w1)" by simp
  have m: "from_message (Some push_message) = Inr push_envelope" by code_simp
  obtain rs h' s' w' where h: "handle_all (archive_process sample_gzip) [((None, 5), 6, push_message)] idle_handler (s, w)
      = (rs, h', s', w')" by (metis prod_cases4)
  then have "rs = [None]" using m p by (auto simp: handle_def Let_def split: prod.splits)
  with h o' s show ?thesis by blast
qed


end
