(* ===== verification/Spec2Isabelle.thy ===== *)
theory Spec2Isabelle
  imports Receiver SinkRegistry SingleFlight RecoveryFacts Model GhClient OtlpFacts ForwardFacts ArchiveProps SpanLogProps AnalyticsClaims Command NatsLife OtlpConfig EndToEnd
begin

text \<open>
  A verification of antwatcher, a service that accepts GitHub webhooks, stores them on a message bus and
  projects them from there into destinations (archive, traces, logs, analytics, another bus).

  \<^bold>\<open>The program and how its parts interact.\<close> The receiver (\<open>internal/receiver\<close>) checks the signature of a
  webhook, wraps it in an envelope (\<open>internal/event\<close>) and publishes it on the bus (\<open>internal/bus\<close> and its two
  drivers); it answers 2xx only once the broker has acknowledged it. Every sink has a durable consumer of its
  own on the bus. A router of handlers (\<open>internal/sink\<close>) hands each message to the sink's \<open>Process\<close> and acks it
  when the event was processed, was skipped or is none of the sink's business, and nacks it otherwise, so that
  the bus delivers it again. The classes of sinks (\<open>internal/sink/archive\<close>, \<open>trace\<close>, \<open>log\<close>, \<open>analytics\<close>, \<open>forward\<close>)
  project the normalised entities (\<open>internal/model\<close>) and write them through drivers. The recovery loop
  (\<open>internal/recovery\<close>) lists GitHub's delivery attempts through \<open>internal/ghclient\<close> and asks for the deliveries
  that never reached the receiver. The command (\<open>cmd/antwatcher\<close>) reads the configuration (\<open>internal/config\<close>),
  builds everything and runs it until a signal.

  \<^bold>\<open>Conventions.\<close>
  \<^item> What the program calls outside of \<open>src/\<close> is an argument of the definitions: the answers of the broker, of
    GitHub, of a collector, of BigQuery, of the operating system, of the YAML decoder. Where it matters what
    such a call did, the state carries a history of it (the messages a broker accepted, the batches a
    collector took, the lines on the disk), and the theorems speak about that history.
  \<^item> \<open>(T, error)\<close> is \<open>goerr + 'a\<close>; a lone \<open>error\<close> is \<open>goerr option\<close>. An error is a message, a named sentinel or
    a wrapping of others, so that \<open>errors.Is\<close> and \<open>errors.As\<close> compute; the wording of messages is kept as a label.
  \<^item> Go's maps are association lists with distinct keys (\<open>amap\<close>), instants are nanoseconds since year 1
    with the zero time as 0, durations nanoseconds. \<open>int64\<close> is kept at its width where a computation can
    leave it: the shift of the NATS back-off, \<open>Retry-After\<close>, byte sizes and identifiers.
  \<^item> Strings are lists of bytes as characters; white space, case and letters are ASCII, and the validity of
    UTF-8 is not modelled.
  \<^item> Concurrency is interleaving: a step relation where callers share a state (\<open>SingleFlight\<close>), and a list of
    operations where one goroutine owns it.

  \<^bold>\<open>Foundations.\<close>
  \<^item> \<open>Prelude\<close>: errors, association lists, instants, and the locale \<open>invariant_system\<close>, whose consequences every
    step relation uses.
  \<^item> \<open>GoStd\<close>, \<open>GoTime\<close>, \<open>GoSha\<close>, \<open>GoJson\<close>, \<open>GoJsonEnc\<close>, \<open>GoJsonFacts\<close>: the parts of the Go library the
    program computes with, each with the facts used later (decimal and RFC 3339 texts parse back, what a JSON
    parser accepts, what an encoder never writes).

  \<^bold>\<open>From the webhook to the bus.\<close>
  \<^item> \<open>Event\<close> (\<open>envelope.go\<close>, \<open>message.go\<close>): \<open>from_webhook\<close>, \<open>to_message\<close>, \<open>from_message\<close>; a written message reads
    back as the same envelope.
  \<^item> \<open>Bus\<close> (\<open>bus.go\<close>, \<open>capabilities.go\<close>, \<open>policy.go\<close>, \<open>registry.go\<close>): capabilities, the policy that decides at
    startup whether a bus is safe enough, consumer names and start positions, and the locale \<open>publisher\<close>, which
    says what a successful publish promises.
  \<^item> \<open>GoChannel\<close> and \<open>NatsJs\<close>: the two drivers, both interpretations of \<open>publisher\<close>; replay and history of the
    one, configuration, headers, acks, redelivery delays, streams and the store lock of the other. \<open>NatsLife\<close>: opening
    a JetStream bus, which leaves nothing behind when it fails, and the fetch loop of its subscribers.
  \<^item> \<open>Receiver\<close> (\<open>handler.go\<close>): the webhook handler and the signature check over HMAC-SHA-256.

  \<^bold>\<open>From the bus to the destinations.\<close>
  \<^item> \<open>SinkCore\<close> (\<open>errors.go\<close>, \<open>stalled.go\<close>, \<open>router.go\<close>): permanent errors, the bounded set of stalled messages,
    the handler, and the locale \<open>destination\<close>: what a class promises when its \<open>Process\<close> returns no error. Inside it:
    over any sequence of deliveries each acked event is delivered, and deliveries are never taken back.
  \<^item> \<open>SinkRegistry\<close> (\<open>sink.go\<close>, \<open>registry.go\<close>, the binding of sinks in \<open>router.go\<close>): classes, drivers, \<open>Build\<close>.
  \<^item> \<open>RouterLife\<close> (\<open>router.go\<close>): running and closing the router, which closes each consumer once, and its status.
  \<^item> \<open>SingleFlight\<close> (\<open>singleflight.go\<close>): a lazily opened resource shared by any number of callers.
  \<^item> \<open>SinkDriver\<close>: the locale \<open>driver\<close> between a class and what it writes to, with the OTLP client as its
    interpretation; \<open>exporter\<close>, \<open>log_writer\<close> and \<open>analytics_writer\<close> extend it for the classes.
  \<^item> \<open>Model\<close> (\<open>normalize.go\<close>, \<open>ids.go\<close>, \<open>status.go\<close>): entities, their decoding, identifiers and event times.
  \<^item> \<open>Otlp\<close>, \<open>OtlpFacts\<close> (\<open>retry.go\<close>, \<open>client.go\<close>, \<open>types.go\<close>): classification of failures, pauses, the export loop.
    \<open>OtlpConfig\<close> (\<open>config.go\<close>, \<open>client.go\<close>): the block, the endpoint, the client and the request it sends.
  \<^item> \<open>Trace\<close>, \<open>Log\<close>, \<open>LogStdout\<close>, \<open>LogFacts\<close>, \<open>SpanLogProps\<close>: the two OTLP classes and the stdout driver.
  \<^item> \<open>Analytics\<close>, \<open>BigQuery\<close>, \<open>AnalyticsFacts\<close>, \<open>AnalyticsProps\<close>, \<open>AnalyticsClaims\<close>: rows, schema, the current
    view, the writer. A row that the encoder cannot encode panics in the source; the router recovers panics
    into errors, and the model returns the error.
  \<^item> \<open>Forward\<close>, \<open>ForwardFacts\<close>: copies to another bus with a hop limit.
  \<^item> \<open>ArchiveRecord\<close>, \<open>ArchiveFs\<close>, \<open>ArchiveStore\<close> are the archive class: the record, the file system with system
    calls that may each fail, the store of JSON lines. \<open>ArchiveLines\<close>, \<open>ArchiveEncode\<close>, \<open>ArchiveKeeps\<close>, \<open>ArchiveFiles\<close>,
    \<open>ArchiveRotate\<close>, \<open>ArchiveInv\<close>, \<open>ArchiveRecover\<close> and \<open>ArchiveNames\<close> are its library of facts: a line that is safe
    stays in some file of the store whatever each operation does. \<open>ArchiveSystem\<close> puts opens, appends, stops and
    crashes together, \<open>ArchiveProps\<close> states the results. A crash cuts every file at any point behind its synced
    part and keeps directory entries; gzip is an encoder whose decoder inverts it.

  \<^item> \<open>EndToEnd\<close>: receiver, broker, router and destination together. For any interpretation of \<open>destination\<close>, an
    event that was answered with 2xx is delivered once its consumer acked what the broker keeps.

  \<^bold>\<open>Recovery, configuration and the command.\<close>
  \<^item> \<open>GhClient\<close> (\<open>client.go\<close>, \<open>auth.go\<close>), \<open>Recovery\<close>, \<open>RecoveryFacts\<close> (\<open>decide.go\<close>, \<open>recovery.go\<close>): listing with pagination,
    grouping by GUID, choosing and asking, scans and their state.
  \<^item> \<open>Config\<close>, \<open>ConfigValidate\<close>, \<open>ConfigFacts\<close>, \<open>ConfigProps\<close>: byte sizes, masking of secrets, environment
    references, validation, and the loading order; what validation accepts, the components accept, and the
    two gaps where they do not.
  \<^item> \<open>Serve\<close> (\<open>serve.go\<close>, \<open>server.go\<close>): startup, run and shutdown as traces of acquisitions, starts, stops and
    releases, with a monitor of lawful traces. A startup answer stands for each component that is built; the
    answers of a run are the failure that ended it and what each stop and close reports.
  \<^item> \<open>Lag\<close> (\<open>lag.go\<close>): the lag poller under any interleaving of registrations and samples.
  \<^item> \<open>Command\<close> (\<open>main.go\<close>, \<open>admin/server.go\<close>): readiness, the admin endpoints and their server, and the command
    line, whose exit code tells exactly how the service came up and ended.

  \<^bold>\<open>Bounds and fuel.\<close> The listing of deliveries reads at most the pages the source reads (its page cap is the
  argument of the recursion). The search for a free file name takes one more attempt than there are files,
  which is enough (\<open>archive_name_search_ends\<close>). The export loop is bounded by the configured attempts. Every other
  loop is a structural recursion or has a termination proof.

  \<^bold>\<open>Hypotheses.\<close> Laws of outside code are the assumptions of locales or named premises: a broker that
  acknowledges keeps the message, gzip decodes what it encoded, GitHub lists newest first, a committed batch
  is stored. Each has an interpretation or a witness that shows it can hold.

  \<^bold>\<open>Not modelled.\<close> The event fixtures and the conformance suite of the bus are test code. The adapter for
  Watermill's logger, the construction of BigQuery clients and managed streams, gRPC and HTTP transports below
  the request, protobuf and Prometheus registration are calls into libraries. URL, IP, MIME, flag and YAML
  parsing are libraries too and appear as arguments. Logging and the rendering of the status document carry
  no state of the program, except that the lag poller's log is modelled where its comment makes a promise.
\<close>

end
